(* ===== verification/NatsPrelude.thy ===== *)
theory NatsPrelude
  imports Main "HOL-Library.AList" "HOL-Library.State_Monad" "HOL-Library.Multiset"
    "HOL-Library.Sublist"
begin

text \<open>
  What the components share: Go errors (the \<^verbatim>\<open>errors\<close> and \<^verbatim>\<open>fmt\<close> packages as the source uses
  them), the outcome of a Go call that may panic, the strings package's \<^verbatim>\<open>Split\<close>, \<^verbatim>\<open>HasPrefix\<close> and
  the decimal formatting of \<^verbatim>\<open>%d\<close>, and a small weakest-precondition calculus and frame calculus for
  the state monad in which every operation with an effect is written.
\<close>

named_theorems wp_simps "weakest preconditions of the monadic operations"
named_theorems const_defs "the string constants of the source"

section \<open>Go errors\<close>

text \<open>
  The package-level error values of the source (\<^verbatim>\<open>errors.New\<close> variables, compared by identity), those of
  \<^verbatim>\<open>testutils\<close> with the prefix \<open>Test\<close>, and \<^verbatim>\<open>io.EOF\<close> of the standard library.
\<close>

datatype sentinel =
    ErrNodeZoneLabelMissing
  | ErrNATSStatefulSetNotFound
  | ErrFailedToConvertMetadataToMap
  | ErrFailedToConvertLabelsToMap
  | ErrFailedToConvertToNestedMap
  | TestErrFailedToConvertStatusToMap
  | TestErrFailedToConvertMetadataToMap
  | TestErrFailedToConvertSpecToMap
  | io_EOF

text \<open>
  An error value: one made by code outside the repository (its kind and its text), a sentinel, the
  result of \<^verbatim>\<open>fmt.Errorf\<close> (the formatted text and the operand of \<^verbatim>\<open>%w\<close>, if any and not nil), or the
  result of \<^verbatim>\<open>errors.Join\<close>. A Go value of type \<^verbatim>\<open>error\<close> is a \<open>go_error option\<close>, \<open>None\<close> being nil.
\<close>

datatype go_error =
    ExternalError string string
  | Sentinel sentinel
  | Errorf string "go_error option"
  | Joined "go_error list"

fun sentinel_text :: "sentinel \<Rightarrow> string" where
  "sentinel_text ErrNodeZoneLabelMissing = ''zone label missing''"
| "sentinel_text ErrNATSStatefulSetNotFound = ''NATS StatefulSet not found in manifests''"
| "sentinel_text ErrFailedToConvertMetadataToMap =
     ''failed to convert metadata to map[string]interface''"
| "sentinel_text ErrFailedToConvertLabelsToMap =
     ''failed to convert labels to map[string]interface''"
| "sentinel_text ErrFailedToConvertToNestedMap =
     ''failed to convert to nestedMap to map[string]interface{}''"
| "sentinel_text TestErrFailedToConvertStatusToMap = ''failed to convert status to map[string]interface''"
| "sentinel_text TestErrFailedToConvertMetadataToMap = ''failed to convert metadata to map[string]interface''"
| "sentinel_text TestErrFailedToConvertSpecToMap = ''failed to convert spec to map[string]interface''"
| "sentinel_text io_EOF = ''EOF''"

fun join_with :: "char \<Rightarrow> string list \<Rightarrow> string" where
  "join_with c [] = []"
| "join_with c [x] = x"
| "join_with c (x # y # zs) = x @ [c] @ join_with c (y # zs)"

text \<open>\<^verbatim>\<open>err.Error()\<close>; a joined error prints its members on lines of their own.\<close>

fun error_text :: "go_error \<Rightarrow> string" where
  "error_text (ExternalError k msg) = msg"
| "error_text (Sentinel s) = sentinel_text s"
| "error_text (Errorf msg w) = msg"
| "error_text (Joined es) = join_with (CHR 0x0A) (map error_text es)"

text \<open>\<^verbatim>\<open>errors.Is(err, target)\<close> for a sentinel target: the tree of wrapped errors is searched.\<close>

fun errors_is :: "go_error \<Rightarrow> sentinel \<Rightarrow> bool" where
  "errors_is (ExternalError k msg) s = False"
| "errors_is (Sentinel t) s = (t = s)"
| "errors_is (Errorf msg None) s = False"
| "errors_is (Errorf msg (Some e)) s = errors_is e s"
| "errors_is (Joined es) s = list_ex (\<lambda>e. errors_is e s) es"

text \<open>\<^verbatim>\<open>errors.Join\<close> drops nil operands and is nil when all of them are.\<close>

definition errors_join :: "go_error option list \<Rightarrow> go_error option" where
  "errors_join es =
     (case map the (filter (\<lambda>e. e \<noteq> None) es) of [] \<Rightarrow> None | xs \<Rightarrow> Some (Joined xs))"

lemma errors_join_2 [simp]:
  "errors_join [Some e, None] = Some (Joined [e])"
  "errors_join [Some e, Some e'] = Some (Joined [e, e'])"
  "errors_join [None, Some e'] = Some (Joined [e'])"
  "errors_join [None, None] = None"
  by (simp_all add: errors_join_def)

lemma errors_join_Some [simp]: "errors_join [Some e, r] \<noteq> None"
  by (cases r) simp_all

lemma errors_join_is [simp]: "errors_join [Some e, r] = Some j \<Longrightarrow> errors_is e s \<Longrightarrow> errors_is j s"
  by (cases r) auto

text \<open>The error component of a pair (value, error) whose value is only used when the error is nil.\<close>

fun err_of :: "go_error + 'a \<Rightarrow> go_error option" where
  "err_of (Inl e) = Some e"
| "err_of (Inr x) = None"

text \<open>A call that may panic (a nil dereference) instead of returning.\<close>

datatype 'a outcome = Panicked | Returned 'a

section \<open>Strings\<close>

text \<open>\<^verbatim>\<open>strings.Split(s, sep)\<close> for a separator of one byte; it never returns an empty slice.\<close>

fun split_on :: "char \<Rightarrow> string \<Rightarrow> string list" where
  "split_on c [] = [[]]"
| "split_on c (x # xs) =
     (if x = c then [] # split_on c xs
      else (case split_on c xs of [] \<Rightarrow> [[x]] | y # ys \<Rightarrow> (x # y) # ys))"

lemma split_on_ne [simp]: "split_on c s \<noteq> []"
  by (cases s) (auto split: list.splits)

lemma join_split [simp]: "join_with c (split_on c s) = s"
proof (induction s)
  case Nil
  then show ?case by simp
next
  case (Cons x xs)
  then show ?case
    by (cases "split_on c xs"; cases "tl (split_on c xs)") auto
qed

lemma split_on_inj: "split_on c s = split_on c t \<Longrightarrow> s = t"
  by (metis join_split)

lemma split_on_none: "c \<notin> set s \<Longrightarrow> split_on c s = [s]"
  by (induction s) auto

lemma split_on_append: "c \<notin> set s \<Longrightarrow> split_on c (s @ c # t) = s # split_on c t"
  by (induction s) (auto split: list.splits)

text \<open>Decimal output of \<^verbatim>\<open>%d\<close>.\<close>

definition digit :: "int \<Rightarrow> char" where
  "digit i = char_of (48 + i)"

function show_pos :: "int \<Rightarrow> string" where
  "show_pos i = (if i < 10 then [digit i] else show_pos (i div 10) @ [digit (i mod 10)])"
  by pat_completeness auto
termination
  by (relation "measure nat") auto

declare show_pos.simps [simp del]

definition show_int :: "int \<Rightarrow> string" where
  "show_int i = (if i < 0 then CHR ''-'' # show_pos (- i) else show_pos i)"

text \<open>\<^verbatim>\<open>strings.HasPrefix(s, p)\<close>.\<close>

definition has_prefix :: "string \<Rightarrow> string \<Rightarrow> bool" where
  "has_prefix s p = prefix p s"

section \<open>The state monad: weakest preconditions\<close>

abbreviation ret :: "'a \<Rightarrow> ('s, 'a) state" where
  "ret \<equiv> State_Monad.return"

definition gets :: "('s \<Rightarrow> 'a) \<Rightarrow> ('s, 'a) state" where
  "gets f = State (\<lambda>s. (f s, s))"

definition modify :: "('s \<Rightarrow> 's) \<Rightarrow> ('s, unit) state" where
  "modify f = State (\<lambda>s. ((), f s))"

lemma run_gets [simp]: "run_state (gets f) s = (f s, s)"
  by (simp add: gets_def)

lemma run_modify [simp]: "run_state (modify f) s = ((), f s)"
  by (simp add: modify_def)

definition wp :: "('s, 'a) state \<Rightarrow> ('a \<Rightarrow> 's \<Rightarrow> bool) \<Rightarrow> 's \<Rightarrow> bool" where
  "wp m Q s = (case run_state m s of (r, s') \<Rightarrow> Q r s')"

lemma wp_ret [wp_simps]: "wp (ret x) Q s = Q x s"
  by (simp add: wp_def)

lemma wp_bind [wp_simps]: "wp (m \<bind> f) Q s = wp m (\<lambda>x. wp (f x) Q) s"
  by (simp add: wp_def split: prod.splits)

lemma wp_gets [wp_simps]: "wp (gets f) Q s = Q (f s) s"
  by (simp add: wp_def)

lemma wp_modify [wp_simps]: "wp (modify f) Q s = Q () (f s)"
  by (simp add: wp_def)

lemma wp_if [wp_simps]: "wp (if b then m else n) Q s = (if b then wp m Q s else wp n Q s)"
  by simp

lemma wp_case_option [wp_simps]:
  "wp (case x of None \<Rightarrow> m | Some y \<Rightarrow> f y) Q s = (case x of None \<Rightarrow> wp m Q s | Some y \<Rightarrow> wp (f y) Q s)"
  by (cases x) simp_all

lemma wp_case_sum [wp_simps]:
  "wp (case x of Inl e \<Rightarrow> f e | Inr y \<Rightarrow> g y) Q s =
   (case x of Inl e \<Rightarrow> wp (f e) Q s | Inr y \<Rightarrow> wp (g y) Q s)"
  by (cases x) simp_all

lemma wp_case_outcome [wp_simps]:
  "wp (case x of Panicked \<Rightarrow> m | Returned y \<Rightarrow> g y) Q s =
   (case x of Panicked \<Rightarrow> wp m Q s | Returned y \<Rightarrow> wp (g y) Q s)"
  by (cases x) simp_all

lemma wp_case_prod [wp_simps]:
  "wp (case x of (a, b) \<Rightarrow> f a b) Q s = (case x of (a, b) \<Rightarrow> wp (f a b) Q s)"
  by (cases x) simp

lemma wpI: "(\<And>r s'. run_state m s = (r, s') \<Longrightarrow> Q r s') \<Longrightarrow> wp m Q s"
  by (simp add: wp_def split: prod.splits)

lemma wpD: "wp m Q s \<Longrightarrow> run_state m s = (r, s') \<Longrightarrow> Q r s'"
  by (simp add: wp_def)

lemma wp_mono: "wp m P s \<Longrightarrow> (\<And>r s'. P r s' \<Longrightarrow> Q r s') \<Longrightarrow> wp m Q s"
  by (simp add: wp_def split: prod.splits)

lemma wp_conj: "wp m P s \<Longrightarrow> wp m Q s \<Longrightarrow> wp m (\<lambda>r t. P r t \<and> Q r t) s"
  by (simp add: wp_def split: prod.splits)

text \<open>
  The Go loop that calls an operation on each element of a slice and returns the first error:
  \<^verbatim>\<open>for _, x := range xs { if err := f(x); err != nil { return err } }; return nil\<close>.
\<close>

fun for_each_err :: "('a \<Rightarrow> ('s, go_error option) state) \<Rightarrow> 'a list \<Rightarrow> ('s, go_error option) state" where
  "for_each_err f [] = ret None"
| "for_each_err f (x # xs) = do {
     err \<leftarrow> f x;
     (case err of None \<Rightarrow> for_each_err f xs | Some e \<Rightarrow> ret (Some e))
   }"

section \<open>Frames: what an operation may do to the state\<close>

text \<open>
  A reflexive and transitive relation between the state before and the state after a call is closed
  under sequencing, branching and the loop above. Each instance gives a family of facts "this
  operation only ever ...", proved by following the text of the operation.
\<close>

locale frame_rel =
  fixes R :: "'s \<Rightarrow> 's \<Rightarrow> bool"
  assumes frame_refl: "R s s"
    and frame_trans: "R s t \<Longrightarrow> R t u \<Longrightarrow> R s u"
begin

lemma f_ret: "state_io_rel R (ret x)"
  by (auto simp: frame_refl)

lemma f_gets: "state_io_rel R (gets f)"
  by (auto simp: frame_refl)

lemma f_bind: "state_io_rel R m \<Longrightarrow> (\<And>x. state_io_rel R (f x)) \<Longrightarrow> state_io_rel R (m \<bind> f)"
  unfolding state_io_rel_def
  by (auto split: prod.splits) (metis frame_trans snd_conv)

lemma f_if: "state_io_rel R m \<Longrightarrow> state_io_rel R n \<Longrightarrow> state_io_rel R (if b then m else n)"
  by simp

lemma f_option:
  "state_io_rel R m \<Longrightarrow> (\<And>y. state_io_rel R (f y)) \<Longrightarrow>
   state_io_rel R (case x of None \<Rightarrow> m | Some y \<Rightarrow> f y)"
  by (cases x) simp_all

lemma f_sum:
  "(\<And>e. state_io_rel R (f e)) \<Longrightarrow> (\<And>y. state_io_rel R (g y)) \<Longrightarrow>
   state_io_rel R (case x of Inl e \<Rightarrow> f e | Inr y \<Rightarrow> g y)"
  by (cases x) simp_all

lemma f_outcome:
  "state_io_rel R m \<Longrightarrow> (\<And>y. state_io_rel R (g y)) \<Longrightarrow>
   state_io_rel R (case x of Panicked \<Rightarrow> m | Returned y \<Rightarrow> g y)"
  by (cases x) simp_all

lemma f_bool:
  "state_io_rel R m \<Longrightarrow> state_io_rel R n \<Longrightarrow> state_io_rel R (case b of True \<Rightarrow> m | False \<Rightarrow> n)"
  by (cases b) simp_all

lemma f_prod: "(\<And>a b. state_io_rel R (f a b)) \<Longrightarrow> state_io_rel R (case x of (a, b) \<Rightarrow> f a b)"
  by (cases x) simp

lemma f_list:
  "state_io_rel R m \<Longrightarrow> (\<And>y ys. state_io_rel R (f y ys)) \<Longrightarrow>
   state_io_rel R (case x of [] \<Rightarrow> m | y # ys \<Rightarrow> f y ys)"
  by (cases x) simp_all

lemma f_loop: "(\<And>x. state_io_rel R (f x)) \<Longrightarrow> state_io_rel R (for_each_err f xs)"
  by (induction xs) (auto intro: f_ret f_bind f_option)

lemma f_modify: "(\<And>s. R s (g s)) \<Longrightarrow> state_io_rel R (modify g)"
  by (simp add: state_io_rel_def)

lemmas f_rules = f_ret f_gets f_bind f_if f_option f_sum f_outcome f_prod f_list f_loop f_modify f_bool

lemma f_run: "state_io_rel R m \<Longrightarrow> run_state m s = (r, s') \<Longrightarrow> R s s'"
  by (rule state_io_relD)

end

text \<open>Equality of one component of the state before and after.\<close>

definition keeps :: "('s \<Rightarrow> 'v) \<Rightarrow> 's \<Rightarrow> 's \<Rightarrow> bool" where
  "keeps f s s' \<longleftrightarrow> f s' = f s"

interpretation keep_frame: frame_rel "keeps f" for f :: "'s \<Rightarrow> 'v"
  by unfold_locales (auto simp: keeps_def)

section \<open>Loops that stop at the first error\<close>

fun collect :: "('a \<Rightarrow> 'b option) \<Rightarrow> 'a list \<Rightarrow> 'b list" where
  "collect f [] = []"
| "collect f (x # xs) = (case f x of None \<Rightarrow> collect f xs | Some y \<Rightarrow> y # collect f xs)"

lemma collect_append [simp]: "collect f (xs @ ys) = collect f xs @ collect f ys"
  by (induction xs) (auto split: option.splits)

text \<open>
  The interface of the body of \<open>for_each_err\<close>: it handles the elements that pass \<open>sel\<close>, each of which
  it adds to a log together with its result, and skips the others without an error. The loop then has
  handled all of them without an error, or those before the first error, which it returns.
\<close>

definition succeeded :: "'a list \<Rightarrow> ('a \<times> go_error option) list" where
  "succeeded xs = map (\<lambda>x. (x, None)) xs"

lemma succeeded_simps [simp]:
  "succeeded [] = []" "succeeded (x # xs) = (x, None) # succeeded xs" "succeeded (xs @ ys) = succeeded xs @ succeeded ys"
  by (simp_all add: succeeded_def)

locale logged_body =
  fixes body :: "'a \<Rightarrow> ('s, go_error option) state"
    and log :: "'s \<Rightarrow> ('a \<times> go_error option) list"
    and sel :: "'a \<Rightarrow> bool"
  assumes logs: "run_state (body x) s = (r, s') \<Longrightarrow> log s' = log s @ (if sel x then [(x, r)] else [])"
    and skips: "run_state (body x) s = (r, s') \<Longrightarrow> \<not> sel x \<Longrightarrow> r = None"
begin

lemma loop_log:
  "run_state (for_each_err body xs) s = (r, s') \<Longrightarrow>
   (case r of
      None \<Rightarrow> log s' = log s @ succeeded (filter sel xs)
    | Some e \<Rightarrow> \<exists>ys x zs. filter sel xs = ys @ x # zs \<and> log s' = log s @ succeeded ys @ [(x, Some e)])"
proof (induction xs arbitrary: s)
  case Nil
  then show ?case by auto
next
  case (Cons x xs)
  obtain e s1 where step: "run_state (body x) s = (e, s1)" by force
  have log1: "log s1 = log s @ (if sel x then [(x, e)] else [])" using logs [OF step] .
  show ?case
  proof (cases e)
    case None
    with Cons.prems step have rest: "run_state (for_each_err body xs) s1 = (r, s')" by simp
    show ?thesis
    proof (cases r)
      case None
      with Cons.IH [OF rest] log1 \<open>e = None\<close> show ?thesis by simp
    next
      case (Some err)
      with Cons.IH [OF rest] obtain ys z zs where *: "filter sel xs = ys @ z # zs"
        "log s' = log s1 @ succeeded ys @ [(z, Some err)]" by auto
      let ?ys = "(if sel x then [x] else []) @ ys"
      have "filter sel (x # xs) = ?ys @ z # zs" "log s' = log s @ succeeded ?ys @ [(z, Some err)]"
        using * log1 \<open>e = None\<close> by simp_all
      then show ?thesis unfolding Some option.case by blast
    qed
  next
    case (Some err)
    with Cons.prems step have "r = Some err" "s' = s1" by simp_all
    moreover have "sel x" using skips [OF step] Some by auto
    ultimately have "filter sel (x # xs) = [] @ x # filter sel xs" "log s' = log s @ succeeded [] @ [(x, Some err)]"
      using log1 Some by simp_all
    then show ?thesis unfolding \<open>r = Some err\<close> option.case by blast
  qed
qed

end

text \<open>A sequence runs its first part and goes on from where that ended.\<close>

lemma run_bind: "run_state m s = (x, t) \<Longrightarrow> run_state (m \<bind> f) s = run_state (f x) t"
  by simp

lemma run_bindE:
  assumes "run_state (m \<bind> f) s = (r, s')"
  obtains x t where "run_state m s = (x, t)" "run_state (f x) t = (r, s')"
  using assms by (auto split: prod.splits)

end
