(* ===== verification/ApiTypes.thy ===== *)
theory ApiTypes
  imports NatsPrelude
begin

text \<open>
  The NATS custom resource: the Go types of \<^verbatim>\<open>api/v1alpha1/nats_types.go\<close>, its string constants, the
  admission rules written as kubebuilder markers on \<^verbatim>\<open>Cluster.Size\<close>, and the comparisons of
  \<^verbatim>\<open>api/v1alpha1/utils.go\<close> and \<^verbatim>\<open>IsEqual\<close>, \<^verbatim>\<open>FindCondition\<close> of \<^verbatim>\<open>nats_status.go\<close>. Go maps with string
  keys are association lists; a nil map and an empty one are both \<open>[]\<close>.
\<close>

section \<open>Constants\<close>

definition StateReady :: string where [const_defs]: "StateReady = ''Ready''"
definition StateError :: string where [const_defs]: "StateError = ''Error''"
definition StateProcessing :: string where [const_defs]: "StateProcessing = ''Processing''"
definition StateDeleting :: string where [const_defs]: "StateDeleting = ''Deleting''"
definition StateWarning :: string where [const_defs]: "StateWarning = ''Warning''"

definition ConditionAvailable :: string where [const_defs]: "ConditionAvailable = ''Available''"
definition ConditionStatefulSet :: string where [const_defs]: "ConditionStatefulSet = ''StatefulSet''"
definition ConditionDeleted :: string where [const_defs]: "ConditionDeleted = ''Deleted''"
definition ConditionAvailabilityZones :: string where
  [const_defs]: "ConditionAvailabilityZones = ''AvailabilityZones''"

definition ConditionReasonProcessing :: string where
  [const_defs]: "ConditionReasonProcessing = ''Processing''"
definition ConditionReasonDeploying :: string where
  [const_defs]: "ConditionReasonDeploying = ''Deploying''"
definition ConditionReasonDeployed :: string where
  [const_defs]: "ConditionReasonDeployed = ''Deployed''"
definition ConditionReasonDeleting :: string where
  [const_defs]: "ConditionReasonDeleting = ''Deleting''"
definition ConditionReasonProcessingError :: string where
  [const_defs]: "ConditionReasonProcessingError = ''FailedProcessing''"
definition ConditionReasonForbidden :: string where
  [const_defs]: "ConditionReasonForbidden = ''Forbidden''"
definition ConditionReasonStatefulSetAvailable :: string where
  [const_defs]: "ConditionReasonStatefulSetAvailable = ''Available''"
definition ConditionReasonStatefulSetPending :: string where
  [const_defs]: "ConditionReasonStatefulSetPending = ''Pending''"
definition ConditionReasonSyncFailError :: string where
  [const_defs]: "ConditionReasonSyncFailError = ''FailedToSyncResources''"
definition ConditionReasonManifestError :: string where
  [const_defs]: "ConditionReasonManifestError = ''InvalidManifests''"
definition ConditionReasonDeletionError :: string where
  [const_defs]: "ConditionReasonDeletionError = ''DeletionError''"
definition ConditionReasonNotConfigured :: string where
  [const_defs]: "ConditionReasonNotConfigured = ''NotConfigured''"
definition ConditionReasonUnknown :: string where
  [const_defs]: "ConditionReasonUnknown = ''Unknown''"

text \<open>The values of \<^verbatim>\<open>kmetav1.ConditionStatus\<close> the source uses.\<close>

definition ConditionTrue :: string where [const_defs]: "ConditionTrue = ''True''"
definition ConditionFalse :: string where [const_defs]: "ConditionFalse = ''False''"

section \<open>Types\<close>

type_synonym str_map = "(string \<times> string) list"

text \<open>
  An instant of \<^verbatim>\<open>kmetav1.Time\<close>, as the clock hands it out; only third-party code looks inside.
\<close>

type_synonym mtime = nat

text \<open>
  A \<^verbatim>\<open>resource.Quantity\<close> is opaque to the source, which only compares, tests and prints it through
  its methods. The model records how the value was made: the zero value, or by parsing a text.
\<close>

datatype quantity = QuantityZero | QuantityOf string

record Condition =
  cType :: string
  cStatus :: string
  cObservedGeneration :: int
  cLastTransitionTime :: mtime
  cReason :: string
  cMessage :: string

record NATSStatus =
  stState :: string
  stURL :: string
  stAvailabilityZonesUsed :: int
  stConditions :: "Condition list"

record Cluster =
  clusterSize :: int

record MemStorage =
  memEnabled :: bool
  memSize :: quantity

record FileStorage =
  fsStorageClassName :: string
  fsSize :: quantity

record JetStream =
  jsMemStorage :: MemStorage
  jsFileStorage :: FileStorage

record Logging =
  logDebug :: bool
  logTrace :: bool

text \<open>\<^verbatim>\<open>kcorev1.ResourceRequirements\<close>, of which the source reads the two resource lists.\<close>

type_synonym resource_list = "(string \<times> quantity) list"

record ResourceRequirements =
  resLimits :: resource_list
  resRequests :: resource_list

record NATSSpec =
  spCluster :: Cluster
  spJetStream :: JetStream
  spLogging :: Logging
  spResources :: ResourceRequirements
  spAnnotations :: str_map
  spLabels :: str_map

record NATS =
  nAPIVersion :: string
  nKind :: string
  nName :: string
  nNamespace :: string
  nUID :: string
  nResourceVersion :: string
  nFinalizers :: "string list"
  nDeletionTimestamp :: "mtime option"
  nSpec :: NATSSpec
  nStatus :: NATSStatus

text \<open>The zero value of a Go struct, which a map lookup returns for a missing key.\<close>

definition zeroCondition :: Condition where
  "zeroCondition = \<lparr>cType = [], cStatus = [], cObservedGeneration = 0, cLastTransitionTime = 0,
     cReason = [], cMessage = []\<rparr>"

definition zeroStatus :: NATSStatus where
  "zeroStatus = \<lparr>stState = [], stURL = [], stAvailabilityZonesUsed = 0, stConditions = []\<rparr>"

section \<open>Admission rules on the cluster size\<close>

text \<open>
  The markers on \<^verbatim>\<open>Cluster.Size\<close>: \<^verbatim>\<open>Minimum:=1\<close>, "size only accepts odd numbers" on every write, and
  "cannot be set to 1 if size was greater than 1" on an update. CEL's \<^verbatim>\<open>%\<close> truncates; under the
  minimum it agrees with \<open>mod\<close>.
\<close>

definition size_valid :: "Cluster \<Rightarrow> bool" where
  "size_valid c \<longleftrightarrow> 1 \<le> clusterSize c \<and> clusterSize c mod 2 \<noteq> 0"

definition size_update_valid :: "Cluster \<Rightarrow> Cluster \<Rightarrow> bool" where
  "size_update_valid old new \<longleftrightarrow>
     size_valid new \<and> \<not> (clusterSize old > 1 \<and> clusterSize new = 1)"

text \<open>The sizes a resource goes through: created, then updated by admitted writes.\<close>

inductive size_history :: "Cluster \<Rightarrow> Cluster \<Rightarrow> bool" for c0 :: Cluster where
  created: "size_valid c0 \<Longrightarrow> size_history c0 c0"
| updated: "size_history c0 c \<Longrightarrow> size_update_valid c c' \<Longrightarrow> size_history c0 c'"

lemma size_history_valid: "size_history c0 c \<Longrightarrow> size_valid c"
  by (induction rule: size_history.induct) (auto simp: size_update_valid_def)

lemma size_history_ge_3: "size_history c0 c \<Longrightarrow> 1 < clusterSize c0 \<Longrightarrow> 3 \<le> clusterSize c"
proof (induction rule: size_history.induct)
  case created
  then show ?case by (auto simp: size_valid_def) presburger
next
  case (updated c c')
  then have "clusterSize c' \<noteq> 1" "1 \<le> clusterSize c'" "clusterSize c' mod 2 \<noteq> 0"
    by (auto simp: size_update_valid_def size_valid_def)
  then show ?case by presburger
qed

section \<open>Comparing conditions and statuses\<close>

definition ConditionEquals :: "Condition \<Rightarrow> Condition \<Rightarrow> bool" where
  "ConditionEquals existing expected =
     (let isTypeEqual = cType existing = cType expected;
          isStatusEqual = cStatus existing = cStatus expected;
          isReasonEqual = cReason existing = cReason expected;
          isMessageEqual = cMessage existing = cMessage expected
      in if \<not> isStatusEqual \<or> \<not> isReasonEqual \<or> \<not> isMessageEqual \<or> \<not> isTypeEqual then False
         else True)"

text \<open>
  \<^verbatim>\<open>ConditionsEquals\<close>: the existing conditions go into a map by type (a later one of the same type
  wins), then every expected condition is compared with the entry of its type, the zero condition
  when there is none.
\<close>

fun existing_map :: "(string \<rightharpoonup> Condition) \<Rightarrow> Condition list \<Rightarrow> (string \<rightharpoonup> Condition)" where
  "existing_map m [] = m"
| "existing_map m (c # cs) = existing_map (m(cType c \<mapsto> c)) cs"

definition map_get :: "(string \<rightharpoonup> Condition) \<Rightarrow> string \<Rightarrow> Condition" where
  "map_get m k = (case m k of None \<Rightarrow> zeroCondition | Some c \<Rightarrow> c)"

fun all_expected :: "(string \<rightharpoonup> Condition) \<Rightarrow> Condition list \<Rightarrow> bool" where
  "all_expected m [] = True"
| "all_expected m (value # vs) =
     (if \<not> ConditionEquals (map_get m (cType value)) value then False else all_expected m vs)"

definition ConditionsEquals :: "Condition list \<Rightarrow> Condition list \<Rightarrow> bool" where
  "ConditionsEquals existing expected =
     (if length existing \<noteq> length expected then False
      else all_expected (existing_map Map.empty existing) expected)"

text \<open>
  \<^verbatim>\<open>IsEqual\<close>: the two statuses with their conditions emptied are compared by \<^verbatim>\<open>reflect.DeepEqual\<close>
  (equality of the remaining fields), the conditions by \<^verbatim>\<open>ConditionsEquals\<close>.
\<close>

definition IsEqual :: "NATSStatus \<Rightarrow> NATSStatus \<Rightarrow> bool" where
  "IsEqual ns status =
     (let thisWithoutCond = ns\<lparr>stConditions := []\<rparr>;
          statusWithoutCond = status\<lparr>stConditions := []\<rparr>
      in thisWithoutCond = statusWithoutCond \<and>
         ConditionsEquals (stConditions ns) (stConditions status))"

fun find_condition :: "string \<Rightarrow> Condition list \<Rightarrow> Condition option" where
  "find_condition t [] = None"
| "find_condition t (c # cs) = (if t = cType c then Some c else find_condition t cs)"

definition FindCondition :: "NATSStatus \<Rightarrow> string \<Rightarrow> Condition option" where
  "FindCondition ns conditionType = find_condition conditionType (stConditions ns)"

text \<open>
  What \<^verbatim>\<open>ConditionEquals\<close> compares: everything except the transition time and the observed
  generation.
\<close>

type_synonym cond_body = "string \<times> string \<times> string"

definition cond_body :: "Condition \<Rightarrow> cond_body" where
  "cond_body c = (cStatus c, cReason c, cMessage c)"

definition cond_core :: "Condition \<Rightarrow> string \<times> cond_body" where
  "cond_core c = (cType c, cond_body c)"

lemma ConditionEquals_core: "ConditionEquals c d \<longleftrightarrow> cond_core c = cond_core d"
  by (auto simp: ConditionEquals_def cond_core_def cond_body_def Let_def)

lemma existing_map_append:
  "existing_map m cs k = (case find_condition k (rev cs) of None \<Rightarrow> m k | Some c \<Rightarrow> Some c)"
proof (induction cs arbitrary: m)
  case Nil
  then show ?case by simp
next
  case (Cons c cs)
  have "find_condition k (xs @ [c]) =
      (case find_condition k xs of None \<Rightarrow> if k = cType c then Some c else None | Some d \<Rightarrow> Some d)"
    for xs by (induction xs) auto
  with Cons show ?case by (auto split: option.splits)
qed

lemma find_condition_Some: "find_condition t cs = Some c \<Longrightarrow> c \<in> set cs \<and> cType c = t"
  by (induction cs) (auto split: if_splits)

lemma find_condition_None: "find_condition t cs = None \<longleftrightarrow> t \<notin> cType ` set cs"
  by (induction cs) auto

lemma find_condition_distinct:
  "distinct (map cType cs) \<Longrightarrow> c \<in> set cs \<Longrightarrow> find_condition (cType c) cs = Some c"
proof (induction cs)
  case (Cons a cs)
  then show ?case by (cases "c = a") (auto simp: image_iff)
qed simp

lemma map_cType_core: "map cType xs = map fst (map cond_core xs)"
  by (simp add: cond_core_def comp_def)

lemma perm_types:
  assumes "mset (map cond_core cs) = mset (map cond_core ds)"
  shows "distinct (map cType cs) = distinct (map cType ds)" "set (map cType cs) = set (map cType ds)"
proof -
  have "mset (map cType cs) = mset (map cType ds)"
    unfolding map_cType_core mset_map [of fst] assms by simp
  then show "distinct (map cType cs) = distinct (map cType ds)"
    "set (map cType cs) = set (map cType ds)"
    by (blast dest: mset_eq_imp_distinct_iff mset_eq_setD)+
qed

lemma perm_member:
  assumes "mset (map cond_core cs) = mset (map cond_core ds)" "c \<in> set cs"
  obtains d where "d \<in> set ds" "cond_core d = cond_core c"
proof -
  have "set (map cond_core cs) = set (map cond_core ds)"
    using assms(1) by (rule mset_eq_setD)
  with assms(2) have "cond_core c \<in> cond_core ` set ds" by auto
  then show thesis using that by auto
qed

lemma find_condition_perm:
  assumes "distinct (map cType cs)" "mset (map cond_core cs) = mset (map cond_core ds)"
  shows "map_option cond_core (find_condition t cs) = map_option cond_core (find_condition t ds)"
proof (cases "find_condition t cs")
  case None
  then have "find_condition t ds = None"
    using perm_types(2) [OF assms(2)] by (simp add: find_condition_None)
  with None show ?thesis by simp
next
  case (Some c)
  then have c: "c \<in> set cs" "cType c = t" by (auto dest: find_condition_Some)
  obtain d where d: "d \<in> set ds" "cond_core d = cond_core c"
    using perm_member [OF assms(2) c(1)] .
  have "distinct (map cType ds)" using perm_types(1) [OF assms(2)] assms(1) by simp
  moreover have "cType d = t" using d(2) c(2) by (simp add: cond_core_def)
  ultimately have "find_condition t ds = Some d"
    using find_condition_distinct d(1) by blast
  with Some d(2) show ?thesis by simp
qed

lemma all_expected_iff:
  "all_expected m vs \<longleftrightarrow> (\<forall>v \<in> set vs. cond_core (map_get m (cType v)) = cond_core v)"
  by (induction vs) (auto simp: ConditionEquals_core)

lemma map_get_existing:
  "map_get (existing_map Map.empty cs) k =
   (case find_condition k (rev cs) of None \<Rightarrow> zeroCondition | Some c \<Rightarrow> c)"
  by (auto simp: map_get_def existing_map_append split: option.splits)

text \<open>
  \<^verbatim>\<open>ConditionsEquals\<close> against the specification it stands for: when the expected conditions have
  distinct, non-empty types, it says that the two lists are the same up to order, transition time
  and observed generation.
\<close>

lemma ConditionsEquals_sound:
  assumes eq: "ConditionsEquals existing expected"
    and d: "distinct (map cType expected)" and ne: "[] \<notin> set (map cType expected)"
  shows "mset (map cond_core existing) = mset (map cond_core expected)"
proof -
  have len: "length existing = length expected"
    using eq by (auto simp: ConditionsEquals_def split: if_splits)
  have all: "all_expected (existing_map Map.empty existing) expected"
    using eq by (auto simp: ConditionsEquals_def split: if_splits)
  have sub: "set (map cond_core expected) \<subseteq> set (map cond_core existing)"
  proof
    fix x assume "x \<in> set (map cond_core expected)"
    then obtain v where v: "v \<in> set expected" "x = cond_core v" by auto
    with all have g: "cond_core (map_get (existing_map Map.empty existing) (cType v)) = x"
      by (simp add: all_expected_iff)
    show "x \<in> set (map cond_core existing)"
    proof (cases "find_condition (cType v) (rev existing)")
      case None
      with g v have "cType v = []"
        by (simp add: map_get_existing cond_core_def zeroCondition_def)
      with ne v show ?thesis by force
    next
      case (Some c)
      with g have "x = cond_core c" by (simp add: map_get_existing)
      moreover have "c \<in> set existing" using Some by (auto dest: find_condition_Some)
      ultimately show ?thesis by auto
    qed
  qed
  have de: "distinct (map cond_core expected)"
    using d by (auto simp: distinct_map cond_core_def intro!: inj_onI dest: inj_onD)
  have "mset (map cond_core expected) = mset_set (set (map cond_core expected))"
    using de by (simp only: mset_set_set)
  also have "\<dots> \<subseteq># mset_set (set (map cond_core existing))"
    using sub by (simp only: msubset_mset_set_iff List.finite_set)
  also have "\<dots> \<subseteq># mset (map cond_core existing)"
    by (metis mset_set_set_mset_msubset set_mset_mset)
  finally show ?thesis
    using len by (metis length_map mset_subset_size nless_le size_mset subset_mset.le_imp_less_or_eq)
qed

lemma ConditionsEquals_complete:
  assumes m: "mset (map cond_core existing) = mset (map cond_core expected)"
    and d: "distinct (map cType expected)"
  shows "ConditionsEquals existing expected"
proof -
  have len: "length existing = length expected"
    using m by (metis length_map size_mset)
  have "all_expected (existing_map Map.empty existing) expected"
    unfolding all_expected_iff
  proof
    fix v assume v: "v \<in> set expected"
    have "map_option cond_core (find_condition (cType v) expected) =
        map_option cond_core (find_condition (cType v) (rev existing))"
        by (rule find_condition_perm) (use m d in \<open>simp_all add: rev_map [symmetric]\<close>)
    with find_condition_distinct [OF d v]
    show "cond_core (map_get (existing_map Map.empty existing) (cType v)) = cond_core v"
      by (auto simp: map_get_existing split: option.splits)
  qed
  with len show ?thesis by (simp add: ConditionsEquals_def)
qed

end
