(* ===== verification/World.thy ===== *)
theory World
  imports ApiTypes
begin

text \<open>
  The code the repository calls and does not contain: the Kubernetes API behind controller-runtime's
  client, apimachinery's pure helpers, nats.go, Helm with mergo and the YAML decoder, Prometheus and
  the event recorder. Each is a field of a record of functions, a parameter of the model: an
  operation with an effect takes the state \<open>'w\<close> of the outside world and returns the new one, and
  nothing is assumed about it, so a run may meet any answers in any order. Every such call is
  recorded with its result in a trace, a ghost list that no operation reads; safety properties are stated on it.
\<close>

section \<open>Objects of the API server\<close>

text \<open>
  A value of Go type \<^verbatim>\<open>any\<close> inside a manifest or a chart configuration. Slices of maps, string maps
  and the named string type \<^verbatim>\<open>types.UID\<close> are types of their own, as a type assertion tells them apart.
\<close>

datatype val =
    VNil
  | VBool bool
  | VInt int
  | VStr string
  | VUID string
  | VList "val list"
  | VMap "(string \<times> val) list"
  | VMapSlice "(string \<times> val) list list"
  | VStrMap "(string \<times> string) list"

type_synonym obj = "(string \<times> val) list"

text \<open>Opaque values of third-party types, identified by how the source obtained them.\<close>

datatype selector = ParsedSelector string | SetSelector str_map

record Pod =
  podName :: string
  podNodeName :: string

record PVC =
  pvcName :: string
  pvcNamespace :: string

record Node =
  nodeName :: string
  nodeLabels :: str_map

record Secret =
  secretName :: string

record ConfigMap =
  cmData :: str_map

record CRD =
  crdName :: string

text \<open>\<^verbatim>\<open>Spec.Replicas\<close> is a pointer; the counters are 32-bit in Go and only compared.\<close>

record StatefulSet =
  stsReplicas :: "int option"
  stsCurrentReplicas :: int
  stsUpdatedReplicas :: int
  stsReadyReplicas :: int

section \<open>Third-party libraries as parameters\<close>

record 'w k8s_api =
  api_now :: "'w \<Rightarrow> mtime \<times> 'w"
  api_get_nats :: "string \<Rightarrow> string \<Rightarrow> 'w \<Rightarrow> (go_error + NATS) \<times> 'w"
  api_update_nats :: "NATS \<Rightarrow> 'w \<Rightarrow> go_error option \<times> 'w"
  api_update_status :: "NATS \<Rightarrow> 'w \<Rightarrow> go_error option \<times> 'w"
  api_get_sts :: "string \<Rightarrow> string \<Rightarrow> 'w \<Rightarrow> (go_error + StatefulSet) \<times> 'w"
  api_get_secret :: "string \<Rightarrow> string \<Rightarrow> 'w \<Rightarrow> (go_error + Secret) \<times> 'w"
  api_get_configmap :: "string \<Rightarrow> string \<Rightarrow> 'w \<Rightarrow> (go_error + ConfigMap) \<times> 'w"
  api_get_node :: "string \<Rightarrow> 'w \<Rightarrow> (go_error + Node) \<times> 'w"
  api_get_crd :: "string \<Rightarrow> 'w \<Rightarrow> (go_error + CRD) \<times> 'w"
  api_patch_apply :: "obj \<Rightarrow> bool \<Rightarrow> string \<Rightarrow> 'w \<Rightarrow> go_error option \<times> 'w"
  api_delete_object :: "obj \<Rightarrow> 'w \<Rightarrow> go_error option \<times> 'w"
  api_delete_pvc :: "PVC \<Rightarrow> 'w \<Rightarrow> go_error option \<times> 'w"
  api_list_pvcs :: "string \<Rightarrow> selector \<Rightarrow> 'w \<Rightarrow> (go_error + PVC list) \<times> 'w"
  api_list_pods :: "string \<Rightarrow> selector \<Rightarrow> 'w \<Rightarrow> (go_error + Pod list) \<times> 'w"
  api_watch :: "string \<Rightarrow> string \<Rightarrow> selector \<Rightarrow> 'w \<Rightarrow> go_error option \<times> 'w"
  api_event :: "string \<Rightarrow> string \<Rightarrow> string \<Rightarrow> string list \<Rightarrow> 'w \<Rightarrow> 'w"

text \<open>Pure helpers of apimachinery and controller-runtime.\<close>

record meta_lib =
  is_not_found :: "go_error \<Rightarrow> bool"
  ignore_not_found :: "go_error \<Rightarrow> go_error option"
  time_is_zero :: "mtime option \<Rightarrow> bool"
  set_status_condition :: "Condition list \<Rightarrow> Condition \<Rightarrow> Condition list"
  contains_finalizer_in :: "string list \<Rightarrow> string \<Rightarrow> bool"
  add_finalizer_to :: "string list \<Rightarrow> string \<Rightarrow> string list"
  remove_finalizer_from :: "string list \<Rightarrow> string \<Rightarrow> string list"
  labels_parse :: "string \<Rightarrow> go_error option"
  label_selector_as_selector :: "str_map \<Rightarrow> go_error option"
  selector_matches :: "selector \<Rightarrow> str_map \<Rightarrow> bool"
  obj_kind :: "obj \<Rightarrow> string"
  obj_name :: "obj \<Rightarrow> string"
  obj_namespace :: "obj \<Rightarrow> string"
  qty_is_zero :: "quantity \<Rightarrow> bool"
  qty_cmp :: "quantity \<Rightarrow> quantity \<Rightarrow> int"
  qty_string :: "quantity \<Rightarrow> string"
  rl_cpu :: "resource_list \<Rightarrow> quantity option"
  rl_memory :: "resource_list \<Rightarrow> quantity option"

text \<open>nats.go: connections and JetStream contexts are handles.\<close>

type_synonym conn = nat
type_synonym js_ctx = nat

datatype conn_state = CONNECTED | OtherConnState nat

record 'w natsio_lib =
  nio_connect :: "string \<Rightarrow> int \<Rightarrow> string \<Rightarrow> 'w \<Rightarrow> (go_error + conn) \<times> 'w"
  nio_is_connected :: "conn \<Rightarrow> 'w \<Rightarrow> bool \<times> 'w"
  nio_status :: "conn \<Rightarrow> 'w \<Rightarrow> conn_state \<times> 'w"
  nio_jetstream :: "conn \<Rightarrow> 'w \<Rightarrow> (go_error + js_ctx) \<times> 'w"
  nio_streams :: "js_ctx \<Rightarrow> 'w \<Rightarrow> string list \<times> 'w"
  nio_consumers :: "js_ctx \<Rightarrow> string \<Rightarrow> 'w \<Rightarrow> string list \<times> 'w"
  nio_close :: "conn \<Rightarrow> 'w \<Rightarrow> 'w"

text \<open>The fields of Helm's install action that \<^verbatim>\<open>newTemplatingAction\<close> sets.\<close>

record install_action =
  iaReleaseName :: string
  iaNamespace :: string
  iaAtomic :: bool
  iaWait :: bool
  iaCreateNamespace :: bool
  iaDryRun :: bool
  iaReplace :: bool
  iaIncludeCRDs :: bool
  iaClientOnly :: bool

text \<open>
  Helm, mergo, the YAML reader and decoder, and \<^verbatim>\<open>pkg/errors\<close>. Rendering takes the chart's values and
  the configuration and returns the manifest of the release (no release: \<open>None\<close>), an error, and the
  chart's values afterwards. A YAML reader yields the documents it can read and then an error.
\<close>

record 'w helm_lib =
  hl_load :: "string \<Rightarrow> 'w \<Rightarrow> (go_error + obj) \<times> 'w"
  hl_init :: "string \<Rightarrow> 'w \<Rightarrow> go_error option \<times> 'w"
  hl_run :: "install_action \<Rightarrow> obj \<Rightarrow> obj \<Rightarrow> 'w \<Rightarrow> ((go_error option \<times> string option) \<times> obj) \<times> 'w"
  hl_merge :: "obj \<Rightarrow> obj \<Rightarrow> go_error option \<times> obj"
  hl_wrap :: "go_error option \<Rightarrow> string \<Rightarrow> go_error option"
  hl_yaml_docs :: "string \<Rightarrow> string list \<times> go_error"
  hl_yaml_unmarshal :: "string \<Rightarrow> go_error option \<times> obj"

text \<open>Prometheus gauge vectors without labels, one per metric of the source.\<close>

datatype gauge = GaugeAvailabilityZonesUsed | GaugeClusterSize

record 'w prom_lib =
  pm_register :: "gauge \<Rightarrow> 'w \<Rightarrow> 'w"
  pm_set :: "gauge \<Rightarrow> int \<Rightarrow> 'w \<Rightarrow> 'w"
  pm_reset :: "gauge \<Rightarrow> 'w \<Rightarrow> 'w"
  pm_get :: "gauge \<Rightarrow> 'w \<Rightarrow> (go_error + int) \<times> 'w"

record 'w libs =
  kapi :: "'w k8s_api"
  meta :: meta_lib
  nio :: "'w natsio_lib"
  helm :: "'w helm_lib"
  prom :: "'w prom_lib"

section \<open>The host: world and trace\<close>

datatype action =
    ANow mtime
  | AGetNATS string string "go_error + NATS"
  | AUpdateNATS NATS "go_error option"
  | AUpdateStatus NATS "go_error option"
  | AGetStatefulSet string string "go_error + StatefulSet"
  | AGetSecret string string "go_error + Secret"
  | AGetConfigMap string string "go_error + ConfigMap"
  | AGetNode string "go_error + Node"
  | AGetCRD string "go_error + CRD"
  | APatchApply obj bool string "go_error option"
  | ADeleteObject obj "go_error option"
  | ADeletePVC PVC "go_error option"
  | AListPVCs string selector "go_error + PVC list"
  | AListPods string selector "go_error + Pod list"
  | AWatch string string selector "go_error option"
  | AEvent string string string "string list"
  | AConnect string int string "go_error + conn"
  | AIsConnected conn bool
  | AConnStatus conn conn_state
  | AJetStream conn "go_error + js_ctx"
  | AStreams js_ctx "string list"
  | AConsumers js_ctx string "string list"
  | AConnClose conn
  | AHelmLoad string "go_error + obj"
  | AHelmInit string "go_error option"
  | AHelmRun install_action obj "go_error option" "string option"
  | AGaugeRegister gauge
  | AGaugeSet gauge int
  | AGaugeReset gauge
  | AGaugeGet gauge "go_error + int"

record 'w host =
  world :: 'w
  trace :: "action list"

definition ext_call :: "('w \<Rightarrow> 'a \<times> 'w) \<Rightarrow> ('a \<Rightarrow> action) \<Rightarrow> (('w, 'z) host_scheme, 'a) state" where
  "ext_call f act = State (\<lambda>s. case f (world s) of (r, w') \<Rightarrow>
     (r, s\<lparr>world := w', trace := trace s @ [act r]\<rparr>))"

text \<open>The same for a call without a result.\<close>

definition ext_do :: "('w \<Rightarrow> 'w) \<Rightarrow> action \<Rightarrow> (('w, 'z) host_scheme, unit) state" where
  "ext_do f act = ext_call (\<lambda>w. ((), f w)) (\<lambda>_. act)"

definition nowM :: "'w libs \<Rightarrow> (('w, 'z) host_scheme, mtime) state" where
  "nowM L = ext_call (api_now (kapi L)) ANow"

definition clientGetNATS :: "'w libs \<Rightarrow> string \<Rightarrow> string \<Rightarrow> (('w, 'z) host_scheme, go_error + NATS) state" where
  "clientGetNATS L name ns = ext_call (api_get_nats (kapi L) name ns) (AGetNATS name ns)"

definition clientUpdateNATS :: "'w libs \<Rightarrow> NATS \<Rightarrow> (('w, 'z) host_scheme, go_error option) state" where
  "clientUpdateNATS L n = ext_call (api_update_nats (kapi L) n) (AUpdateNATS n)"

definition clientUpdateStatus :: "'w libs \<Rightarrow> NATS \<Rightarrow> (('w, 'z) host_scheme, go_error option) state" where
  "clientUpdateStatus L n = ext_call (api_update_status (kapi L) n) (AUpdateStatus n)"

definition clientGetStatefulSet ::
  "'w libs \<Rightarrow> string \<Rightarrow> string \<Rightarrow> (('w, 'z) host_scheme, go_error + StatefulSet) state" where
  "clientGetStatefulSet L name ns =
     ext_call (api_get_sts (kapi L) name ns) (AGetStatefulSet name ns)"

definition clientGetSecret ::
  "'w libs \<Rightarrow> string \<Rightarrow> string \<Rightarrow> (('w, 'z) host_scheme, go_error + Secret) state" where
  "clientGetSecret L name ns =
     ext_call (api_get_secret (kapi L) name ns) (AGetSecret name ns)"

definition clientGetConfigMap ::
  "'w libs \<Rightarrow> string \<Rightarrow> string \<Rightarrow> (('w, 'z) host_scheme, go_error + ConfigMap) state" where
  "clientGetConfigMap L name ns =
     ext_call (api_get_configmap (kapi L) name ns) (AGetConfigMap name ns)"

definition clientGetNode :: "'w libs \<Rightarrow> string \<Rightarrow> (('w, 'z) host_scheme, go_error + Node) state" where
  "clientGetNode L name = ext_call (api_get_node (kapi L) name) (AGetNode name)"

definition clientsetGetCRD :: "'w libs \<Rightarrow> string \<Rightarrow> (('w, 'z) host_scheme, go_error + CRD) state" where
  "clientsetGetCRD L name = ext_call (api_get_crd (kapi L) name) (AGetCRD name)"

definition clientPatchApply ::
  "'w libs \<Rightarrow> obj \<Rightarrow> bool \<Rightarrow> string \<Rightarrow> (('w, 'z) host_scheme, go_error option) state" where
  "clientPatchApply L obj force manager =
     ext_call (api_patch_apply (kapi L) obj force manager) (APatchApply obj force manager)"

definition clientDelete :: "'w libs \<Rightarrow> obj \<Rightarrow> (('w, 'z) host_scheme, go_error option) state" where
  "clientDelete L obj = ext_call (api_delete_object (kapi L) obj) (ADeleteObject obj)"

definition clientDeletePVC :: "'w libs \<Rightarrow> PVC \<Rightarrow> (('w, 'z) host_scheme, go_error option) state" where
  "clientDeletePVC L pvc = ext_call (api_delete_pvc (kapi L) pvc) (ADeletePVC pvc)"

definition clientListPVCs ::
  "'w libs \<Rightarrow> string \<Rightarrow> selector \<Rightarrow> (('w, 'z) host_scheme, go_error + PVC list) state" where
  "clientListPVCs L ns sel = ext_call (api_list_pvcs (kapi L) ns sel) (AListPVCs ns sel)"

definition clientListPods ::
  "'w libs \<Rightarrow> string \<Rightarrow> selector \<Rightarrow> (('w, 'z) host_scheme, go_error + Pod list) state" where
  "clientListPods L ns sel = ext_call (api_list_pods (kapi L) ns sel) (AListPods ns sel)"

definition controllerWatch ::
  "'w libs \<Rightarrow> string \<Rightarrow> string \<Rightarrow> selector \<Rightarrow> (('w, 'z) host_scheme, go_error option) state" where
  "controllerWatch L kind version sel =
     ext_call (api_watch (kapi L) kind version sel) (AWatch kind version sel)"

definition recorderEventf ::
  "'w libs \<Rightarrow> string \<Rightarrow> string \<Rightarrow> string \<Rightarrow> string list \<Rightarrow> (('w, 'z) host_scheme, unit) state" where
  "recorderEventf L ty reason fmt args =
     ext_do (api_event (kapi L) ty reason fmt args) (AEvent ty reason fmt args)"

definition natsConnect ::
  "'w libs \<Rightarrow> string \<Rightarrow> int \<Rightarrow> string \<Rightarrow> (('w, 'z) host_scheme, go_error + conn) state" where
  "natsConnect L url timeout name =
     ext_call (nio_connect (nio L) url timeout name) (AConnect url timeout name)"

definition connIsConnected :: "'w libs \<Rightarrow> conn \<Rightarrow> (('w, 'z) host_scheme, bool) state" where
  "connIsConnected L c = ext_call (nio_is_connected (nio L) c) (AIsConnected c)"

definition connStatus :: "'w libs \<Rightarrow> conn \<Rightarrow> (('w, 'z) host_scheme, conn_state) state" where
  "connStatus L c = ext_call (nio_status (nio L) c) (AConnStatus c)"

definition connJetStream :: "'w libs \<Rightarrow> conn \<Rightarrow> (('w, 'z) host_scheme, go_error + js_ctx) state" where
  "connJetStream L c = ext_call (nio_jetstream (nio L) c) (AJetStream c)"

definition jsStreams :: "'w libs \<Rightarrow> js_ctx \<Rightarrow> (('w, 'z) host_scheme, string list) state" where
  "jsStreams L j = ext_call (nio_streams (nio L) j) (AStreams j)"

definition jsConsumers :: "'w libs \<Rightarrow> js_ctx \<Rightarrow> string \<Rightarrow> (('w, 'z) host_scheme, string list) state" where
  "jsConsumers L j stream = ext_call (nio_consumers (nio L) j stream) (AConsumers j stream)"

definition connClose :: "'w libs \<Rightarrow> conn \<Rightarrow> (('w, 'z) host_scheme, unit) state" where
  "connClose L c = ext_do (nio_close (nio L) c) (AConnClose c)"

text \<open>The wrappers above are transparent to proofs.\<close>

lemmas call_defs = ext_do_def nowM_def clientGetNATS_def clientUpdateNATS_def clientUpdateStatus_def
  clientGetStatefulSet_def clientGetSecret_def clientGetConfigMap_def clientGetNode_def
  clientsetGetCRD_def clientPatchApply_def clientDelete_def clientDeletePVC_def clientListPVCs_def
  clientListPods_def controllerWatch_def recorderEventf_def natsConnect_def connIsConnected_def
  connStatus_def connJetStream_def jsStreams_def jsConsumers_def connClose_def

lemma run_ext_call [simp]:
  "run_state (ext_call f act) s = (case f (world s) of (r, w') \<Rightarrow>
     (r, s\<lparr>world := w', trace := trace s @ [act r]\<rparr>))"
  by (simp add: ext_call_def)

lemma wp_ext_call [wp_simps]:
  "wp (ext_call f act) Q s = (case f (world s) of (r, w') \<Rightarrow>
     Q r (s\<lparr>world := w', trace := trace s @ [act r]\<rparr>))"
  by (simp add: wp_def split: prod.splits)

section \<open>Frames on the trace\<close>

text \<open>Every call appends to the trace, and only actions that satisfy \<open>P\<close>.\<close>

definition emits :: "(action \<Rightarrow> bool) \<Rightarrow> ('w, 'z) host_scheme \<Rightarrow> ('w, 'z) host_scheme \<Rightarrow> bool" where
  "emits P s s' \<longleftrightarrow> (\<exists>as. trace s' = trace s @ as \<and> list_all P as)"

lemma emits_refl: "emits P s s"
  by (simp add: emits_def)

lemma emits_trans: "emits P s t \<Longrightarrow> emits P t u \<Longrightarrow> emits P s u"
  by (fastforce simp: emits_def)

interpretation emit_frame: frame_rel "emits P :: ('w, 'z) host_scheme \<Rightarrow> _" for P
  by unfold_locales (fact emits_refl, fact emits_trans)

lemma emits_call: "(\<And>r. P (act r)) \<Longrightarrow> state_io_rel (emits P) (ext_call f act)"
  by (simp add: state_io_rel_def emits_def split: prod.splits)

lemma emits_do: "P act \<Longrightarrow> state_io_rel (emits P) (ext_do f act)"
  by (simp add: ext_do_def emits_call)

lemma emits_mono: "emits P s s' \<Longrightarrow> (\<And>a. P a \<Longrightarrow> Q a) \<Longrightarrow> emits Q s s'"
  by (auto simp: emits_def elim!: list.pred_mono_strong)

lemma emits_weaken:
  "state_io_rel (emits P) m \<Longrightarrow> (\<And>a. P a \<Longrightarrow> Q a) \<Longrightarrow> state_io_rel (emits Q) m"
  unfolding state_io_rel_def by (blast intro: emits_mono)

lemma emits_modify: "(\<And>s. trace (g s) = trace s) \<Longrightarrow> state_io_rel (emits P) (modify g)"
  by (rule emit_frame.f_modify) (simp add: emits_def)

text \<open>A component of the state outside the host is untouched by an external call.\<close>

lemma keeps_call:
  "(\<And>s w t. f (s\<lparr>world := w, trace := t\<rparr>) = f s) \<Longrightarrow> state_io_rel (keeps f) (ext_call g act)"
  by (simp add: state_io_rel_def keeps_def split: prod.splits)

lemma keeps_do:
  "(\<And>s w t. f (s\<lparr>world := w, trace := t\<rparr>) = f s) \<Longrightarrow> state_io_rel (keeps f) (ext_do g act)"
  by (simp add: ext_do_def keeps_call)

lemma keeps_more [simp]: "state_io_rel (keeps host.more) (ext_call g act)"
  by (rule keeps_call) simp

text \<open>The actions of one run.\<close>

definition new_actions :: "(('w, 'z) host_scheme, 'a) state \<Rightarrow> ('w, 'z) host_scheme \<Rightarrow> action list" where
  "new_actions m s = drop (length (trace s)) (trace (snd (run_state m s)))"

lemma emits_new_actions: "state_io_rel (emits P) m \<Longrightarrow> list_all P (new_actions m s)"
  by (auto simp: new_actions_def state_io_rel_def emits_def) (metis append_eq_conv_conj)

end
