(* ===== verification/Config.thy ===== *)
theory Config
  imports World
begin

text \<open>
  The small packages: \<^verbatim>\<open>pkg/env\<close>, \<^verbatim>\<open>pkg/labels\<close>, \<^verbatim>\<open>pkg/events\<close>, \<^verbatim>\<open>pkg/file\<close>, \<^verbatim>\<open>pkg/k8s/types.go\<close>, the URL of the
  NATS server (\<^verbatim>\<open>internal/controller/nats/url\<close>) and the selectors of the controller's cache
  (\<^verbatim>\<open>internal/controller/cache\<close>).
\<close>

section \<open>Environment configuration\<close>

record Config =
  LogLevel :: string
  NATSChartDir :: string
  NATSCRName :: string
  NATSCRNamespace :: string
  FIPSModeEnabled :: bool
  NATSImage :: string
  NATSImageFIPS :: string
  NATSSrvCfgReloaderImage :: string
  NATSSrvCfgReloaderImageFIPS :: string
  PrometheusExporterImage :: string
  PrometheusExporterImageFIPS :: string

record ContainerImages =
  imgNATS :: string
  imgPrometheusExporter :: string
  imgNATSConfigReloader :: string

definition zeroConfig :: Config where
  "zeroConfig = \<lparr>LogLevel = [], NATSChartDir = [], NATSCRName = [], NATSCRNamespace = [],
     FIPSModeEnabled = False, NATSImage = [], NATSImageFIPS = [], NATSSrvCfgReloaderImage = [],
     NATSSrvCfgReloaderImageFIPS = [], PrometheusExporterImage = [], PrometheusExporterImageFIPS = []\<rparr>"

text \<open>\<open>process\<close> is \<^verbatim>\<open>envconfig.Process\<close>: it fills the struct it is given and may fail.\<close>

definition GetConfig :: "(Config \<Rightarrow> go_error option \<times> Config) \<Rightarrow> Config \<times> go_error option" where
  "GetConfig process =
     (case process zeroConfig of (err, cfg) \<Rightarrow>
        (case err of Some e \<Rightarrow> (cfg, Some e) | None \<Rightarrow> (cfg, None)))"

definition GetImageConfig :: "Config \<Rightarrow> ContainerImages" where
  "GetImageConfig cfg =
     (if FIPSModeEnabled cfg then
        \<lparr>imgNATS = NATSImageFIPS cfg, imgPrometheusExporter = PrometheusExporterImageFIPS cfg,
         imgNATSConfigReloader = NATSSrvCfgReloaderImageFIPS cfg\<rparr>
      else
        \<lparr>imgNATS = NATSImage cfg, imgPrometheusExporter = PrometheusExporterImage cfg,
         imgNATSConfigReloader = NATSSrvCfgReloaderImage cfg\<rparr>)"

section \<open>Labels, CRD names, events\<close>

definition KeyComponent :: string where [const_defs]: "KeyComponent = ''app.kubernetes.io/component''"
definition KeyCreatedBy :: string where [const_defs]: "KeyCreatedBy = ''app.kubernetes.io/created-by''"
definition KeyInstance :: string where [const_defs]: "KeyInstance = ''app.kubernetes.io/instance''"
definition KeyManagedBy :: string where [const_defs]: "KeyManagedBy = ''app.kubernetes.io/managed-by''"
definition KeyName :: string where [const_defs]: "KeyName = ''app.kubernetes.io/name''"
definition KeyPartOf :: string where [const_defs]: "KeyPartOf = ''app.kubernetes.io/part-of''"
definition KeyDashboard :: string where [const_defs]: "KeyDashboard = ''kyma-project.io/dashboard''"
definition ValueNATS :: string where [const_defs]: "ValueNATS = ''nats''"
definition ValueNATSManager :: string where [const_defs]: "ValueNATSManager = ''nats-manager''"

definition SelectorManagedByNATS :: selector where
  "SelectorManagedByNATS = SetSelector [(KeyManagedBy, ValueNATSManager)]"

definition DestinationRuleCrdName :: string where
  [const_defs]: "DestinationRuleCrdName = ''destinationrules.networking.istio.io''"
definition DestinationRuleKind :: string where [const_defs]: "DestinationRuleKind = ''DestinationRule''"
definition DestinationRuleAPIVersion :: string where
  [const_defs]: "DestinationRuleAPIVersion = ''networking.istio.io/v1alpha3''"

definition EventTypeNormal :: string where [const_defs]: "EventTypeNormal = ''Normal''"
definition EventTypeWarning :: string where [const_defs]: "EventTypeWarning = ''Warning''"

definition eventNormal ::
  "'w libs \<Rightarrow> string \<Rightarrow> string \<Rightarrow> string list \<Rightarrow> (('w, 'z) host_scheme, unit) state" where
  "eventNormal L rn msgFmt args = recorderEventf L EventTypeNormal rn msgFmt args"

definition eventWarn ::
  "'w libs \<Rightarrow> string \<Rightarrow> string \<Rightarrow> string list \<Rightarrow> (('w, 'z) host_scheme, unit) state" where
  "eventWarn L rn msgFmt args = recorderEventf L EventTypeWarning rn msgFmt args"

section \<open>Files\<close>

text \<open>
  \<open>stat\<close> is \<^verbatim>\<open>os.Stat\<close> on the file system: the file information (here: whether it is a directory), nil
  with an error; of the error only \<^verbatim>\<open>os.IsNotExist\<close> matters (\<open>Some True\<close>).
\<close>

definition DirExists :: "(string \<Rightarrow> bool option \<times> bool option) \<Rightarrow> string \<Rightarrow> bool" where
  "DirExists stat path =
     (if path = [] then False
      else (case stat path of (stats, err) \<Rightarrow>
        err \<noteq> Some True \<and> (case stats of None \<Rightarrow> False | Some isDir \<Rightarrow> isDir)))"

section \<open>The URL of the NATS server\<close>

definition url_protocol :: string where "url_protocol = ''nats''"
definition url_port :: int where "url_port = 4222"

text \<open>\<^verbatim>\<open>fmt.Sprintf("%s://%s.%s.svc.cluster.local:%d", protocol, name, namespace, port)\<close>\<close>

definition Format :: "string \<Rightarrow> string \<Rightarrow> string" where
  "Format name namespace =
     url_protocol @ ''://'' @ name @ ''.'' @ namespace @ ''.svc.cluster.local:'' @ show_int url_port"

text \<open>
  Names without a dot (Kubernetes names of a Service's namespace are DNS labels) are recovered from
  the URL: two resources never share a server.
\<close>

lemma Format_inj:
  assumes "CHR ''.'' \<notin> set n1" "CHR ''.'' \<notin> set n2" "Format n1 ns1 = Format n2 ns2"
  shows "n1 = n2 \<and> ns1 = ns2"
proof -
  have "split_on (CHR ''.'') (n1 @ CHR ''.'' # ns1) = split_on (CHR ''.'') (n2 @ CHR ''.'' # ns2)"
    using assms(3) by (simp add: Format_def)
  then have "n1 = n2" using assms(1,2) by (simp add: split_on_append)
  with assms(3) show ?thesis by (simp add: Format_def)
qed

section \<open>The controller's cache\<close>

text \<open>
  \<^verbatim>\<open>applySelectors\<close> sets the \<^verbatim>\<open>ByObject\<close> map of the cache options: one entry per object type, with a
  label selector, or per namespace for ConfigMaps (the key \<^verbatim>\<open>cache.AllNamespaces\<close> is the empty string).
\<close>

datatype object_type =
    KDeployment | KStatefulSet | KServiceAccount | KSecret | KService | KClusterRole
  | KClusterRoleBinding | KHorizontalPodAutoscaler | KPodDisruptionBudget | KPod | KConfigMap

record ns_config =
  nsLabelSelector :: "selector option"
  nsFieldSelector :: "(string \<times> string) option"

record by_object =
  boLabel :: "selector option"
  boNamespaces :: "(string \<times> ns_config) list"

record cache_options =
  coByObject :: "(object_type \<times> by_object) list"

definition shootInfoConfigMapName :: string where
  [const_defs]: "shootInfoConfigMapName = ''shoot-info''"
definition shootInfoConfigMapNamespace :: string where
  [const_defs]: "shootInfoConfigMapNamespace = ''kube-system''"

definition fromLabelSelector :: "selector \<Rightarrow> by_object" where
  "fromLabelSelector selector = \<lparr>boLabel = Some selector, boNamespaces = []\<rparr>"

definition applySelectors :: "'z cache_options_scheme \<Rightarrow> 'z cache_options_scheme" where
  "applySelectors options =
     (let managedByNATS = fromLabelSelector SelectorManagedByNATS in
      options\<lparr>coByObject :=
        [(KDeployment, managedByNATS),
         (KStatefulSet, managedByNATS),
         (KServiceAccount, managedByNATS),
         (KSecret, managedByNATS),
         (KService, managedByNATS),
         (KClusterRole, managedByNATS),
         (KClusterRoleBinding, managedByNATS),
         (KHorizontalPodAutoscaler, managedByNATS),
         (KPodDisruptionBudget, managedByNATS),
         (KPod, managedByNATS),
         (KConfigMap, \<lparr>boLabel = None, boNamespaces =
           [([], \<lparr>nsLabelSelector = Some SelectorManagedByNATS, nsFieldSelector = None\<rparr>),
            (shootInfoConfigMapNamespace,
             \<lparr>nsLabelSelector = None,
              nsFieldSelector = Some (''metadata.name'', shootInfoConfigMapName)\<rparr>)]\<rparr>)]\<rparr>)"

end
