(* ===== verification/NatsStatusOps.thy ===== *)
theory NatsStatusOps
  imports World
begin

text \<open>
  The methods of \<^verbatim>\<open>api/v1alpha1/nats_status.go\<close> that change a status. Each condition update reads the
  clock and goes through \<^verbatim>\<open>meta.SetStatusCondition\<close>, a parameter, whose documented effect is the
  hypothesis \<open>ssc_law\<close>. The contract all methods share is the locale \<open>status_method\<close>: on a status
  whose condition types are distinct a method is an update of an abstract status, in which the
  conditions are a map from the type to status, reason and message.
\<close>

section \<open>The methods\<close>

definition update_condition ::
  "'w libs \<Rightarrow> string \<Rightarrow> NATSStatus \<Rightarrow> string \<Rightarrow> string \<Rightarrow> string \<Rightarrow> (('w, 'z) host_scheme, NATSStatus) state" where
  "update_condition L conditionType ns status reason message = do {
     t \<leftarrow> nowM L;
     ret (ns\<lparr>stConditions := set_status_condition (meta L) (stConditions ns)
       \<lparr>cType = conditionType, cStatus = status, cObservedGeneration = 0,
        cLastTransitionTime = t, cReason = reason, cMessage = message\<rparr>\<rparr>)
   }"

definition UpdateConditionStatefulSet ::
  "'w libs \<Rightarrow> NATSStatus \<Rightarrow> string \<Rightarrow> string \<Rightarrow> string \<Rightarrow> (('w, 'z) host_scheme, NATSStatus) state" where
  "UpdateConditionStatefulSet L = update_condition L ConditionStatefulSet"

definition UpdateConditionAvailable ::
  "'w libs \<Rightarrow> NATSStatus \<Rightarrow> string \<Rightarrow> string \<Rightarrow> string \<Rightarrow> (('w, 'z) host_scheme, NATSStatus) state" where
  "UpdateConditionAvailable L = update_condition L ConditionAvailable"

definition UpdateConditionAvailabilityZones ::
  "'w libs \<Rightarrow> NATSStatus \<Rightarrow> string \<Rightarrow> string \<Rightarrow> string \<Rightarrow> (('w, 'z) host_scheme, NATSStatus) state" where
  "UpdateConditionAvailabilityZones L = update_condition L ConditionAvailabilityZones"

definition UpdateConditionDeletion ::
  "'w libs \<Rightarrow> NATSStatus \<Rightarrow> string \<Rightarrow> string \<Rightarrow> string \<Rightarrow> (('w, 'z) host_scheme, NATSStatus) state" where
  "UpdateConditionDeletion L = update_condition L ConditionDeleted"

definition SetStateReady :: "'w libs \<Rightarrow> NATSStatus \<Rightarrow> (('w, 'z) host_scheme, NATSStatus) state" where
  "SetStateReady L ns = do {
     ns \<leftarrow> ret (ns\<lparr>stState := StateReady\<rparr>);
     ns \<leftarrow> UpdateConditionStatefulSet L ns ConditionTrue
       ConditionReasonStatefulSetAvailable ''StatefulSet is ready'';
     UpdateConditionAvailable L ns ConditionTrue ConditionReasonDeployed ''NATS is deployed''
   }"

definition SetStateProcessing :: "NATSStatus \<Rightarrow> NATSStatus" where
  "SetStateProcessing ns = ns\<lparr>stState := StateProcessing\<rparr>"

definition SetStateWarning :: "NATSStatus \<Rightarrow> NATSStatus" where
  "SetStateWarning ns = ns\<lparr>stState := StateWarning\<rparr>"

definition SetStateDeleting :: "NATSStatus \<Rightarrow> NATSStatus" where
  "SetStateDeleting ns = ns\<lparr>stState := StateDeleting\<rparr>"

definition SetWaitingStateForStatefulSet ::
  "'w libs \<Rightarrow> NATSStatus \<Rightarrow> (('w, 'z) host_scheme, NATSStatus) state" where
  "SetWaitingStateForStatefulSet L ns = do {
     ns \<leftarrow> ret (SetStateProcessing ns);
     ns \<leftarrow> UpdateConditionStatefulSet L ns ConditionFalse ConditionReasonStatefulSetPending [];
     ns \<leftarrow> UpdateConditionAvailable L ns ConditionFalse ConditionReasonDeploying [];
     UpdateConditionAvailabilityZones L ns ConditionFalse ConditionReasonStatefulSetPending []
   }"

definition SetStateError :: "'w libs \<Rightarrow> NATSStatus \<Rightarrow> (('w, 'z) host_scheme, NATSStatus) state" where
  "SetStateError L ns = do {
     ns \<leftarrow> ret (ns\<lparr>stState := StateError\<rparr>);
     ns \<leftarrow> UpdateConditionStatefulSet L ns ConditionFalse ConditionReasonSyncFailError [];
     UpdateConditionAvailable L ns ConditionFalse ConditionReasonProcessingError []
   }"

definition Initialize :: "'w libs \<Rightarrow> NATSStatus \<Rightarrow> (('w, 'z) host_scheme, NATSStatus) state" where
  "Initialize L ns = do {
     ns \<leftarrow> ret (SetStateProcessing ns);
     ns \<leftarrow> UpdateConditionStatefulSet L ns ConditionFalse ConditionReasonProcessing [];
     UpdateConditionAvailable L ns ConditionFalse ConditionReasonProcessing []
   }"

definition ClearURL :: "NATSStatus \<Rightarrow> NATSStatus" where
  "ClearURL ns = ns\<lparr>stURL := []\<rparr>"

definition SetURL :: "NATSStatus \<Rightarrow> string \<Rightarrow> NATSStatus" where
  "SetURL ns url = ns\<lparr>stURL := url\<rparr>"

section \<open>What SetStatusCondition promises\<close>

text \<open>
  Documented: a condition of the same type is overwritten (its transition time only when the status
  changes), otherwise the new condition is appended; the other conditions keep their place.
\<close>

definition ssc_law :: "meta_lib \<Rightarrow> bool" where
  "ssc_law M \<longleftrightarrow> (\<forall>cs c. distinct (map cType cs) \<longrightarrow>
     map cond_core (set_status_condition M cs c) =
     AList.update (cType c) (cond_body c) (map cond_core cs))"

text \<open>A concrete function that does this, used to instantiate the parameter in examples.\<close>

fun ref_set_status_condition :: "Condition list \<Rightarrow> Condition \<Rightarrow> Condition list" where
  "ref_set_status_condition [] c = [c]"
| "ref_set_status_condition (d # ds) c =
     (if cType d = cType c
      then d\<lparr>cStatus := cStatus c, cReason := cReason c, cMessage := cMessage c,
             cObservedGeneration := cObservedGeneration c,
             cLastTransitionTime := (if cStatus d = cStatus c then cLastTransitionTime d
                                     else cLastTransitionTime c)\<rparr> # ds
      else d # ref_set_status_condition ds c)"

lemma ref_ssc:
  "map cond_core (ref_set_status_condition cs c) =
   AList.update (cType c) (cond_body c) (map cond_core cs)"
  by (induction cs) (auto simp: cond_core_def cond_body_def)

section \<open>The abstract status\<close>

record abs_status =
  aState :: string
  aURL :: string
  aZones :: int
  aConds :: "string \<rightharpoonup> cond_body"

definition abs_status :: "NATSStatus \<Rightarrow> abs_status" where
  "abs_status ns = \<lparr>aState = stState ns, aURL = stURL ns, aZones = stAvailabilityZonesUsed ns,
     aConds = map_of (map cond_core (stConditions ns))\<rparr>"

definition wf_status :: "NATSStatus \<Rightarrow> bool" where
  "wf_status ns \<longleftrightarrow> distinct (map cType (stConditions ns))"

lemma abs_status_sel [simp]:
  "aState (abs_status ns) = stState ns" "aURL (abs_status ns) = stURL ns"
  "aZones (abs_status ns) = stAvailabilityZonesUsed ns"
  by (simp_all add: abs_status_def)

lemma abs_status_upd [simp]:
  "abs_status (ns\<lparr>stState := x\<rparr>) = (abs_status ns)\<lparr>aState := x\<rparr>"
  "abs_status (ns\<lparr>stURL := u\<rparr>) = (abs_status ns)\<lparr>aURL := u\<rparr>"
  "abs_status (ns\<lparr>stAvailabilityZonesUsed := z\<rparr>) = (abs_status ns)\<lparr>aZones := z\<rparr>"
  by (simp_all add: abs_status_def)

lemma wf_status_upd [simp]:
  "wf_status (ns\<lparr>stState := x\<rparr>) = wf_status ns"
  "wf_status (ns\<lparr>stURL := u\<rparr>) = wf_status ns"
  "wf_status (ns\<lparr>stAvailabilityZonesUsed := z\<rparr>) = wf_status ns"
  by (simp_all add: wf_status_def)

text \<open>The condition the status holds for a type, as a reader of the resource sees it.\<close>

definition cond_of :: "NATSStatus \<Rightarrow> string \<Rightarrow> cond_body option" where
  "cond_of ns t = aConds (abs_status ns) t"

lemma map_of_core: "map_of (map cond_core cs) t = map_option cond_body (find_condition t cs)"
  by (induction cs) (auto simp: cond_core_def)

lemma cond_of_find: "cond_of ns t = map_option cond_body (FindCondition ns t)"
  by (simp add: cond_of_def abs_status_def FindCondition_def map_of_core)

definition set_cond :: "string \<Rightarrow> string \<Rightarrow> string \<Rightarrow> string \<Rightarrow> abs_status \<Rightarrow> abs_status" where
  "set_cond t status reason message a = a\<lparr>aConds := (aConds a)(t \<mapsto> (status, reason, message))\<rparr>"

text \<open>An action that only reads the clock.\<close>

fun is_clock :: "action \<Rightarrow> bool" where
  "is_clock (ANow t) = True"
| "is_clock _ = False"

section \<open>The contract of a status method\<close>

locale status_method =
  fixes M :: meta_lib
    and op :: "NATSStatus \<Rightarrow> (('w, 'z) host_scheme, NATSStatus) state"
    and spec :: "abs_status \<Rightarrow> abs_status"
  assumes refines: "ssc_law M \<Longrightarrow> wf_status ns \<Longrightarrow>
      wp (op ns) (\<lambda>ns' _. wf_status ns' \<and> abs_status ns' = spec (abs_status ns)) s"
    and clock_only: "state_io_rel (emits is_clock) (op ns)"
    and more_kept: "state_io_rel (keeps host.more) (op ns)"
begin

lemma wp_op:
  assumes "ssc_law M" "wf_status ns"
    and "\<And>ns' s'. wf_status ns' \<Longrightarrow> abs_status ns' = spec (abs_status ns) \<Longrightarrow>
      emits is_clock s s' \<Longrightarrow> keeps host.more s s' \<Longrightarrow> Q ns' s'"
  shows "wp (op ns) Q s"
proof (rule wpI)
  fix r s' assume run: "run_state (op ns) s = (r, s')"
  with refines [OF assms(1,2)] have "wf_status r \<and> abs_status r = spec (abs_status ns)"
    by (rule wpD)
  moreover have "emits is_clock s s'" "keeps host.more s s'"
    using clock_only more_kept run by (auto dest: state_io_relD)
  ultimately show "Q r s'" using assms(3) by blast
qed

lemma then_pure:
  assumes "\<And>ns. wf_status ns \<Longrightarrow> wf_status (f ns)"
    and "\<And>ns. abs_status (f ns) = g (abs_status ns)"
  shows "ssc_law M \<Longrightarrow> wf_status ns \<Longrightarrow>
    wp (op ns \<bind> (\<lambda>ns'. ret (f ns'))) (\<lambda>ns' _. wf_status ns' \<and> abs_status ns' = g (spec (abs_status ns))) s"
  by (simp only: wp_bind) (rule wp_op, simp_all add: wp_simps assms)

end

text \<open>Two methods in sequence are a method.\<close>

lemma status_method_seq:
  assumes "status_method M op1 spec1" "status_method M op2 spec2"
  shows "status_method M (\<lambda>ns. op1 ns \<bind> op2) (\<lambda>a. spec2 (spec1 a))"
proof
  fix ns s
    assume law: "ssc_law M" and wf: "wf_status ns"
    show "wp (op1 ns \<bind> op2) (\<lambda>ns' _. wf_status ns' \<and> abs_status ns' = spec2 (spec1 (abs_status ns))) s"
      unfolding wp_bind
      by (rule status_method.wp_op [OF assms(1) law wf], rule status_method.wp_op [OF assms(2) law])
        simp_all
next
  fix ns
  show "state_io_rel (emits is_clock) (op1 ns \<bind> op2)"
    by (intro emit_frame.f_bind status_method.clock_only [OF assms(1)] status_method.clock_only [OF assms(2)])
  show "state_io_rel (keeps host.more) (op1 ns \<bind> op2)"
    by (intro keep_frame.f_bind status_method.more_kept [OF assms(1)] status_method.more_kept [OF assms(2)])
qed

section \<open>The methods meet the contract\<close>

lemma update_condition_refines:
  assumes "ssc_law (meta L)" "wf_status ns"
  shows "wp (update_condition L t ns st r m)
    (\<lambda>ns' _. wf_status ns' \<and> abs_status ns' = set_cond t st r m (abs_status ns)) s"
proof -
  have core: "map cond_core (set_status_condition (meta L) (stConditions ns) c) =
      AList.update (cType c) (cond_body c) (map cond_core (stConditions ns))" for c
    using assms by (simp add: ssc_law_def wf_status_def)
  have d: "distinct (map fst (map cond_core (stConditions ns)))"
    using assms(2) unfolding wf_status_def map_cType_core .
  show ?thesis
    unfolding update_condition_def nowM_def
    by (simp add: wp_simps wf_status_def map_cType_core core distinct_update [OF d] abs_status_def
        set_cond_def update_conv' cond_body_def del: map_map split: prod.splits)
qed

lemma update_condition_method:
  "status_method (meta L) (\<lambda>ns. update_condition L t ns st r m :: (('w, 'z) host_scheme, _) state)
     (set_cond t st r m)"
proof
  fix ns
  show "state_io_rel (emits is_clock) (update_condition L t ns st r m :: (('w, 'z) host_scheme, _) state)"
    unfolding update_condition_def nowM_def
    by (intro emit_frame.f_bind emits_call emit_frame.f_ret) simp
  show "state_io_rel (keeps host.more) (update_condition L t ns st r m :: (('w, 'z) host_scheme, _) state)"
    unfolding update_condition_def nowM_def
    by (intro keep_frame.f_bind keeps_more keep_frame.f_ret)
qed (rule update_condition_refines)

lemma status_method_pure:
  assumes "\<And>ns. wf_status ns \<Longrightarrow> wf_status (f ns)" "\<And>ns. abs_status (f ns) = g (abs_status ns)"
  shows "status_method M (\<lambda>ns. ret (f ns) :: (('w, 'z) host_scheme, _) state) g"
  by unfold_locales (auto simp: wp_simps assms intro: emit_frame.f_ret keep_frame.f_ret)

text \<open>The abstract updates of the composed methods.\<close>

definition spec_ready :: "abs_status \<Rightarrow> abs_status" where
  "spec_ready a = a\<lparr>aState := StateReady, aConds := (aConds a)
     (ConditionStatefulSet \<mapsto> (ConditionTrue, ConditionReasonStatefulSetAvailable, ''StatefulSet is ready''),
      ConditionAvailable \<mapsto> (ConditionTrue, ConditionReasonDeployed, ''NATS is deployed''))\<rparr>"

definition spec_waiting :: "abs_status \<Rightarrow> abs_status" where
  "spec_waiting a = a\<lparr>aState := StateProcessing, aConds := (aConds a)
     (ConditionStatefulSet \<mapsto> (ConditionFalse, ConditionReasonStatefulSetPending, []),
      ConditionAvailable \<mapsto> (ConditionFalse, ConditionReasonDeploying, []),
      ConditionAvailabilityZones \<mapsto> (ConditionFalse, ConditionReasonStatefulSetPending, []))\<rparr>"

definition spec_error :: "abs_status \<Rightarrow> abs_status" where
  "spec_error a = a\<lparr>aState := StateError, aConds := (aConds a)
     (ConditionStatefulSet \<mapsto> (ConditionFalse, ConditionReasonSyncFailError, []),
      ConditionAvailable \<mapsto> (ConditionFalse, ConditionReasonProcessingError, []))\<rparr>"

definition spec_initialize :: "abs_status \<Rightarrow> abs_status" where
  "spec_initialize a = a\<lparr>aState := StateProcessing, aConds := (aConds a)
     (ConditionStatefulSet \<mapsto> (ConditionFalse, ConditionReasonProcessing, []),
      ConditionAvailable \<mapsto> (ConditionFalse, ConditionReasonProcessing, []))\<rparr>"

lemmas spec_defs = spec_ready_def spec_waiting_def spec_error_def spec_initialize_def

interpretation sts_cond: status_method "meta L"
  "\<lambda>ns. UpdateConditionStatefulSet L ns st r m :: (('w, 'z) host_scheme, _) state"
  "set_cond ConditionStatefulSet st r m" for L :: "'w libs" and st r m
  unfolding UpdateConditionStatefulSet_def by (rule update_condition_method)

interpretation avail_cond: status_method "meta L"
  "\<lambda>ns. UpdateConditionAvailable L ns st r m :: (('w, 'z) host_scheme, _) state"
  "set_cond ConditionAvailable st r m" for L :: "'w libs" and st r m
  unfolding UpdateConditionAvailable_def by (rule update_condition_method)

interpretation zones_cond: status_method "meta L"
  "\<lambda>ns. UpdateConditionAvailabilityZones L ns st r m :: (('w, 'z) host_scheme, _) state"
  "set_cond ConditionAvailabilityZones st r m" for L :: "'w libs" and st r m
  unfolding UpdateConditionAvailabilityZones_def by (rule update_condition_method)

interpretation del_cond: status_method "meta L"
  "\<lambda>ns. UpdateConditionDeletion L ns st r m :: (('w, 'z) host_scheme, _) state"
  "set_cond ConditionDeleted st r m" for L :: "'w libs" and st r m
  unfolding UpdateConditionDeletion_def by (rule update_condition_method)

lemma status_method_cong:
  assumes "status_method M op g" "\<And>a. g a = h a"
  shows "status_method M op h"
proof -
  have "g = h" using assms(2) by (rule ext)
  with assms(1) show ?thesis by simp
qed

lemmas cond_methods = sts_cond.status_method_axioms avail_cond.status_method_axioms
  zones_cond.status_method_axioms del_cond.status_method_axioms

interpretation ready: status_method "meta L"
  "SetStateReady L :: _ \<Rightarrow> (('w, 'z) host_scheme, _) state" spec_ready for L :: "'w libs"
  unfolding SetStateReady_def
  by (rule status_method_cong [OF status_method_seq [OF status_method_pure
        [where g = "\<lambda>a. a\<lparr>aState := StateReady\<rparr>"] status_method_seq [OF cond_methods(1,2)]]])
    (simp_all add: spec_ready_def set_cond_def)

interpretation waiting: status_method "meta L"
  "SetWaitingStateForStatefulSet L :: _ \<Rightarrow> (('w, 'z) host_scheme, _) state" spec_waiting
  for L :: "'w libs"
  unfolding SetWaitingStateForStatefulSet_def
  by (rule status_method_cong [OF status_method_seq [OF status_method_pure
        [where g = "\<lambda>a. a\<lparr>aState := StateProcessing\<rparr>"]
        status_method_seq [OF cond_methods(1) status_method_seq [OF cond_methods(2,3)]]]])
    (simp_all add: spec_waiting_def set_cond_def SetStateProcessing_def)

interpretation err: status_method "meta L"
  "SetStateError L :: _ \<Rightarrow> (('w, 'z) host_scheme, _) state" spec_error for L :: "'w libs"
  unfolding SetStateError_def
  by (rule status_method_cong [OF status_method_seq [OF status_method_pure
        [where g = "\<lambda>a. a\<lparr>aState := StateError\<rparr>"] status_method_seq [OF cond_methods(1,2)]]])
    (simp_all add: spec_error_def set_cond_def)

interpretation initialize: status_method "meta L"
  "Initialize L :: _ \<Rightarrow> (('w, 'z) host_scheme, _) state" spec_initialize for L :: "'w libs"
  unfolding Initialize_def
  by (rule status_method_cong [OF status_method_seq [OF status_method_pure
        [where g = "\<lambda>a. a\<lparr>aState := StateProcessing\<rparr>"] status_method_seq [OF cond_methods(1,2)]]])
    (simp_all add: spec_initialize_def set_cond_def SetStateProcessing_def)

text \<open>The methods that only set a field.\<close>

lemma abs_pure [simp]:
  "abs_status (SetStateProcessing ns) = (abs_status ns)\<lparr>aState := StateProcessing\<rparr>"
  "abs_status (SetStateWarning ns) = (abs_status ns)\<lparr>aState := StateWarning\<rparr>"
  "abs_status (SetStateDeleting ns) = (abs_status ns)\<lparr>aState := StateDeleting\<rparr>"
  "abs_status (ClearURL ns) = (abs_status ns)\<lparr>aURL := []\<rparr>"
  "abs_status (SetURL ns u) = (abs_status ns)\<lparr>aURL := u\<rparr>"
  by (simp_all add: SetStateProcessing_def SetStateWarning_def SetStateDeleting_def ClearURL_def SetURL_def)

lemma wf_pure [simp]:
  "wf_status (SetStateProcessing ns) = wf_status ns" "wf_status (SetStateWarning ns) = wf_status ns"
  "wf_status (SetStateDeleting ns) = wf_status ns" "wf_status (ClearURL ns) = wf_status ns"
  "wf_status (SetURL ns u) = wf_status ns"
  by (simp_all add: SetStateProcessing_def SetStateWarning_def SetStateDeleting_def ClearURL_def SetURL_def)

text \<open>Only the clock is read, so each method emits within any set of actions with the clock.\<close>

lemmas status_clock = sts_cond.clock_only avail_cond.clock_only zones_cond.clock_only
  del_cond.clock_only ready.clock_only waiting.clock_only err.clock_only initialize.clock_only

lemmas status_more = sts_cond.more_kept avail_cond.more_kept zones_cond.more_kept
  del_cond.more_kept ready.more_kept waiting.more_kept err.more_kept initialize.more_kept

lemmas status_wp = sts_cond.wp_op avail_cond.wp_op zones_cond.wp_op del_cond.wp_op ready.wp_op
  waiting.wp_op err.wp_op initialize.wp_op

lemma const_distinct [simp]:
  "ConditionAvailable \<noteq> ConditionStatefulSet" "ConditionStatefulSet \<noteq> ConditionAvailable"
  "ConditionAvailabilityZones \<noteq> ConditionStatefulSet" "ConditionStatefulSet \<noteq> ConditionAvailabilityZones"
  "ConditionAvailabilityZones \<noteq> ConditionAvailable" "ConditionAvailable \<noteq> ConditionAvailabilityZones"
  "ConditionDeleted \<noteq> ConditionAvailable" "ConditionAvailable \<noteq> ConditionDeleted"
  "ConditionDeleted \<noteq> ConditionStatefulSet" "ConditionStatefulSet \<noteq> ConditionDeleted"
  "ConditionDeleted \<noteq> ConditionAvailabilityZones" "ConditionAvailabilityZones \<noteq> ConditionDeleted"
  by (simp_all add: const_defs)

lemma state_distinct [simp]:
  "StateReady \<noteq> StateError" "StateError \<noteq> StateReady" "StateReady \<noteq> StateProcessing"
  "StateProcessing \<noteq> StateReady" "StateReady \<noteq> StateWarning" "StateWarning \<noteq> StateReady"
  "StateReady \<noteq> StateDeleting" "StateDeleting \<noteq> StateReady" "StateError \<noteq> StateProcessing"
  "StateProcessing \<noteq> StateError" "StateError \<noteq> StateWarning" "StateWarning \<noteq> StateError"
  "StateProcessing \<noteq> StateWarning" "StateWarning \<noteq> StateProcessing"
  "ConditionTrue \<noteq> ConditionFalse" "ConditionFalse \<noteq> ConditionTrue"
  by (simp_all add: const_defs)

end
