(* ===== verification/Demo.thy ===== *)
theory Demo
  imports NatsStatusOps
begin

text \<open>
  A concrete world for the examples: a small cluster with one NATS resource, a chart and a NATS
  server, and concrete functions for the third-party calls that satisfy the documented behaviour the
  properties assume. No operation of the program is defined here.
\<close>

section \<open>Reference functions for the pure helpers\<close>

definition not_found :: go_error where
  "not_found = ExternalError ''NotFound'' ''not found''"

fun ref_is_not_found :: "go_error \<Rightarrow> bool" where
  "ref_is_not_found (ExternalError k msg) = (k = ''NotFound'')"
| "ref_is_not_found _ = False"

definition ref_obj_kind :: "obj \<Rightarrow> string" where
  "ref_obj_kind m = (case map_of m ''kind'' of Some (VStr s) \<Rightarrow> s | _ \<Rightarrow> [])"

definition ref_meta_field :: "string \<Rightarrow> obj \<Rightarrow> string" where
  "ref_meta_field f m = (case map_of m ''metadata'' of
     Some (VMap mm) \<Rightarrow> (case map_of mm f of Some (VStr s) \<Rightarrow> s | _ \<Rightarrow> []) | _ \<Rightarrow> [])"

fun ref_selector_matches :: "selector \<Rightarrow> str_map \<Rightarrow> bool" where
  "ref_selector_matches (SetSelector m) ls = list_all (\<lambda>(k, v). map_of ls k = Some v) m"
| "ref_selector_matches (ParsedSelector s) ls = False"

text \<open>Quantities in Mi: the digits, times 1024 for the suffix Gi.\<close>

fun ref_digits :: "string \<Rightarrow> int \<Rightarrow> int \<times> string" where
  "ref_digits [] n = (n, [])"
| "ref_digits (c # cs) n =
     (if 48 \<le> (of_char c :: int) \<and> (of_char c :: int) \<le> 57
      then ref_digits cs (10 * n + (of_char c - 48)) else (n, c # cs))"

fun ref_qty_value :: "quantity \<Rightarrow> int" where
  "ref_qty_value QuantityZero = 0"
| "ref_qty_value (QuantityOf s) =
     (case ref_digits s 0 of (n, unit_s) \<Rightarrow> if unit_s = ''Gi'' then 1024 * n else n)"

fun ref_qty_string :: "quantity \<Rightarrow> string" where
  "ref_qty_string QuantityZero = ''0''"
| "ref_qty_string (QuantityOf s) = s"

definition ref_resource :: "string \<Rightarrow> resource_list \<Rightarrow> quantity option" where
  "ref_resource k rl = Some (case map_of rl k of Some q \<Rightarrow> q | None \<Rightarrow> QuantityZero)"

definition ref_meta :: meta_lib where
  "ref_meta = \<lparr>
     is_not_found = ref_is_not_found,
     ignore_not_found = (\<lambda>e. if ref_is_not_found e then None else Some e),
     time_is_zero = (\<lambda>t. t = None \<or> t = Some 0),
     set_status_condition = ref_set_status_condition,
     contains_finalizer_in = (\<lambda>fs f. List.member fs f),
     add_finalizer_to = (\<lambda>fs f. if List.member fs f then fs else fs @ [f]),
     remove_finalizer_from = (\<lambda>fs f. filter (\<lambda>x. x \<noteq> f) fs),
     labels_parse = (\<lambda>s. None),
     label_selector_as_selector = (\<lambda>m. None),
     selector_matches = ref_selector_matches,
     obj_kind = ref_obj_kind,
     obj_name = ref_meta_field ''name'',
     obj_namespace = ref_meta_field ''namespace'',
     qty_is_zero = (\<lambda>q. ref_qty_value q = 0),
     qty_cmp = (\<lambda>p q. sgn (ref_qty_value p - ref_qty_value q)),
     qty_string = ref_qty_string,
     rl_cpu = ref_resource ''cpu'',
     rl_memory = ref_resource ''memory''\<rparr>"

lemma ref_ssc_law: "ssc_law ref_meta"
  by (simp add: ssc_law_def ref_meta_def ref_ssc)

section \<open>A small cluster\<close>

record demo_world =
  dTime :: nat
  dNATS :: "NATS option"
  dSts :: "go_error + StatefulSet"
  dSecret :: bool
  dConfigMap :: "go_error + ConfigMap"
  dNodes :: "(string \<times> Node) list"
  dCRD :: bool
  dPods :: "Pod list"
  dPVCs :: "PVC list"
  dPVCErr :: "go_error option"
  dReachable :: bool
  dStreams :: "string list"
  dConsumers :: "string list"
  dDocs :: "obj list"
  dRelease :: bool
  dGauges :: "(gauge \<times> int) list"

definition answer :: "'a option \<Rightarrow> go_error + 'a" where
  "answer x = (case x of None \<Rightarrow> Inl not_found | Some y \<Rightarrow> Inr y)"

definition demo_get_nats :: "string \<Rightarrow> string \<Rightarrow> demo_world \<Rightarrow> (go_error + NATS) \<times> demo_world" where
  "demo_get_nats name ns w =
     (case dNATS w of
        Some n \<Rightarrow> if nName n = name \<and> nNamespace n = ns then (Inr n, w) else (Inl not_found, w)
      | None \<Rightarrow> (Inl not_found, w))"

definition demo_api :: "demo_world k8s_api" where
  "demo_api = \<lparr>
     api_now = (\<lambda>w. (Suc (dTime w), w\<lparr>dTime := Suc (dTime w)\<rparr>)),
     api_get_nats = demo_get_nats,
     api_update_nats = (\<lambda>n w. (None, w\<lparr>dNATS := Some n\<rparr>)),
     api_update_status = (\<lambda>n w. (None, w\<lparr>dNATS := Some n\<rparr>)),
     api_get_sts = (\<lambda>name ns w. (dSts w, w)),
     api_get_secret = (\<lambda>name ns w. (if dSecret w then Inr \<lparr>secretName = name\<rparr> else Inl not_found, w)),
     api_get_configmap = (\<lambda>name ns w. (dConfigMap w, w)),
     api_get_node = (\<lambda>name w. (answer (map_of (dNodes w) name), w)),
     api_get_crd = (\<lambda>name w. (if dCRD w then Inr \<lparr>crdName = name\<rparr> else Inl not_found, w)),
     api_patch_apply = (\<lambda>obj force manager w. (None, w)),
     api_delete_object = (\<lambda>obj w. (None, w)),
     api_delete_pvc = (\<lambda>pvc w. case dPVCErr w of
        Some e \<Rightarrow> (Some e, w)
      | None \<Rightarrow> (None, w\<lparr>dPVCs := filter (\<lambda>p. p \<noteq> pvc) (dPVCs w)\<rparr>)),
     api_list_pvcs = (\<lambda>ns sel w. (Inr (filter (\<lambda>p. pvcNamespace p = ns) (dPVCs w)), w)),
     api_list_pods = (\<lambda>ns sel w. (Inr (dPods w), w)),
     api_watch = (\<lambda>kind version sel w. (None, w)),
     api_event = (\<lambda>ty reason fmt args w. w)\<rparr>"

definition demo_nio :: "demo_world natsio_lib" where
  "demo_nio = \<lparr>
     nio_connect = (\<lambda>url timeout name w.
        (if dReachable w then Inr 1 else Inl (ExternalError ''nats'' ''no servers available''), w)),
     nio_is_connected = (\<lambda>c w. (dReachable w, w)),
     nio_status = (\<lambda>c w. (if dReachable w then CONNECTED else OtherConnState 0, w)),
     nio_jetstream = (\<lambda>c w. (Inr 1, w)),
     nio_streams = (\<lambda>j w. (dStreams w, w)),
     nio_consumers = (\<lambda>j stream w. (dConsumers w, w)),
     nio_close = (\<lambda>c w. w)\<rparr>"

text \<open>A deep merge in which the source overrides.\<close>

fun merge_val :: "val \<Rightarrow> val \<Rightarrow> val" and merge_obj :: "obj \<Rightarrow> obj \<Rightarrow> obj" where
  "merge_val (VMap d) (VMap s) = VMap (merge_obj d s)"
| "merge_val d s = s"
| "merge_obj d [] = d"
| "merge_obj d ((k, v) # s) =
     merge_obj (AList.update k (case map_of d k of None \<Rightarrow> v | Some dv \<Rightarrow> merge_val dv v) d) s"

text \<open>The rendered documents are those of the world, named by their position in the manifest.\<close>

definition demo_helm :: "obj list \<Rightarrow> demo_world helm_lib" where
  "demo_helm docs = \<lparr>
     hl_load = (\<lambda>path w. (Inr [], w)),
     hl_init = (\<lambda>ns w. (None, w)),
     hl_run = (\<lambda>ia vals config w.
        (((None, if dRelease w then Some ''manifest'' else None), vals), w)),
     hl_merge = (\<lambda>d s. (None, merge_obj d s)),
     hl_wrap = (\<lambda>err msg. map_option (\<lambda>e. Errorf (msg @ '': '' @ error_text e) (Some e)) err),
     hl_yaml_docs = (\<lambda>m. (if m = [] then [] else map (\<lambda>i. show_int (int i)) [0..<length docs], Sentinel io_EOF)),
     hl_yaml_unmarshal = (\<lambda>d. (None, case map_of (zip (map (\<lambda>i. show_int (int i)) [0..<length docs]) docs) d of
        Some m \<Rightarrow> m | None \<Rightarrow> []))\<rparr>"

definition demo_gauge :: "demo_world \<Rightarrow> gauge \<Rightarrow> int" where
  "demo_gauge w g = (case map_of (dGauges w) g of None \<Rightarrow> 0 | Some v \<Rightarrow> v)"

definition demo_prom :: "demo_world prom_lib" where
  "demo_prom = \<lparr>
     pm_register = (\<lambda>g w. w),
     pm_set = (\<lambda>g v w. w\<lparr>dGauges := AList.update g v (dGauges w)\<rparr>),
     pm_reset = (\<lambda>g w. w\<lparr>dGauges := AList.update g 0 (dGauges w)\<rparr>),
     pm_get = (\<lambda>g w. (Inr (demo_gauge w g), w))\<rparr>"

definition demo_libs :: "obj list \<Rightarrow> demo_world libs" where
  "demo_libs docs = \<lparr>kapi = demo_api, meta = ref_meta, nio = demo_nio, helm = demo_helm docs,
     prom = demo_prom\<rparr>"

definition demo_spec :: NATSSpec where
  "demo_spec = \<lparr>spCluster = \<lparr>clusterSize = 3\<rparr>,
     spJetStream = \<lparr>jsMemStorage = \<lparr>memEnabled = True, memSize = QuantityOf ''1Gi''\<rparr>,
       jsFileStorage = \<lparr>fsStorageClassName = ''default'', fsSize = QuantityOf ''1Gi''\<rparr>\<rparr>,
     spLogging = \<lparr>logDebug = False, logTrace = False\<rparr>,
     spResources = \<lparr>resLimits = [(''cpu'', QuantityOf ''500m'')], resRequests = []\<rparr>,
     spAnnotations = [], spLabels = []\<rparr>"

definition demo_nats :: NATS where
  "demo_nats = \<lparr>nAPIVersion = ''v1alpha1'', nKind = ''NATS'', nName = ''eventing-nats'',
     nNamespace = ''kyma-system'', nUID = ''1234'', nResourceVersion = ''1'',
     nFinalizers = [], nDeletionTimestamp = None, nSpec = demo_spec, nStatus = zeroStatus\<rparr>"

definition demo_sts_doc :: obj where
  "demo_sts_doc = [(''kind'', VStr ''StatefulSet''),
     (''metadata'', VMap [(''name'', VStr ''eventing-nats''), (''namespace'', VStr ''kyma-system'')])]"

definition demo_node :: "string \<Rightarrow> Node" where
  "demo_node zone = \<lparr>nodeName = [], nodeLabels = [(''topology.kubernetes.io/zone'', zone)]\<rparr>"

definition demo_start :: demo_world where
  "demo_start = \<lparr>dTime = 0, dNATS = Some demo_nats,
     dSts = Inr \<lparr>stsReplicas = Some 3, stsCurrentReplicas = 3, stsUpdatedReplicas = 3, stsReadyReplicas = 3\<rparr>,
     dSecret = True, dConfigMap = Inl not_found,
     dNodes = [(''n1'', demo_node ''z1''), (''n2'', demo_node ''z2''), (''n3'', demo_node ''z3'')],
     dCRD = False,
     dPods = [\<lparr>podName = ''p1'', podNodeName = ''n1''\<rparr>, \<lparr>podName = ''p2'', podNodeName = ''n2''\<rparr>,
       \<lparr>podName = ''p3'', podNodeName = []\<rparr>],
     dPVCs = [\<lparr>pvcName = ''eventing-nats-js-0'', pvcNamespace = ''kyma-system''\<rparr>,
       \<lparr>pvcName = ''other'', pvcNamespace = ''kyma-system''\<rparr>],
     dPVCErr = None, dReachable = True, dStreams = [''sap''], dConsumers = [],
     dDocs = [demo_sts_doc], dRelease = True, dGauges = []\<rparr>"

lemmas demo_defs = demo_libs_def demo_api_def demo_nio_def demo_helm_def demo_prom_def ref_meta_def
  demo_start_def answer_def demo_get_nats_def demo_node_def

end
