(* ===== verification/KubeClient.thy ===== *)
theory KubeClient
  imports Config Demo
begin

text \<open>
  \<^verbatim>\<open>pkg/k8s/client.go\<close>: the wrapper around the Kubernetes client, with its cache of node zones. Reads
  and writes go to the API server (parameters of \<open>World\<close>); what the wrapper adds is modelled in full:
  the cache, the prefix guard on the volume claims it deletes, and the count of the zones in use.
\<close>

section \<open>State\<close>

record 'w kube = "'w host" +
  nodesZoneCache :: "string \<rightharpoonup> string"

text \<open>\<^verbatim>\<open>NewKubeClient\<close>: a wrapper starts with an empty cache. (The field manager is an argument of its operations.)\<close>

definition NewKubeClient :: "'w host \<Rightarrow> 'w kube" where
  "NewKubeClient s = host.extend s \<lparr>nodesZoneCache = Map.empty\<rparr>"

section \<open>Operations\<close>

definition PatchApply :: "'w libs \<Rightarrow> string \<Rightarrow> obj \<Rightarrow> (('w, 'z) host_scheme, go_error option) state" where
  "PatchApply L fieldManager object = clientPatchApply L object True fieldManager"

definition kubeDelete :: "'w libs \<Rightarrow> obj \<Rightarrow> (('w, 'z) host_scheme, go_error option) state" where
  "kubeDelete L object = do {
     err \<leftarrow> clientDelete L object;
     ret (case err of None \<Rightarrow> None | Some e \<Rightarrow> ignore_not_found (meta L) e)
   }"

definition GetStatefulSet ::
  "'w libs \<Rightarrow> string \<Rightarrow> string \<Rightarrow> (('w, 'z) host_scheme, go_error + StatefulSet) state" where
  "GetStatefulSet L name namespace = clientGetStatefulSet L name namespace"

definition GetSecret :: "'w libs \<Rightarrow> string \<Rightarrow> string \<Rightarrow> (('w, 'z) host_scheme, go_error + Secret) state" where
  "GetSecret L name namespace = clientGetSecret L name namespace"

definition GetConfigMap ::
  "'w libs \<Rightarrow> string \<Rightarrow> string \<Rightarrow> (('w, 'z) host_scheme, go_error + ConfigMap) state" where
  "GetConfigMap L name namespace = clientGetConfigMap L name namespace"

definition GetCRD :: "'w libs \<Rightarrow> string \<Rightarrow> (('w, 'z) host_scheme, go_error + CRD) state" where
  "GetCRD L name = clientsetGetCRD L name"

text \<open>The boolean and the error are returned together: an ignored error comes with \<open>False\<close>.\<close>

definition DestinationRuleCRDExists ::
  "'w libs \<Rightarrow> (('w, 'z) host_scheme, bool \<times> go_error option) state" where
  "DestinationRuleCRDExists L = do {
     r \<leftarrow> GetCRD L DestinationRuleCrdName;
     (case r of
        Inl err \<Rightarrow> ret (False, ignore_not_found (meta L) err)
      | Inr _ \<Rightarrow> ret (True, None))
   }"

definition DeletePVCsWithLabel ::
  "'w libs \<Rightarrow> string \<Rightarrow> string \<Rightarrow> string \<Rightarrow> (('w, 'z) host_scheme, go_error option) state" where
  "DeletePVCsWithLabel L labelSelector mustHaveNamePrefix namespace =
     (case labels_parse (meta L) labelSelector of
        Some err \<Rightarrow> ret (Some err)
      | None \<Rightarrow> do {
          r \<leftarrow> clientListPVCs L namespace (ParsedSelector labelSelector);
          (case r of
             Inl err \<Rightarrow> ret (Some err)
           | Inr items \<Rightarrow>
               if items = [] then ret None
               else for_each_err (\<lambda>pvc.
                 if has_prefix (pvcName pvc) mustHaveNamePrefix then clientDeletePVC L pvc
                 else ret None) items)
        })"

definition GetNode :: "'w libs \<Rightarrow> string \<Rightarrow> (('w, 'z) host_scheme, go_error + Node) state" where
  "GetNode L name = clientGetNode L name"

definition nodeZoneLabelKey :: string where
  [const_defs]: "nodeZoneLabelKey = ''topology.kubernetes.io/zone''"

definition zone_missing_error :: "string \<Rightarrow> go_error" where
  "zone_missing_error name =
     Errorf (sentinel_text ErrNodeZoneLabelMissing @ '' : label: '' @ nodeZoneLabelKey @ '', node: '' @ name)
       (Some (Sentinel ErrNodeZoneLabelMissing))"

definition GetNodeZone :: "'w libs \<Rightarrow> string \<Rightarrow> (('w, 'z) kube_scheme, go_error + string) state" where
  "GetNodeZone L name = do {
     cache \<leftarrow> gets nodesZoneCache;
     (let (cacheValue, ok) = (case cache name of Some v \<Rightarrow> (v, True) | None \<Rightarrow> ([], False)) in
      if ok \<and> cacheValue \<noteq> [] then ret (Inr cacheValue)
      else do {
        r \<leftarrow> GetNode L name;
        (case r of
           Inl err \<Rightarrow> ret (Inl err)
         | Inr node \<Rightarrow>
             (let (zone, ok) = (case map_of (nodeLabels node) nodeZoneLabelKey of
                 Some z \<Rightarrow> (z, True) | None \<Rightarrow> ([], False)) in
              if \<not> ok \<or> zone = [] then ret (Inl (zone_missing_error name))
              else do {
                modify (\<lambda>s. s\<lparr>nodesZoneCache := (nodesZoneCache s)(name \<mapsto> zone)\<rparr>);
                ret (Inr zone)
              }))
      })
   }"

definition GetPodsByLabels ::
  "'w libs \<Rightarrow> string \<Rightarrow> str_map \<Rightarrow> (('w, 'z) host_scheme, go_error + Pod list) state" where
  "GetPodsByLabels L namespace matchLabels = clientListPods L namespace (SetSelector matchLabels)"

text \<open>
  The loop of \<^verbatim>\<open>GetNumberOfAvailabilityZonesUsedByPods\<close> over the pods, with the map \<^verbatim>\<open>podZonesSet\<close> as
  an association list and the zone lookup as an argument.
\<close>

fun pod_zones ::
  "(string \<Rightarrow> ('s, go_error + string) state) \<Rightarrow> (string \<times> bool) list \<Rightarrow> Pod list \<Rightarrow>
   ('s, go_error + (string \<times> bool) list) state" where
  "pod_zones getZone podZonesSet [] = ret (Inr podZonesSet)"
| "pod_zones getZone podZonesSet (pod # pods) =
     (if podNodeName pod \<noteq> [] then do {
        r \<leftarrow> getZone (podNodeName pod);
        (case r of
           Inl err \<Rightarrow> ret (Inl err)
         | Inr zone \<Rightarrow> pod_zones getZone (AList.update zone True podZonesSet) pods)
      }
      else pod_zones getZone podZonesSet pods)"

definition GetNumberOfAvailabilityZonesUsedByPods ::
  "'w libs \<Rightarrow> string \<Rightarrow> str_map \<Rightarrow> (('w, 'z) kube_scheme, go_error + int) state" where
  "GetNumberOfAvailabilityZonesUsedByPods L namespace matchLabels = do {
     r \<leftarrow> GetPodsByLabels L namespace matchLabels;
     (case r of
        Inl err \<Rightarrow> ret (Inl err)
      | Inr pods \<Rightarrow> do {
          r \<leftarrow> pod_zones (GetNodeZone L) [] pods;
          (case r of
             Inl err \<Rightarrow> ret (Inl err)
           | Inr podZonesSet \<Rightarrow> ret (Inr (int (length podZonesSet))))
        })
   }"

section \<open>The zone cache\<close>

text \<open>The zone the cache answers for a node; an empty entry would not be answered.\<close>

definition known_zone :: "('w, 'z) kube_scheme \<Rightarrow> string \<Rightarrow> string option" where
  "known_zone s name =
     (case nodesZoneCache s name of Some z \<Rightarrow> if z \<noteq> [] then Some z else None | None \<Rightarrow> None)"

lemma known_zone_host [simp]: "known_zone (s\<lparr>world := w, trace := t\<rparr>) = known_zone s"
  by (simp add: known_zone_def fun_eq_iff)

lemma GetNodeZone_hit:
  "known_zone s name = Some z \<Longrightarrow> run_state (GetNodeZone L name) s = (Inr z, s)"
  by (auto simp: GetNodeZone_def known_zone_def split: option.splits if_splits)

lemma GetNodeZone_miss:
  assumes "known_zone s name = None"
  shows "run_state (GetNodeZone L name) s =
    (case api_get_node (kapi L) name (world s) of (r, w) \<Rightarrow>
      (let s1 = s\<lparr>world := w, trace := trace s @ [AGetNode name r]\<rparr> in
       case r of Inl err \<Rightarrow> (Inl err, s1)
       | Inr node \<Rightarrow> (case map_of (nodeLabels node) nodeZoneLabelKey of
           Some z \<Rightarrow> if z \<noteq> [] then (Inr z, s1\<lparr>nodesZoneCache := (nodesZoneCache s)(name \<mapsto> z)\<rparr>)
             else (Inl (zone_missing_error name), s1)
         | None \<Rightarrow> (Inl (zone_missing_error name), s1))))"
  using assms
  by (auto simp: GetNodeZone_def GetNode_def clientGetNode_def known_zone_def
      Let_def split: option.splits if_splits prod.splits sum.splits)

text \<open>
  The interface between the count of zones and the lookup it calls: a zone found is not empty and is
  known from then on, and what is known stays known with the same zone.
\<close>

locale zone_source =
  fixes getZone :: "string \<Rightarrow> ('s, go_error + string) state"
    and known :: "'s \<Rightarrow> string \<Rightarrow> string option"
  assumes found: "run_state (getZone n) s = (Inr z, s') \<Longrightarrow> z \<noteq> [] \<and> known s' n = Some z"
    and stable: "run_state (getZone n) s = (r, s') \<Longrightarrow> known s m = Some z \<Longrightarrow> known s' m = Some z"
begin

definition grows :: "'s \<Rightarrow> 's \<Rightarrow> bool" where
  "grows s s' \<longleftrightarrow> (\<forall>n z. known s n = Some z \<longrightarrow> known s' n = Some z)"

sublocale grow: frame_rel grows
  by unfold_locales (auto simp: grows_def)

lemma getZone_grows: "state_io_rel grows (getZone n)"
  using stable by (auto simp: state_io_rel_def grows_def) (metis prod.collapse)

lemma pod_zones_grows: "state_io_rel grows (pod_zones getZone acc pods)"
  by (induction pods arbitrary: acc)
    (auto intro!: grow.f_bind grow.f_ret grow.f_sum getZone_grows)

lemma pod_zones_result:
  "run_state (pod_zones getZone acc pods) s = (Inr acc', s') \<Longrightarrow> distinct (map fst acc) \<Longrightarrow>
   distinct (map fst acc') \<and>
   fst ` set acc' = fst ` set acc \<union>
     {z. \<exists>p \<in> set pods. podNodeName p \<noteq> [] \<and> known s' (podNodeName p) = Some z} \<and>
   (\<forall>p \<in> set pods. podNodeName p \<noteq> [] \<longrightarrow> known s' (podNodeName p) \<noteq> None)"
proof (induction pods arbitrary: acc s)
  case Nil
  then show ?case by simp
next
  case (Cons p pods)
  show ?case
  proof (cases "podNodeName p = []")
    case True
    with Cons show ?thesis by simp
  next
    case False
    obtain r s1 where g: "run_state (getZone (podNodeName p)) s = (r, s1)" by force
    with Cons.prems False obtain z where z: "r = Inr z"
      and rest: "run_state (pod_zones getZone (AList.update z True acc) pods) s1 = (Inr acc', s')"
      by (auto split: sum.splits)
    have "known s1 (podNodeName p) = Some z" using found g z by blast
    moreover have "grows s1 s'"
      using pod_zones_grows rest by (rule state_io_relD)
    ultimately have kz: "known s' (podNodeName p) = Some z" by (auto simp: grows_def)
    have "distinct (map fst (AList.update z True acc))"
      using Cons.prems(2) by (rule distinct_update)
    from Cons.IH [OF rest this] kz False show ?thesis
      by (auto simp: dom_update)
  qed
qed

end

interpretation zones: zone_source "GetNodeZone L :: _ \<Rightarrow> (('w, 'z) kube_scheme, _) state" known_zone
  for L :: "'w libs"
proof
  fix n and s s' :: "('w, 'z) kube_scheme" and z
  assume run: "run_state (GetNodeZone L n) s = (Inr z, s')"
  show "z \<noteq> [] \<and> known_zone s' n = Some z"
  proof (cases "known_zone s n")
    case None
    with run show ?thesis
      by (auto simp: GetNodeZone_miss known_zone_def Let_def
          split: prod.splits sum.splits option.splits if_splits)
  next
    case (Some z')
    moreover have "z' \<noteq> []" using Some by (auto simp: known_zone_def split: option.splits if_splits)
    ultimately show ?thesis using run by (simp add: GetNodeZone_hit)
  qed
next
  fix n m and s s' :: "('w, 'z) kube_scheme" and r z
  assume run: "run_state (GetNodeZone L n) s = (r, s')" and k: "known_zone s m = Some z"
  show "known_zone s' m = Some z"
  proof (cases "known_zone s n")
    case None
    with k have "n \<noteq> m" by auto
    with run None k show ?thesis
      by (auto simp: GetNodeZone_miss known_zone_def Let_def
          split: prod.splits sum.splits option.splits if_splits)
  next
    case (Some z')
    then show ?thesis using run k by (simp add: GetNodeZone_hit)
  qed
qed

section \<open>Where a known zone comes from\<close>

text \<open>The zone a node carries as its label, and the first one read for a node in a list of calls.\<close>

definition node_zone :: "Node \<Rightarrow> string option" where
  "node_zone node = (case map_of (nodeLabels node) ''topology.kubernetes.io/zone'' of
     Some z \<Rightarrow> if z \<noteq> [] then Some z else None | None \<Rightarrow> None)"

fun zone_read :: "string \<Rightarrow> action \<Rightarrow> string option" where
  "zone_read n (AGetNode m (Inr node)) = (if m = n then node_zone node else None)"
| "zone_read n _ = None"

text \<open>The zone of a node: the one in the cache at the start, otherwise the first one read.\<close>

definition zone_of :: "('w, 'z) kube_scheme \<Rightarrow> action list \<Rightarrow> string \<Rightarrow> string option" where
  "zone_of s as n = (case known_zone s n of
     Some z \<Rightarrow> Some z
   | None \<Rightarrow> (case collect (zone_read n) as of [] \<Rightarrow> None | z # zs \<Rightarrow> Some z))"

definition learns :: "('w, 'z) kube_scheme \<Rightarrow> ('w, 'z) kube_scheme \<Rightarrow> bool" where
  "learns s s' \<longleftrightarrow> (\<exists>as. trace s' = trace s @ as \<and> list_all (\<lambda>a. \<exists>n r. a = AGetNode n r) as \<and>
     known_zone s' = zone_of s as)"

lemma zone_of_append: "known_zone t = zone_of s as \<Longrightarrow> zone_of t bs = zone_of s (as @ bs)"
  by (auto simp: zone_of_def fun_eq_iff split: option.splits list.splits)

interpretation learn_frame: frame_rel "learns :: ('w, 'z) kube_scheme \<Rightarrow> _"
proof
  show "learns s s" for s :: "('w, 'z) kube_scheme"
    unfolding learns_def by (rule exI [of _ "[]"]) (auto simp: zone_of_def fun_eq_iff split: option.split)
  show "learns s u" if "learns s t" "learns t u" for s t u :: "('w, 'z) kube_scheme"
    using that zone_of_append unfolding learns_def by fastforce
qed

lemma GetNodeZone_learns: "state_io_rel learns (GetNodeZone L n :: (('w, 'z) kube_scheme, _) state)"
proof (rule state_io_relI)
  fix s s' :: "('w, 'z) kube_scheme" and r
  assume run: "run_state (GetNodeZone L n) s = (r, s')"
  show "learns s s'"
  proof (cases "known_zone s n")
    case (Some z)
    with run show ?thesis by (simp add: GetNodeZone_hit learn_frame.frame_refl)
  next
    case None
    obtain a w where api: "api_get_node (kapi L) n (world s) = (a, w)" by force
    have "trace s' = trace s @ [AGetNode n a] \<and> known_zone s' = zone_of s [AGetNode n a]"
      using run None api
      by (cases a) (auto simp: GetNodeZone_miss Let_def known_zone_def zone_of_def node_zone_def nodeZoneLabelKey_def
          fun_eq_iff split: option.splits if_splits)
    then show ?thesis unfolding learns_def by (intro exI [of _ "[AGetNode n a]"]) simp
  qed
qed

lemma pod_zones_learns: "state_io_rel learns (pod_zones (GetNodeZone L) acc pods :: (('w, 'z) kube_scheme, _) state)"
  by (induction pods arbitrary: acc)
    (auto intro!: learn_frame.f_bind learn_frame.f_ret learn_frame.f_sum GetNodeZone_learns)

section \<open>The number of zones in use\<close>

text \<open>The zones of the nodes that the scheduled pods run on.\<close>

definition used_zones :: "(string \<Rightarrow> string option) \<Rightarrow> Pod list \<Rightarrow> string set" where
  "used_zones zone pods = {z. \<exists>p \<in> set pods. podNodeName p \<noteq> [] \<and> zone (podNodeName p) = Some z}"

lemma known_zone_nonempty: "known_zone s n = Some z \<Longrightarrow> z \<noteq> []"
  by (auto simp: known_zone_def split: option.splits if_splits)

text \<open>
  C27. When \<^verbatim>\<open>GetNumberOfAvailabilityZonesUsedByPods\<close> returns a number, it listed the pods once and then read
  nodes only, and the number is that of the distinct zones of the nodes the listed pods are scheduled on,
  where the zone of a node is the one in the cache or else the label of the node as it was read. Every such
  node has a zone, the cache holds exactly these zones afterwards, and no more zones are counted than there
  are scheduled pods.
\<close>

theorem az_count_exact:
  fixes s :: "('w, 'z) kube_scheme"
  assumes "run_state (GetNumberOfAvailabilityZonesUsedByPods L ns lbls) s = (Inr n, s')"
  shows "\<exists>pods as. trace s' = trace s @ AListPods ns (SetSelector lbls) (Inr pods) # as \<and>
    list_all (\<lambda>a. \<exists>m r. a = AGetNode m r) as \<and>
    n = int (card (used_zones (zone_of s as) pods)) \<and>
    (\<forall>p \<in> set pods. podNodeName p \<noteq> [] \<longrightarrow> zone_of s as (podNodeName p) \<noteq> None) \<and>
    known_zone s' = zone_of s as \<and>
    card (used_zones (zone_of s as) pods) \<le> length (filter (\<lambda>p. podNodeName p \<noteq> []) pods)"
proof -
  obtain r w where api: "api_list_pods (kapi L) ns (SetSelector lbls) (world s) = (r, w)" by force
  let ?s1 = "s\<lparr>world := w, trace := trace s @ [AListPods ns (SetSelector lbls) r]\<rparr>"
  from assms api obtain pods m where r: "r = Inr pods" and n: "n = int (length m)"
    and loop: "run_state (pod_zones (GetNodeZone L) [] pods) ?s1 = (Inr m, s')"
    by (auto simp: GetNumberOfAvailabilityZonesUsedByPods_def GetPodsByLabels_def clientListPods_def
        split: sum.splits prod.splits)
  from state_io_relD [OF pod_zones_learns loop] obtain as where as: "trace s' = trace ?s1 @ as"
    "list_all (\<lambda>a. \<exists>m r. a = AGetNode m r) as" and k: "known_zone s' = zone_of s as"
    by (auto simp: learns_def zone_of_def [abs_def])
  from zones.pod_zones_result [OF loop] have d: "distinct (map fst m)"
    and set: "fst ` set m = used_zones (zone_of s as) pods"
    and all: "\<forall>p \<in> set pods. podNodeName p \<noteq> [] \<longrightarrow> zone_of s as (podNodeName p) \<noteq> None"
    by (auto simp: used_zones_def k)
  have card: "length m = card (used_zones (zone_of s as) pods)"
    using distinct_card [OF d] set by simp
  have "used_zones (zone_of s as) pods \<subseteq>
      (\<lambda>p. the (zone_of s as (podNodeName p))) ` set (filter (\<lambda>p. podNodeName p \<noteq> []) pods)"
    by (force simp: used_zones_def)
  then have "card (used_zones (zone_of s as) pods) \<le> length (filter (\<lambda>p. podNodeName p \<noteq> []) pods)"
    by (meson List.finite_set card_image_le card_length card_mono finite_imageI le_trans)
  with as r n card all k show ?thesis
    by (intro exI [of _ pods] exI [of _ as]) simp
qed

definition demo_kube :: "demo_world kube" where
  "demo_kube = \<lparr>world = demo_start, trace = [], nodesZoneCache = Map.empty\<rparr>"

theorem az_count_exact_witness:
  "fst (run_state (GetNumberOfAvailabilityZonesUsedByPods (demo_libs []) ''kyma-system'' []) demo_kube) = Inr 2 \<and>
   (\<exists>pods as. trace (snd (run_state (GetNumberOfAvailabilityZonesUsedByPods (demo_libs []) ''kyma-system'' []) demo_kube)) =
       AListPods ''kyma-system'' (SetSelector []) (Inr pods) # as \<and>
     card (used_zones (zone_of demo_kube as) pods) = 2)"
proof -
  let ?run = "run_state (GetNumberOfAvailabilityZonesUsedByPods (demo_libs []) ''kyma-system'' []) demo_kube"
  have two: "fst ?run = Inr 2" by code_simp
  then have "?run = (Inr 2, snd ?run)" by (metis prod.collapse)
  from az_count_exact [OF this] obtain pods as where
    "trace (snd ?run) = trace demo_kube @ AListPods ''kyma-system'' (SetSelector []) (Inr pods) # as"
    "2 = int (card (used_zones (zone_of demo_kube as) pods))" by blast
  with two show ?thesis by (auto simp: demo_kube_def)
qed

section \<open>Deleting volume claims\<close>

fun deleted_pvc :: "action \<Rightarrow> (PVC \<times> go_error option) option" where
  "deleted_pvc (ADeletePVC pvc err) = Some (pvc, err)"
| "deleted_pvc _ = None"

definition pvc_log :: "('w, 'z) host_scheme \<Rightarrow> (PVC \<times> go_error option) list" where
  "pvc_log s = collect deleted_pvc (trace s)"

definition delete_guarded :: "'w libs \<Rightarrow> string \<Rightarrow> PVC \<Rightarrow> (('w, 'z) host_scheme, go_error option) state" where
  "delete_guarded L pre pvc =
     (if has_prefix (pvcName pvc) pre then clientDeletePVC L pvc else ret None)"

interpretation pvc_loop: logged_body "delete_guarded L pre :: _ \<Rightarrow> (('w, 'z) host_scheme, _) state"
  pvc_log "\<lambda>pvc. has_prefix (pvcName pvc) pre" for L :: "'w libs" and pre
  by unfold_locales
    (auto simp: delete_guarded_def clientDeletePVC_def pvc_log_def split: prod.splits if_splits)

text \<open>
  C28. \<^verbatim>\<open>DeletePVCsWithLabel\<close> deletes only claims that the label selector listed in the namespace and whose
  name starts with the given prefix, in the order listed. It succeeds exactly when every one of them was
  deleted without an error; otherwise it stops at the first deletion that failed and returns its error.
\<close>

theorem delete_pvcs_guarded:
  fixes s :: "('w, 'z) host_scheme"
  assumes "labels_parse (meta L) lbl = None"
    and "api_list_pvcs (kapi L) ns (ParsedSelector lbl) (world s) = (Inr items, w)"
    and "run_state (DeletePVCsWithLabel L lbl pre ns) s = (r, s')"
  shows "let own = filter (\<lambda>p. has_prefix (pvcName p) pre) items in
    (case r of
       None \<Rightarrow> pvc_log s' = pvc_log s @ map (\<lambda>p. (p, None)) own
     | Some e \<Rightarrow> \<exists>ps p qs. own = ps @ p # qs \<and>
         pvc_log s' = pvc_log s @ map (\<lambda>p. (p, None)) ps @ [(p, Some e)])"
proof -
  let ?s1 = "s\<lparr>world := w, trace := trace s @ [AListPVCs ns (ParsedSelector lbl) (Inr items)]\<rparr>"
  have log: "pvc_log ?s1 = pvc_log s" by (simp add: pvc_log_def)
  from assms have "run_state (for_each_err (delete_guarded L pre) items) ?s1 = (r, s')"
    by (cases items) (auto simp: DeletePVCsWithLabel_def clientListPVCs_def delete_guarded_def [abs_def])
  from pvc_loop.loop_log [OF this] show ?thesis unfolding log succeeded_def Let_def .
qed

text \<open>One claim of the example is deleted; when its deletion fails, the error is returned.\<close>

theorem delete_pvcs_guarded_witness:
  "(let pvc = \<lparr>pvcName = ''eventing-nats-js-0'', pvcNamespace = ''kyma-system''\<rparr>;
        run = run_state (DeletePVCsWithLabel (demo_libs []) ''l'' ''eventing'' ''kyma-system'');
        failing = demo_kube\<lparr>world := demo_start\<lparr>dPVCErr := Some not_found\<rparr>\<rparr> in
    fst (run demo_kube) = None \<and> pvc_log (snd (run demo_kube)) = [(pvc, None)] \<and>
    fst (run failing) = Some not_found \<and> pvc_log (snd (run failing)) = [(pvc, Some not_found)])"
proof -
  let ?run = "run_state (DeletePVCsWithLabel (demo_libs []) ''l'' ''eventing'' ''kyma-system'')"
  let ?f = "demo_kube\<lparr>world := demo_start\<lparr>dPVCErr := Some not_found\<rparr>\<rparr>"
  have res: "fst (?run demo_kube) = None" "fst (?run ?f) = Some not_found" by code_simp+
  then have run: "?run demo_kube = (None, snd (?run demo_kube))" "?run ?f = (Some not_found, snd (?run ?f))"
    by (metis prod.collapse)+
  have parse: "labels_parse (meta (demo_libs [])) ''l'' = None" by code_simp
  have list: "api_list_pvcs (kapi (demo_libs [])) ''kyma-system'' (ParsedSelector ''l'') (world demo_kube) =
      (Inr (dPVCs demo_start), demo_start)"
    "api_list_pvcs (kapi (demo_libs [])) ''kyma-system'' (ParsedSelector ''l'') (world ?f) =
      (Inr (dPVCs demo_start), demo_start\<lparr>dPVCErr := Some not_found\<rparr>)"
    by (simp_all add: demo_defs demo_kube_def)
  have own: "filter (\<lambda>p. has_prefix (pvcName p) ''eventing'') (dPVCs demo_start) =
      [\<lparr>pvcName = ''eventing-nats-js-0'', pvcNamespace = ''kyma-system''\<rparr>]"
    by (simp add: demo_start_def has_prefix_def)
  have start: "pvc_log demo_kube = []" "pvc_log ?f = []" by (simp_all add: pvc_log_def demo_kube_def)
  from delete_pvcs_guarded [OF parse list(1) run(1)] delete_pvcs_guarded [OF parse list(2) run(2)]
  show ?thesis using res by (auto simp: Let_def own start Cons_eq_append_conv)
qed

end
