(* ===== verification/Chart.thy ===== *)
theory Chart
  imports KubeClient
begin

text \<open>
  \<^verbatim>\<open>pkg/k8s/chart\<close>: release instances and their configuration (dotted keys turned into nested maps),
  the parsing of a rendered manifest into objects, and the Helm renderer. The renderer keeps the
  chart's values as state: \<^verbatim>\<open>overrideChartConfiguration\<close> hands the chart's own map to \<^verbatim>\<open>mergo.Merge\<close> as
  the destination, so every render changes the values the next one starts from.
\<close>

section \<open>Nested maps\<close>

text \<open>The value at a path of keys.\<close>

fun get_at :: "val \<Rightarrow> string list \<Rightarrow> val option" where
  "get_at v [] = Some v"
| "get_at (VMap m) (k # ks) = (case map_of m k of None \<Rightarrow> None | Some v \<Rightarrow> get_at v ks)"
| "get_at v (k # ks) = None"

text \<open>Assignment to a key of the map found at a path, as \<^verbatim>\<open>lastNestedMap[token] = v\<close> through the alias.\<close>

fun put_at :: "obj \<Rightarrow> string list \<Rightarrow> string \<Rightarrow> val \<Rightarrow> obj" where
  "put_at m [] k v = AList.update k v m"
| "put_at m (t # ts) k v =
     (case map_of m t of
        Some (VMap m') \<Rightarrow> AList.update t (VMap (put_at m' ts k v)) m
      | _ \<Rightarrow> m)"

text \<open>The nested map with one value at the end of a path: the specification of a converted key.\<close>

fun nest :: "string list \<Rightarrow> val \<Rightarrow> obj" where
  "nest [] v = []"
| "nest [t] v = [(t, v)]"
| "nest (t # u # ts) v = [(t, VMap (nest (u # ts) v))]"

fun wrap_path :: "string list \<Rightarrow> obj \<Rightarrow> obj" where
  "wrap_path [] m = m"
| "wrap_path (t # ts) m = [(t, VMap (wrap_path ts m))]"

lemma put_at_wrap: "put_at (wrap_path p m) p k v = wrap_path p (AList.update k v m)"
  by (induction p) auto

lemma wrap_snoc: "wrap_path (p @ [t]) m = wrap_path p [(t, VMap m)]"
  by (induction p) auto

lemma get_at_wrap: "get_at (VMap (wrap_path p m)) (p @ q) = get_at (VMap m) q"
  by (induction p) auto

lemma get_at_append: "get_at v (p @ q) = (case get_at v p of None \<Rightarrow> None | Some w \<Rightarrow> get_at w q)"
  by (induction v p rule: get_at.induct) (auto split: option.splits)

lemma get_at_nest:
  "p \<noteq> [] \<Longrightarrow> get_at (VMap (nest p v)) q =
     (if prefix p q then get_at v (drop (length p) q)
      else if prefix q p then Some (VMap (nest (drop (length q) p) v))
      else None)"
proof (induction p v arbitrary: q rule: nest.induct)
  case (1 v)
  then show ?case by simp
next
  case (2 t v)
  then show ?case by (cases q) auto
next
  case (3 t u ts v)
  then show ?case by (cases q) (auto simp del: nest.simps(2))
qed

section \<open>Release instances\<close>

record ManifestResources =
  mrItems :: "obj list"
  mrBlobs :: "string list"

record ReleaseInstance =
  riName :: string
  riNamespace :: string
  riIstioEnabled :: bool
  riConfiguration :: obj
  riRenderedManifests :: ManifestResources

definition emptyManifests :: ManifestResources where
  "emptyManifests = \<lparr>mrItems = [], mrBlobs = []\<rparr>"

definition NewReleaseInstance :: "string \<Rightarrow> string \<Rightarrow> bool \<Rightarrow> obj \<Rightarrow> ReleaseInstance" where
  "NewReleaseInstance name namespace istioEnabled configuration =
     \<lparr>riName = name, riNamespace = namespace, riIstioEnabled = istioEnabled,
      riConfiguration = configuration, riRenderedManifests = emptyManifests\<rparr>"

definition SetRenderedManifests :: "ReleaseInstance \<Rightarrow> ManifestResources \<Rightarrow> ReleaseInstance" where
  "SetRenderedManifests c renderedManifests = c\<lparr>riRenderedManifests := renderedManifests\<rparr>"

definition IsStatefulSetObject :: "meta_lib \<Rightarrow> obj \<Rightarrow> bool" where
  "IsStatefulSetObject M u = (obj_kind M u = ''StatefulSet'')"

fun statefulsets_loop :: "meta_lib \<Rightarrow> obj list \<Rightarrow> obj list \<Rightarrow> obj list" where
  "statefulsets_loop M result [] = result"
| "statefulsets_loop M result (r # rs) =
     (if IsStatefulSetObject M r then statefulsets_loop M (result @ [r]) rs
      else statefulsets_loop M result rs)"

definition GetStatefulSets :: "meta_lib \<Rightarrow> ReleaseInstance \<Rightarrow> obj list" where
  "GetStatefulSets M c = statefulsets_loop M [] (mrItems (riRenderedManifests c))"

lemma GetStatefulSets_filter:
  "GetStatefulSets M c = filter (IsStatefulSetObject M) (mrItems (riRenderedManifests c))"
proof -
  have "statefulsets_loop M acc xs = acc @ filter (IsStatefulSetObject M) xs" for acc xs
    by (induction xs arbitrary: acc) auto
  then show ?thesis by (simp add: GetStatefulSets_def)
qed

text \<open>
  The loop of \<^verbatim>\<open>convertToNestedMap\<close>: \<open>pos\<close> is the position of \<^verbatim>\<open>lastNestedMap\<close> inside \<^verbatim>\<open>result\<close>, to
  which it is an alias; the pos token gets the value, any other a new map to descend into.
\<close>

fun nest_loop :: "obj \<Rightarrow> string list \<Rightarrow> nat \<Rightarrow> nat \<Rightarrow> string list \<Rightarrow> val \<Rightarrow> go_error + obj" where
  "nest_loop result pos depth n [] value = Inr result"
| "nest_loop result pos depth n (token # tokens) value =
     (if depth = n - 1 then
        nest_loop (put_at result pos token value) pos (Suc depth) n tokens value
      else
        (let result = put_at result pos token (VMap []) in
         case get_at (VMap result) (pos @ [token]) of
           Some (VMap _) \<Rightarrow> nest_loop result (pos @ [token]) (Suc depth) n tokens value
         | _ \<Rightarrow> Inl (Sentinel ErrFailedToConvertToNestedMap)))"

definition convertToNestedMap :: "string \<Rightarrow> val \<Rightarrow> go_error + obj" where
  "convertToNestedMap key value =
     (let tokens = split_on (CHR ''.'') key in nest_loop [] [] 0 (length tokens) tokens value)"

lemma nest_loop_nest:
  "ts \<noteq> [] \<Longrightarrow> d + length ts = n \<Longrightarrow>
   nest_loop (wrap_path p []) p d n ts v = Inr (wrap_path p (nest ts v))"
proof (induction ts arbitrary: p d)
  case Nil
  then show ?case by simp
next
  case (Cons t ts)
  show ?case
  proof (cases ts)
    case Nil
    with Cons.prems have "d = n - 1" by simp
    with Nil show ?thesis by (simp add: put_at_wrap)
  next
    case (Cons u us)
    have deep: "d \<noteq> n - 1" using Cons.prems Cons by simp
    have put: "put_at (wrap_path p []) p t (VMap []) = wrap_path (p @ [t]) []"
      by (simp add: put_at_wrap wrap_snoc)
    have get: "get_at (VMap (wrap_path (p @ [t]) [])) (p @ [t]) = Some (VMap [])"
      using get_at_wrap [of "p @ [t]" "[]" "[]"] by simp
    have "nest_loop (wrap_path (p @ [t]) []) (p @ [t]) (Suc d) n ts v =
        Inr (wrap_path (p @ [t]) (nest ts v))"
      by (rule Cons.IH) (use Cons.prems Cons in auto)
    then show ?thesis
      using Cons deep put get by (simp add: Let_def wrap_snoc)
  qed
qed

lemma convertToNestedMap_nest:
  "convertToNestedMap key v = Inr (nest (split_on (CHR ''.'') key) v)"
  using nest_loop_nest [of "split_on (CHR ''.'') key" 0 _ "[]" v]
  by (simp add: convertToNestedMap_def Let_def)

text \<open>
  C30. \<^verbatim>\<open>convertToNestedMap\<close> never returns its error, and in the map it returns the value is found at the
  path of the dot-separated tokens of the key; every other path leads into the value, to a map on
  the way to it, or nowhere.
\<close>

theorem nested_map_lookup:
  "\<exists>m. convertToNestedMap key v = Inr m \<and>
     (\<forall>q. get_at (VMap m) q =
       (let p = split_on (CHR ''.'') key in
        if prefix p q then get_at v (drop (length p) q)
        else if prefix q p then Some (VMap (nest (drop (length q) p) v)) else None))"
  by (simp add: convertToNestedMap_nest get_at_nest Let_def)

text \<open>\<^verbatim>\<open>GetConfiguration\<close>: the entries in the order in which Go happens to range over the map.\<close>

fun config_loop :: "'w helm_lib \<Rightarrow> obj \<Rightarrow> obj \<Rightarrow> go_error + obj" where
  "config_loop H result [] = Inr result"
| "config_loop H result ((key, value) # rest) =
     (case convertToNestedMap key value of
        Inl err \<Rightarrow> Inl err
      | Inr nestedMap \<Rightarrow>
          (case hl_merge H result nestedMap of
             (Some err, _) \<Rightarrow> Inl err
           | (None, result) \<Rightarrow> config_loop H result rest))"

definition GetConfiguration :: "'w helm_lib \<Rightarrow> ReleaseInstance \<Rightarrow> go_error + obj" where
  "GetConfiguration H c = config_loop H [] (riConfiguration c)"

section \<open>Parsing a manifest\<close>

text \<open>
  \<^verbatim>\<open>bytes.TrimSpace\<close>: white space is what \<^verbatim>\<open>unicode.IsSpace\<close> accepts, here by its UTF-8 bytes (the ASCII
  spaces, U+0085, U+00A0, U+1680, U+2000 to U+200A, U+2028, U+2029, U+202F, U+205F, U+3000).
\<close>

definition ascii_space :: "char \<Rightarrow> bool" where
  "ascii_space c = List.member [0x09, 0x0A, 0x0B, 0x0C, 0x0D, 0x20] (of_char c :: nat)"

fun utf8_space :: "nat list \<Rightarrow> bool" where
  "utf8_space [a, b] = (a = 0xC2 \<and> (b = 0x85 \<or> b = 0xA0))"
| "utf8_space [a, b, c] =
     ((a = 0xE1 \<and> b = 0x9A \<and> c = 0x80) \<or>
      (a = 0xE2 \<and> b = 0x80 \<and> (0x80 \<le> c \<and> c \<le> 0x8A \<or> c = 0xA8 \<or> c = 0xA9 \<or> c = 0xAF)) \<or>
      (a = 0xE2 \<and> b = 0x81 \<and> c = 0x9F) \<or> (a = 0xE3 \<and> b = 0x80 \<and> c = 0x80))"
| "utf8_space _ = False"

definition space_prefix :: "string \<Rightarrow> nat" where
  "space_prefix s =
     (let codes = map of_char s :: nat list in
      if s \<noteq> [] \<and> ascii_space (hd s) then 1
      else if utf8_space (take 2 codes) then 2
      else if utf8_space (take 3 codes) then 3 else 0)"

definition space_suffix :: "string \<Rightarrow> nat" where
  "space_suffix s =
     (let codes = map of_char s :: nat list; n = length s in
      if s \<noteq> [] \<and> ascii_space (last s) then 1
      else if utf8_space (drop (n - 2) codes) then 2
      else if utf8_space (drop (n - 3) codes) then 3 else 0)"

function trim_left :: "string \<Rightarrow> string" where
  "trim_left s = (if s \<noteq> [] \<and> 0 < space_prefix s then trim_left (drop (space_prefix s) s) else s)"
  by pat_completeness auto
termination
  by (relation "measure length") auto

function trim_right :: "string \<Rightarrow> string" where
  "trim_right s =
     (if s \<noteq> [] \<and> 0 < space_suffix s then trim_right (take (length s - space_suffix s) s) else s)"
  by pat_completeness auto
termination
  by (relation "measure length") auto

declare trim_left.simps [simp del] trim_right.simps [simp del]

definition TrimSpace :: "string \<Rightarrow> string" where
  "TrimSpace s = trim_right (trim_left s)"

definition TrimPrefix :: "string \<Rightarrow> string \<Rightarrow> string" where
  "TrimPrefix s p = (if has_prefix s p then drop (length p) s else s)"

text \<open>The loop of \<^verbatim>\<open>ParseManifestStringToObjects\<close> over what the reader returns, ended by its error.\<close>

fun parse_loop :: "'w helm_lib \<Rightarrow> ManifestResources \<Rightarrow> string list \<Rightarrow> go_error \<Rightarrow> go_error + ManifestResources" where
  "parse_loop H objects [] err =
     (if errors_is err io_EOF then Inr objects
      else Inl (Errorf (''invalid YAML doc: '' @ error_text err) (Some err)))"
| "parse_loop H objects (doc # docs) err =
     (let rawBytes = TrimSpace doc;
          (uerr, unstructuredObj) = hl_yaml_unmarshal H rawBytes;
          objects = (if uerr \<noteq> None
            then objects\<lparr>mrBlobs := mrBlobs objects @ [TrimPrefix rawBytes (''---'' @ [CHR 0x0A]) @ [CHR 0x0A]]\<rparr>
            else objects)
      in if length rawBytes = 0 \<or> rawBytes = ''null'' \<or> length unstructuredObj = 0
         then parse_loop H objects docs err
         else parse_loop H (objects\<lparr>mrItems := mrItems objects @ [unstructuredObj]\<rparr>) docs err)"

definition ParseManifestStringToObjects :: "'w helm_lib \<Rightarrow> string \<Rightarrow> go_error + ManifestResources" where
  "ParseManifestStringToObjects H manifest =
     (case hl_yaml_docs H manifest of (docs, err) \<Rightarrow> parse_loop H emptyManifests docs err)"

text \<open>The object a document stands for, if any.\<close>

definition doc_object :: "'w helm_lib \<Rightarrow> string \<Rightarrow> obj option" where
  "doc_object H doc =
     (let raw = TrimSpace doc; m = snd (hl_yaml_unmarshal H raw) in
      if raw = [] \<or> raw = ''null'' \<or> m = [] then None else Some m)"

definition doc_blob :: "'w helm_lib \<Rightarrow> string \<Rightarrow> string option" where
  "doc_blob H doc =
     (let raw = TrimSpace doc in
      if fst (hl_yaml_unmarshal H raw) = None then None
      else Some (TrimPrefix raw (''---'' @ [CHR 0x0A]) @ [CHR 0x0A]))"

lemma parse_loop_eq:
  "parse_loop H objs docs err =
     (if errors_is err io_EOF
      then Inr (objs\<lparr>mrItems := mrItems objs @ collect (doc_object H) docs,
                     mrBlobs := mrBlobs objs @ collect (doc_blob H) docs\<rparr>)
      else Inl (Errorf (''invalid YAML doc: '' @ error_text err) (Some err)))"
  by (induction docs arbitrary: objs)
    (auto simp: Let_def doc_object_def doc_blob_def split: prod.splits)

text \<open>
  C31. \<^verbatim>\<open>ParseManifestStringToObjects\<close> returns, in order, exactly the objects of the documents that are
  neither empty, nor \<^verbatim>\<open>null\<close>, nor without content, and the undecodable documents as blobs; it fails
  exactly when the reader stops with an error that is not the end of the file, which it wraps.
\<close>

theorem parse_manifest_spec:
  "ParseManifestStringToObjects H manifest =
     (let (docs, err) = hl_yaml_docs H manifest in
      if errors_is err io_EOF
      then Inr \<lparr>mrItems = collect (doc_object H) docs, mrBlobs = collect (doc_blob H) docs\<rparr>
      else Inl (Errorf (''invalid YAML doc: '' @ error_text err) (Some err)))"
  by (simp add: ParseManifestStringToObjects_def parse_loop_eq emptyManifests_def split: prod.splits)

section \<open>What mergo.Merge promises\<close>

text \<open>
  Documented: with \<^verbatim>\<open>WithOverride\<close>, maps are merged key by key and recursively, and a value of the source
  replaces the destination's. \<open>merge_law\<close> says this for scalars and for paths the destination does not
  have, and that paths the source does not touch keep what the destination has there.
\<close>

fun is_map :: "val \<Rightarrow> bool" where
  "is_map (VMap m) = True"
| "is_map v = False"

fun scalar :: "val \<Rightarrow> bool" where
  "scalar (VBool b) = True"
| "scalar (VInt i) = True"
| "scalar (VStr s) = True"
| "scalar v = False"

text \<open>Go maps have distinct keys, at every depth.\<close>

fun wf_val :: "val \<Rightarrow> bool" where
  "wf_val (VMap m) = (distinct (map fst m) \<and> list_all (\<lambda>kv. wf_val (snd kv)) m)"
| "wf_val v = True"

definition apart :: "obj \<Rightarrow> string list \<Rightarrow> bool" where
  "apart src q \<longleftrightarrow> get_at (VMap src) q = None \<and>
     (\<forall>p v. prefix p q \<longrightarrow> get_at (VMap src) p = Some v \<longrightarrow> is_map v)"

definition merge_law :: "'w helm_lib \<Rightarrow> bool" where
  "merge_law H \<longleftrightarrow> (\<forall>dst src. wf_val (VMap src) \<longrightarrow>
     (\<exists>dst'. hl_merge H dst src = (None, dst') \<and>
       (\<forall>q v. get_at (VMap src) q = Some v \<longrightarrow> \<not> is_map v \<longrightarrow>
          scalar v \<or> get_at (VMap dst) q = None \<longrightarrow> get_at (VMap dst') q = Some v) \<and>
       (\<forall>q. apart src q \<longrightarrow> get_at (VMap dst') q = get_at (VMap dst) q)))"

lemma merge_lawE:
  assumes "merge_law H" "wf_val (VMap src)"
  obtains dst' where "hl_merge H dst src = (None, dst')"
    and "\<And>q v. get_at (VMap src) q = Some v \<Longrightarrow> \<not> is_map v \<Longrightarrow>
      scalar v \<or> get_at (VMap dst) q = None \<Longrightarrow> get_at (VMap dst') q = Some v"
    and "\<And>q. apart src q \<Longrightarrow> get_at (VMap dst') q = get_at (VMap dst) q"
  using assms unfolding merge_law_def by meson

text \<open>The deep merge of \<open>Demo\<close> keeps the law.\<close>

lemma map_of_merge:
  "distinct (map fst s) \<Longrightarrow> map_of (merge_obj d s) k =
     (case map_of s k of None \<Rightarrow> map_of d k
      | Some v \<Rightarrow> Some (case map_of d k of None \<Rightarrow> v | Some dv \<Rightarrow> merge_val dv v))"
proof (induction s arbitrary: d)
  case Nil
  then show ?case by simp
next
  case (Cons kv s)
  obtain k' v where kv: "kv = (k', v)" by force
  with Cons.prems have "k' \<notin> fst ` set s" by simp
  then have "map_of s k' = None" by (simp add: map_of_eq_None_iff)
  with Cons kv show ?case
    by (cases "k = k'") (auto simp: update_conv' split: option.splits)
qed

lemma apart_Cons:
  assumes "apart s (k # ks)"
  shows "map_of s k = None \<or> (\<exists>m. map_of s k = Some (VMap m) \<and> apart m ks)"
proof (cases "map_of s k")
  case (Some v)
  have "is_map v"
    using assms Some unfolding apart_def by (elim conjE allE [of _ "[k]"] allE [of _ v]) auto
  then obtain m where v: "v = VMap m" by (cases v) auto
  have "apart m ks"
    unfolding apart_def
  proof (intro conjI allI impI)
    show "get_at (VMap m) ks = None" using assms Some v by (simp add: apart_def)
  next
    fix p w assume "prefix p ks" "get_at (VMap m) p = Some w"
    then have "prefix (k # p) (k # ks)" "get_at (VMap s) (k # p) = Some w" using Some v by simp_all
    with assms show "is_map w" unfolding apart_def by blast
  qed
  with Some v show ?thesis by simp
qed simp

lemma wf_val_member:
  assumes "wf_val (VMap s)" "map_of s k = Some v"
  shows "wf_val v"
proof -
  have "(k, v) \<in> set s" using assms(2) by (rule map_of_SomeD)
  moreover have "list_all (\<lambda>kv. wf_val (snd kv)) s" using assms(1) by simp
  ultimately show ?thesis by (auto simp: list_all_iff)
qed

lemma merge_obj_value:
  "wf_val (VMap s) \<Longrightarrow> get_at (VMap s) q = Some v \<Longrightarrow> \<not> is_map v \<Longrightarrow>
   get_at (VMap (merge_obj d s)) q = Some v"
proof (induction q arbitrary: s d)
  case Nil
  then have "is_map v" by auto
  with Nil show ?case by simp
next
  case (Cons k ks)
  then obtain sv where sv: "map_of s k = Some sv" "get_at sv ks = Some v"
    by (auto split: option.splits)
  have "wf_val sv" using wf_val_member [OF Cons.prems(1) sv(1)] .
  then have "get_at (merge_val dv sv) ks = Some v" for dv
    using Cons.IH [of _ _] sv Cons.prems(3) by (cases dv; cases sv) auto
  with sv Cons.prems show ?case by (auto simp: map_of_merge split: option.splits)
qed

lemma merge_obj_apart:
  "wf_val (VMap s) \<Longrightarrow> apart s q \<Longrightarrow> get_at (VMap (merge_obj d s)) q = get_at (VMap d) q"
proof (induction q arbitrary: s d)
  case Nil
  then show ?case by (simp add: apart_def)
next
  case (Cons k ks)
  from apart_Cons [OF Cons.prems(2)] show ?case
  proof
    assume "map_of s k = None"
    with Cons.prems show ?thesis by (simp add: map_of_merge)
  next
    assume "\<exists>m. map_of s k = Some (VMap m) \<and> apart m ks"
    then obtain m where m: "map_of s k = Some (VMap m)" "apart m ks" by blast
    have "wf_val (VMap m)" using wf_val_member [OF Cons.prems(1) m(1)] .
    note IH = Cons.IH [OF this m(2)]
    have none: "get_at (VMap m) ks = None" using m(2) by (simp add: apart_def)
    then have ne: "ks \<noteq> []" by auto
    show ?thesis
    proof (cases "map_of d k")
      case None
      with m none Cons.prems show ?thesis by (simp add: map_of_merge)
    next
      case (Some dv)
      have "get_at (merge_val dv (VMap m)) ks = get_at dv ks"
        using IH none ne by (cases dv; cases ks) auto
      with Some m Cons.prems show ?thesis by (simp add: map_of_merge)
    qed
  qed
qed

lemma demo_merge_law: "merge_law (demo_helm docs)"
  unfolding merge_law_def
  by (simp add: demo_helm_def merge_obj_value merge_obj_apart del: wf_val.simps)

section \<open>The configuration of a release\<close>

fun prefix_free :: "string list list \<Rightarrow> bool" where
  "prefix_free [] = True"
| "prefix_free (p # ps) = (list_all (\<lambda>q. \<not> prefix p q \<and> \<not> prefix q p) ps \<and> prefix_free ps)"

definition key_path :: "string \<Rightarrow> string list" where
  "key_path key = split_on (CHR ''.'') key"

definition unrelated :: "string list \<Rightarrow> string list \<Rightarrow> bool" where
  "unrelated p q \<longleftrightarrow> \<not> prefix p q \<and> \<not> prefix q p"

lemma apart_nest:
  assumes "p \<noteq> []" "unrelated p q"
  shows "apart (nest p v) q"
  unfolding apart_def
proof (intro conjI allI impI)
  show "get_at (VMap (nest p v)) q = None"
    using assms by (simp add: get_at_nest unrelated_def)
next
  fix r w assume "prefix r q" "get_at (VMap (nest p v)) r = Some w"
  moreover have "\<not> prefix p r" using assms(2) calculation(1) prefix_order.trans unrelated_def by blast
  ultimately show "is_map w" using assms(1) by (auto simp: get_at_nest split: if_splits)
qed

lemma wf_nest: "wf_val v \<Longrightarrow> wf_val (VMap (nest p v))"
  by (induction p v rule: nest.induct) auto

text \<open>What is true of the map built so far, \<open>done\<close> being the entries already merged.\<close>

definition config_inv :: "obj \<Rightarrow> obj \<Rightarrow> bool" where
  "config_inv merged r \<longleftrightarrow>
     (\<forall>(k, v) \<in> set merged. get_at (VMap r) (key_path k) = Some v) \<and>
     (\<forall>q. q \<noteq> [] \<longrightarrow> (\<forall>(k, v) \<in> set merged. unrelated (key_path k) q) \<longrightarrow> get_at (VMap r) q = None)"

lemma config_step:
  assumes law: "merge_law H" and inv: "config_inv merged r"
    and v: "\<not> is_map v" "wf_val v"
    and new: "\<forall>(k', v') \<in> set merged. unrelated (key_path k') (key_path k)"
  shows "\<exists>r'. hl_merge H r (nest (key_path k) v) = (None, r') \<and> config_inv ((k, v) # merged) r'"
proof -
  have ne: "key_path k \<noteq> []" by (simp add: key_path_def)
  have none: "get_at (VMap r) (key_path k) = None"
    using inv new ne unfolding config_inv_def by blast
  obtain r' where m: "hl_merge H r (nest (key_path k) v) = (None, r')"
    and val: "\<And>q w. get_at (VMap (nest (key_path k) v)) q = Some w \<Longrightarrow> \<not> is_map w \<Longrightarrow>
      scalar w \<or> get_at (VMap r) q = None \<Longrightarrow> get_at (VMap r') q = Some w"
    and keep: "\<And>q. apart (nest (key_path k) v) q \<Longrightarrow> get_at (VMap r') q = get_at (VMap r) q"
    by (rule merge_lawE [OF law wf_nest [OF v(2)], of r "key_path k"]) blast
  have "get_at (VMap r') (key_path k) = Some v"
    by (rule val) (use v ne none in \<open>simp_all add: get_at_nest\<close>)
  moreover have "get_at (VMap r') (key_path k') = Some v'" if "(k', v') \<in> set merged" for k' v'
  proof -
    have "unrelated (key_path k) (key_path k')" using new that by (auto simp: unrelated_def)
    with keep [OF apart_nest [OF ne]] inv that show ?thesis by (auto simp: config_inv_def)
  qed
  moreover have "get_at (VMap r') q = None"
    if "q \<noteq> []" "\<forall>(k', v') \<in> set ((k, v) # merged). unrelated (key_path k') q" for q
    using keep [OF apart_nest [OF ne]] inv that by (auto simp: config_inv_def)
  ultimately show ?thesis using m unfolding config_inv_def by auto
qed

lemma config_loop_inv:
  assumes "merge_law H"
  shows "config_inv merged r \<Longrightarrow> \<forall>(k, v) \<in> set cfg. \<not> is_map v \<and> wf_val v \<Longrightarrow>
    prefix_free (map (\<lambda>kv. key_path (fst kv)) cfg) \<Longrightarrow>
    \<forall>(k', v') \<in> set merged. \<forall>(k, v) \<in> set cfg. unrelated (key_path k') (key_path k) \<Longrightarrow>
    \<exists>r'. config_loop H r cfg = Inr r' \<and> config_inv (rev cfg @ merged) r'"
proof (induction cfg arbitrary: merged r)
  case Nil
  then show ?case by simp
next
  case (Cons kv cfg)
  obtain k v where kv: "kv = (k, v)" by force
  have "\<not> is_map v" "wf_val v" using Cons.prems(2) kv by auto
  moreover have "\<forall>(k', v') \<in> set merged. unrelated (key_path k') (key_path k)"
    using Cons.prems(4) kv by auto
  ultimately obtain r1 where m: "hl_merge H r (nest (key_path k) v) = (None, r1)"
    and inv: "config_inv ((k, v) # merged) r1"
    using config_step [OF assms Cons.prems(1)] by blast
  have "\<forall>(k', v') \<in> set ((k, v) # merged). \<forall>(k2, v2) \<in> set cfg. unrelated (key_path k') (key_path k2)"
    using Cons.prems(3,4) kv by (auto simp: unrelated_def list_all_iff)
  from Cons.IH [OF inv _ _ this] Cons.prems(2,3) kv obtain r' where
    "config_loop H r1 cfg = Inr r'" "config_inv (rev cfg @ (k, v) # merged) r'" by auto
  then show ?case
    using m kv by (auto simp: convertToNestedMap_nest key_path_def)
qed

lemma config_values:
  assumes "merge_law H"
    and "prefix_free (map (\<lambda>kv. key_path (fst kv)) (riConfiguration c))"
    and "\<forall>(k, v) \<in> set (riConfiguration c). \<not> is_map v \<and> wf_val v"
  shows "\<exists>r. GetConfiguration H c = Inr r \<and>
    (\<forall>(k, v) \<in> set (riConfiguration c). get_at (VMap r) (key_path k) = Some v) \<and>
    (\<forall>q. q \<noteq> [] \<longrightarrow> (\<forall>(k, v) \<in> set (riConfiguration c). unrelated (key_path k) q) \<longrightarrow>
      get_at (VMap r) q = None)"
proof -
  have "config_inv [] []"
    by (auto simp: config_inv_def neq_Nil_conv)
  from config_loop_inv [OF assms(1) this assms(3,2)] show ?thesis
    by (auto simp: GetConfiguration_def config_inv_def)
qed

text \<open>
  C29. When no key's path leads through another's and mergo behaves as documented, \<^verbatim>\<open>GetConfiguration\<close>
  succeeds whatever the order in which Go ranges over the map: every value is found at the path of
  its key, and nothing is found at a path unrelated to all keys.
\<close>

theorem get_configuration_exact:
  assumes "merge_law H"
    and "prefix_free (map (\<lambda>kv. key_path (fst kv)) (riConfiguration c))"
    and "\<forall>(k, v) \<in> set (riConfiguration c). \<not> is_map v \<and> wf_val v"
  shows "\<exists>r. GetConfiguration H c = Inr r \<and>
    (\<forall>(k, v) \<in> set (riConfiguration c). get_at (VMap r) (key_path k) = Some v) \<and>
    (\<forall>q. q \<noteq> [] \<longrightarrow> (\<forall>(k, v) \<in> set (riConfiguration c). unrelated (key_path k) q) \<longrightarrow>
      get_at (VMap r) q = None)"
  using config_values [OF assms] .

theorem get_configuration_exact_witness:
  "\<exists>r. GetConfiguration (demo_helm [])
      (NewReleaseInstance [] [] False [(''a.b'', VInt 1), (''a.c'', VStrMap [(''x'', ''y'')])]) = Inr r \<and>
    get_at (VMap r) [''a'', ''b''] = Some (VInt 1)"
proof -
  let ?c = "NewReleaseInstance [] [] False [(''a.b'', VInt 1), (''a.c'', VStrMap [(''x'', ''y'')])]"
  have "prefix_free (map (\<lambda>kv. key_path (fst kv)) (riConfiguration ?c))" by code_simp
  moreover have "\<forall>(k, v) \<in> set (riConfiguration ?c). \<not> is_map v \<and> wf_val v"
    by (simp add: NewReleaseInstance_def)
  moreover have "key_path ''a.b'' = [''a'', ''b'']" by code_simp
  ultimately show ?thesis
    using get_configuration_exact [OF demo_merge_law, of ?c "[]"]
    by (simp add: NewReleaseInstance_def) metis
qed

section \<open>The Helm renderer\<close>

text \<open>
  \<^verbatim>\<open>HelmRenderer\<close> holds the chart; what changes of it is the map \<^verbatim>\<open>helmChart.Values\<close>, which is part of
  the state here.
\<close>

record 'w rend = "'w kube" +
  helmValues :: obj

definition quoted :: "string \<Rightarrow> string" where
  "quoted s = [CHR 0x27] @ s @ [CHR 0x27]"

definition NewHelmRenderer ::
  "'w libs \<Rightarrow> (string \<Rightarrow> bool option \<times> bool option) \<Rightarrow> string \<Rightarrow>
   (('w, 'z) host_scheme, obj option \<times> go_error option) state" where
  "NewHelmRenderer L stat chartPath =
     (if \<not> DirExists stat chartPath then
        ret (None, Some (Errorf (''HELM chart directory '' @ quoted chartPath @ '' not found'') None))
      else do {
        r \<leftarrow> ext_call (hl_load (helm L) chartPath) (AHelmLoad chartPath);
        (case r of
           Inl err \<Rightarrow> ret (None, hl_wrap (helm L) (Some err) ''loader failed to load helm chart'')
         | Inr values \<Rightarrow> ret (Some values, None))
      })"

definition getChartConfiguration :: "(('w, 'z) rend_scheme, obj) state" where
  "getChartConfiguration = gets helmValues"

text \<open>
  The map returned by \<^verbatim>\<open>getChartConfiguration\<close> is the chart's own: merging into it (also when the merge
  fails half way) changes the chart's values.
\<close>

definition overrideChartConfiguration ::
  "'w libs \<Rightarrow> ReleaseInstance \<Rightarrow> (('w, 'z) rend_scheme, obj \<times> go_error option) state" where
  "overrideChartConfiguration L releaseInstance = do {
     result \<leftarrow> getChartConfiguration;
     (case GetConfiguration (helm L) releaseInstance of
        Inl err \<Rightarrow> ret ([], Some err)
      | Inr releaseInstanceConfig \<Rightarrow>
          (case hl_merge (helm L) result releaseInstanceConfig of (err, merged) \<Rightarrow> do {
             modify (\<lambda>s. s\<lparr>helmValues := merged\<rparr>);
             (case err of
                Some e \<Rightarrow> ret ([], hl_wrap (helm L) (Some e)
                  (''failed to merge chart configurations with ReleaseInstance configuration for ReleaseInstance '' @
                   quoted (riName releaseInstance)))
              | None \<Rightarrow> ret (merged, None))
           }))
   }"

definition newActionConfig :: "'w libs \<Rightarrow> string \<Rightarrow> (('w, 'z) host_scheme, go_error option) state" where
  "newActionConfig L namespace = ext_call (hl_init (helm L) namespace) (AHelmInit namespace)"

definition newTemplatingAction ::
  "'w libs \<Rightarrow> ReleaseInstance \<Rightarrow> (('w, 'z) host_scheme, go_error + install_action) state" where
  "newTemplatingAction L releaseInstance = do {
     err \<leftarrow> newActionConfig L (riNamespace releaseInstance);
     (case err of
        Some e \<Rightarrow> ret (Inl e)
      | None \<Rightarrow> ret (Inr \<lparr>iaReleaseName = riName releaseInstance,
          iaNamespace = riNamespace releaseInstance, iaAtomic = True, iaWait = True,
          iaCreateNamespace = True, iaDryRun = True, iaReplace = True, iaIncludeCRDs = True,
          iaClientOnly = True\<rparr>))
   }"

text \<open>\<^verbatim>\<open>tplAction.Run(c.helmChart, config)\<close>: Helm may change the chart's values.\<close>

definition helmRun ::
  "'w libs \<Rightarrow> install_action \<Rightarrow> obj \<Rightarrow> (('w, 'z) rend_scheme, go_error option \<times> string option) state" where
  "helmRun L ia config = do {
     vals \<leftarrow> gets helmValues;
     r \<leftarrow> ext_call (hl_run (helm L) ia vals config)
       (\<lambda>r. AHelmRun ia config (fst (fst r)) (snd (fst r)));
     (case r of (res, vals) \<Rightarrow> do {
        modify (\<lambda>s. s\<lparr>helmValues := vals\<rparr>);
        ret res
      })
   }"

text \<open>A manifest and an error, as in Go: \<^verbatim>\<open>errors.Wrap\<close> of a nil error is whatever it returns.\<close>

definition RenderManifest ::
  "'w libs \<Rightarrow> ReleaseInstance \<Rightarrow> (('w, 'z) rend_scheme, string \<times> go_error option) state" where
  "RenderManifest L releaseInstance = do {
     r \<leftarrow> overrideChartConfiguration L releaseInstance;
     (case r of (config, err) \<Rightarrow>
       (case err of
          Some e \<Rightarrow> ret ([], hl_wrap (helm L) (Some e) ''failed to merge chart configuration'')
        | None \<Rightarrow> do {
            t \<leftarrow> newTemplatingAction L releaseInstance;
            (case t of
               Inl e \<Rightarrow> ret ([], hl_wrap (helm L) (Some e) ''templating action failed'')
             | Inr tplAction \<Rightarrow> do {
                 r \<leftarrow> helmRun L tplAction config;
                 (case r of (err, helmRelease) \<Rightarrow>
                   (if err \<noteq> None \<or> helmRelease = None
                    then ret ([], hl_wrap (helm L) err
                        (''Failed to render HELM template for ReleaseInstance '' @
                         quoted (riName releaseInstance)))
                    else ret (the helmRelease, None)))
               })
          }))
   }"

definition RenderManifestAsUnstructured ::
  "'w libs \<Rightarrow> ReleaseInstance \<Rightarrow> (('w, 'z) rend_scheme, go_error + ManifestResources) state" where
  "RenderManifestAsUnstructured L releaseInstance = do {
     r \<leftarrow> RenderManifest L releaseInstance;
     (case r of (manifests, err) \<Rightarrow>
       (case err of
          Some e \<Rightarrow> ret (Inl e)
        | None \<Rightarrow> ret (ParseManifestStringToObjects (helm L) manifests)))
   }"

text \<open>
  C35. A value that one release configured stays in the chart: in a later render whose configuration
  does not touch its path, the values handed to Helm still hold it, whatever was to be the chart's
  default (the merge goes into the chart's own map).
\<close>

theorem chart_values_sticky:
  fixes s s1 s2 :: "('w, 'z) rend_scheme"
  assumes law: "merge_law (helm L)"
    and c1: "GetConfiguration (helm L) r1 = Inr cfg1" "wf_val (VMap cfg1)"
    and c2: "GetConfiguration (helm L) r2 = Inr cfg2" "wf_val (VMap cfg2)"
    and old: "get_at (VMap cfg1) q = Some v" "scalar v" and new: "apart cfg2 q"
    and run1: "run_state (overrideChartConfiguration L r1) s = (x1, s1)"
    and run2: "run_state (overrideChartConfiguration L r2) (s1\<lparr>world := w, trace := t\<rparr>) = (x2, s2)"
  shows "\<exists>config. x2 = (config, None) \<and> get_at (VMap config) q = Some v"
proof -
  have nm: "\<not> is_map v" using old(2) by (cases v) auto
  obtain d1 where m1: "hl_merge (helm L) (helmValues s) cfg1 = (None, d1)"
    and v1: "get_at (VMap d1) q = Some v"
    using merge_lawE [OF law c1(2), of "helmValues s"] old nm by metis
  obtain d2 where m2: "hl_merge (helm L) d1 cfg2 = (None, d2)"
    and v2: "get_at (VMap d2) q = get_at (VMap d1) q"
    using merge_lawE [OF law c2(2), of d1] new by metis
  from run1 m1 c1 have "helmValues s1 = d1"
    by (auto simp: overrideChartConfiguration_def getChartConfiguration_def)
  with run2 m2 c2 have "x2 = (d2, None)"
    by (auto simp: overrideChartConfiguration_def getChartConfiguration_def)
  with v1 v2 show ?thesis by simp
qed

definition demo_rend :: "demo_world rend" where
  "demo_rend = \<lparr>world = demo_start, trace = [], nodesZoneCache = Map.empty, helmValues = []\<rparr>"

theorem chart_values_sticky_witness:
  "let L = demo_libs []; r1 = NewReleaseInstance [] [] False [(''a.b'', VInt 1)];
       r2 = NewReleaseInstance [] [] False [(''a.c'', VInt 2)];
       s1 = snd (run_state (overrideChartConfiguration L r1) demo_rend);
       x2 = fst (run_state (overrideChartConfiguration L r2) s1)
   in \<exists>config. x2 = (config, None) \<and> get_at (VMap config) [''a'', ''b''] = Some (VInt 1)"
proof -
  let ?L = "demo_libs []" and ?r1 = "NewReleaseInstance [] [] False [(''a.b'', VInt 1)]"
    and ?r2 = "NewReleaseInstance [] [] False [(''a.c'', VInt 2)]"
  let ?cfg1 = "[(''a'', VMap [(''b'', VInt 1)])]" and ?cfg2 = "[(''a'', VMap [(''c'', VInt 2)])]"
  let ?run1 = "run_state (overrideChartConfiguration ?L ?r1) demo_rend"
  let ?s1 = "snd ?run1"
  have law: "merge_law (helm ?L)" using demo_merge_law by (simp add: demo_libs_def)
  have c1: "GetConfiguration (helm ?L) ?r1 = Inr ?cfg1" by code_simp
  have c2: "GetConfiguration (helm ?L) ?r2 = Inr ?cfg2" by code_simp
  have new: "apart ?cfg2 [''a'', ''b'']"
    by (auto simp: apart_def prefix_Cons split: if_splits)
  let ?run2 = "run_state (overrideChartConfiguration ?L ?r2) ?s1"
  have run1: "?run1 = (fst ?run1, ?s1)" by simp
  have run2: "run_state (overrideChartConfiguration ?L ?r2)
      (?s1\<lparr>world := world ?s1, trace := trace ?s1\<rparr>) = (fst ?run2, snd ?run2)" by simp
  have wf: "wf_val (VMap ?cfg1)" "wf_val (VMap ?cfg2)" by simp_all
  have old: "get_at (VMap ?cfg1) [''a'', ''b''] = Some (VInt 1)" "scalar (VInt 1)" by simp_all
  show ?thesis
    unfolding Let_def by (rule chart_values_sticky [OF law c1 wf(1) c2 wf(2) old new run1 run2])
qed

text \<open>
  When Helm returns neither a release nor an error, the renderer returns no error either
  (\<^verbatim>\<open>errors.Wrap\<close> of nil is nil): the rendered manifest is the empty one.
\<close>

lemma render_without_release:
  fixes s :: "('w, 'z) rend_scheme"
  assumes "hl_wrap (helm L) None = (\<lambda>msg. None)"
    and "run_state (overrideChartConfiguration L r) s = ((config, None), s1)"
    and "run_state (newTemplatingAction L r) s1 = (Inr ia, s2)"
    and "run_state (helmRun L ia config) s2 = ((None, None), s3)"
  shows "run_state (RenderManifestAsUnstructured L r) s =
    (ParseManifestStringToObjects (helm L) [], s3)"
  using assms by (simp add: RenderManifestAsUnstructured_def RenderManifest_def)

end
