(* ===== verification/NatsManager.thy ===== *)
theory NatsManager
  imports Chart
begin

text \<open>
  \<^verbatim>\<open>pkg/manager\<close>: the NATS manager. \<^verbatim>\<open>options.go\<close> rewrites the metadata of each rendered object,
  \<^verbatim>\<open>nats.go\<close> deploys and deletes the objects of a release and asks whether its StatefulSets are ready,
  \<^verbatim>\<open>overrides.go\<close> turns the spec of the resource into the chart's configuration.
\<close>

section \<open>Options\<close>

type_synonym Option = "obj \<Rightarrow> go_error + obj"

text \<open>
  Both options first make sure that the key \<^verbatim>\<open>metadata\<close> exists. The maps are changed in place; an
  option that fails has changed nothing, since the key it adds has the type it then asserts.
\<close>

definition with_key :: "string \<Rightarrow> obj \<Rightarrow> obj" where
  "with_key k m = (case map_of m k of None \<Rightarrow> AList.update k (VMap []) m | Some _ \<Rightarrow> m)"

definition owner_reference :: "NATS \<Rightarrow> obj" where
  "owner_reference nats =
     [(''apiVersion'', VStr (nAPIVersion nats)),
      (''kind'', VStr (nKind nats)),
      (''name'', VStr (nName nats)),
      (''uid'', VUID (nUID nats)),
      (''blockOwnerDeletion'', VBool True),
      (''controller'', VBool True)]"

definition WithOwnerReference :: "NATS \<Rightarrow> Option" where
  "WithOwnerReference nats o1 =
     (let o1 = with_key ''metadata'' o1 in
      case map_of o1 ''metadata'' of
        Some (VMap metadata) \<Rightarrow>
          (let metadata = AList.update ''ownerReferences'' (VMapSlice [owner_reference nats]) metadata in
           Inr (AList.update ''metadata'' (VMap metadata) o1))
      | _ \<Rightarrow> Inl (Sentinel ErrFailedToConvertMetadataToMap))"

definition WithLabel :: "string \<Rightarrow> string \<Rightarrow> Option" where
  "WithLabel key value o1 =
     (let o1 = with_key ''metadata'' o1 in
      case map_of o1 ''metadata'' of
        Some (VMap metadata) \<Rightarrow>
          (let metadata = with_key ''labels'' metadata in
           case map_of metadata ''labels'' of
             Some (VMap labels) \<Rightarrow>
               (let labels = AList.update key (VStr value) labels;
                    metadata = AList.update ''labels'' (VMap labels) metadata
                in Inr (AList.update ''metadata'' (VMap metadata) o1))
           | _ \<Rightarrow> Inl (Sentinel ErrFailedToConvertLabelsToMap))
      | _ \<Rightarrow> Inl (Sentinel ErrFailedToConvertMetadataToMap))"

text \<open>The two loops of \<^verbatim>\<open>GenerateNATSResources\<close>; the first error ends both.\<close>

fun apply_options :: "Option list \<Rightarrow> obj \<Rightarrow> go_error + obj" where
  "apply_options [] o1 = Inr o1"
| "apply_options (opt # opts) o1 =
     (case opt o1 of Inl err \<Rightarrow> Inl err | Inr o1 \<Rightarrow> apply_options opts o1)"

fun apply_to_items :: "Option list \<Rightarrow> obj list \<Rightarrow> go_error + obj list" where
  "apply_to_items opts [] = Inr []"
| "apply_to_items opts (o1 # os) =
     (case apply_options opts o1 of
        Inl err \<Rightarrow> Inl err
      | Inr o1 \<Rightarrow> (case apply_to_items opts os of Inl err \<Rightarrow> Inl err | Inr os \<Rightarrow> Inr (o1 # os)))"

definition GenerateNATSResources ::
  "'w libs \<Rightarrow> ReleaseInstance \<Rightarrow> Option list \<Rightarrow> (('w, 'z) rend_scheme, go_error + ManifestResources) state" where
  "GenerateNATSResources L instance_r opts = do {
     r \<leftarrow> RenderManifestAsUnstructured L instance_r;
     ret (case r of
        Inl err \<Rightarrow> Inl err
      | Inr manifests \<Rightarrow>
          (case apply_to_items opts (mrItems manifests) of
             Inl err \<Rightarrow> Inl err
           | Inr items \<Rightarrow> Inr (manifests\<lparr>mrItems := items\<rparr>)))
   }"

text \<open>An option as an assignment to one path: what is there afterwards, and what stays.\<close>

lemma map_of_with_key:
  "map_of (with_key k m) k' = (if k' = k then Some (case map_of m k of None \<Rightarrow> VMap [] | Some v \<Rightarrow> v) else map_of m k')"
  by (auto simp: with_key_def update_conv' split: option.splits)

definition writes :: "Option \<Rightarrow> string list \<Rightarrow> val \<Rightarrow> bool" where
  "writes opt p v \<longleftrightarrow> (\<forall>o1 o2. opt o1 = Inr o2 \<longrightarrow>
     get_at (VMap o2) p = Some v \<and>
     (\<forall>q. unrelated p q \<longrightarrow> q \<noteq> [] \<longrightarrow> get_at (VMap o2) q = get_at (VMap o1) q))"

lemma writes_owner:
  "writes (WithOwnerReference n) [''metadata'', ''ownerReferences''] (VMapSlice [owner_reference n])"
  unfolding writes_def
proof (intro allI impI conjI)
  fix o1 o2 assume run: "WithOwnerReference n o1 = Inr o2"
  show "get_at (VMap o2) [''metadata'', ''ownerReferences''] = Some (VMapSlice [owner_reference n])"
    using run by (auto simp: WithOwnerReference_def Let_def update_conv' split: option.splits val.splits)
  fix q assume q: "unrelated [''metadata'', ''ownerReferences''] q" "q \<noteq> []"
  then obtain k ks where k: "q = k # ks" by (cases q) auto
  show "get_at (VMap o2) q = get_at (VMap o1) q"
  proof (cases "k = ''metadata''")
    case True
    then obtain k' ks' where "ks = k' # ks'" "k' \<noteq> ''ownerReferences''"
      using q k by (cases ks) (auto simp: unrelated_def)
    with run k True show ?thesis
      by (cases "map_of o1 ''metadata''")
        (auto simp: WithOwnerReference_def Let_def map_of_with_key update_conv' split: val.splits)
  next
    case False
    with run k show ?thesis
      by (auto simp: WithOwnerReference_def Let_def map_of_with_key update_conv'
          split: option.splits val.splits)
  qed
qed

lemma writes_label: "writes (WithLabel key value) [''metadata'', ''labels'', key] (VStr value)"
  unfolding writes_def
proof (intro allI impI conjI)
  fix o1 o2 assume run: "WithLabel key value o1 = Inr o2"
  show "get_at (VMap o2) [''metadata'', ''labels'', key] = Some (VStr value)"
    using run by (auto simp: WithLabel_def Let_def update_conv' split: option.splits val.splits)
  fix q assume q: "unrelated [''metadata'', ''labels'', key] q" "q \<noteq> []"
  then obtain k ks where k: "q = k # ks" by (cases q) auto
  show "get_at (VMap o2) q = get_at (VMap o1) q"
  proof (cases "k = ''metadata''")
    case True
    then obtain k' ks' where k': "ks = k' # ks'" using q k by (cases ks) (auto simp: unrelated_def)
    show ?thesis
    proof (cases "k' = ''labels''")
      case labels: True
      then obtain l ls where "ks' = l # ls" "l \<noteq> key"
        using q k k' True by (cases ks') (auto simp: unrelated_def)
      with run k k' True labels show ?thesis
        by (auto simp: WithLabel_def Let_def map_of_with_key update_conv'
            split: option.splits val.splits)
    next
      case False
      with run k k' True show ?thesis
        by (auto simp: WithLabel_def Let_def map_of_with_key update_conv'
            split: option.splits val.splits)
    qed
  next
    case False
    with run k show ?thesis
      by (auto simp: WithLabel_def Let_def map_of_with_key update_conv'
          split: option.splits val.splits)
  qed
qed

lemma apply_to_items_all:
  "apply_to_items opts items = Inr items' \<Longrightarrow>
   list_all2 (\<lambda>i i'. apply_options opts i = Inr i') items items'"
  by (induction items arbitrary: items') (auto split: sum.splits)

lemma apply_to_items_error:
  "apply_to_items opts items = Inl err \<Longrightarrow> \<exists>i \<in> set items. apply_options opts i = Inl err"
  by (induction items) (auto split: sum.splits)

text \<open>A rendered object as both options leave it.\<close>

definition marked :: "NATS \<Rightarrow> string \<Rightarrow> string \<Rightarrow> obj \<Rightarrow> obj \<Rightarrow> bool" where
  "marked n key value i i' \<longleftrightarrow>
     get_at (VMap i') [''metadata'', ''ownerReferences''] = Some (VMapSlice [owner_reference n]) \<and>
     get_at (VMap i') [''metadata'', ''labels'', key] = Some (VStr value) \<and>
     (\<forall>q. q \<noteq> [] \<longrightarrow> unrelated [''metadata'', ''ownerReferences''] q \<longrightarrow>
       unrelated [''metadata'', ''labels'', key] q \<longrightarrow> get_at (VMap i') q = get_at (VMap i) q)"

lemma options_mark:
  assumes "apply_options [WithOwnerReference n, WithLabel key value] i = Inr i'"
  shows "marked n key value i i'"
proof -
  from assms obtain j where j: "WithOwnerReference n i = Inr j" "WithLabel key value j = Inr i'"
    by (auto split: sum.splits)
  note w1 = writes_owner [unfolded writes_def, rule_format, OF j(1)]
  note w2 = writes_label [unfolded writes_def, rule_format, OF j(2)]
  have "unrelated [''metadata'', ''labels'', key] [''metadata'', ''ownerReferences'']"
    by (simp add: unrelated_def)
  with w2 have "get_at (VMap i') [''metadata'', ''ownerReferences''] =
      get_at (VMap j) [''metadata'', ''ownerReferences'']" by blast
  with w1 w2 show ?thesis by (auto simp: marked_def)
qed

text \<open>An object the options cannot mark: its metadata, or the labels in it, is not a map.\<close>

definition unmarkable :: "obj \<Rightarrow> go_error \<Rightarrow> bool" where
  "unmarkable i err \<longleftrightarrow>
     (\<exists>v. get_at (VMap i) [''metadata''] = Some v \<and> \<not> is_map v \<and>
        err = Sentinel ErrFailedToConvertMetadataToMap) \<or>
     (\<exists>v. get_at (VMap i) [''metadata'', ''labels''] = Some v \<and> \<not> is_map v \<and>
        err = Sentinel ErrFailedToConvertLabelsToMap)"

lemma map_of_with_keyD:
  "map_of (with_key k m) k = Some v \<Longrightarrow> \<not> is_map v \<Longrightarrow> map_of m k = Some v"
  by (auto simp: map_of_with_key split: option.splits)

lemma label_fails: "WithLabel key value i = Inl err \<Longrightarrow> unmarkable i err"
  by (auto simp: WithLabel_def unmarkable_def Let_def map_of_with_key
      split: option.splits val.splits if_splits)

lemma owner_fails: "WithOwnerReference n i = Inl err \<Longrightarrow> unmarkable i err"
  by (auto simp: WithOwnerReference_def unmarkable_def Let_def map_of_with_key
      split: option.splits val.splits if_splits)

lemma options_fail:
  assumes "apply_options [WithOwnerReference n, WithLabel key value] i = Inl err"
  shows "unmarkable i err"
proof (cases "WithOwnerReference n i")
  case (Inl e)
  with assms owner_fails show ?thesis by auto
next
  case (Inr j)
  then have l: "WithLabel key value j = Inl err" using assms by (auto split: sum.splits)
  have "get_at (VMap j) [''metadata'', ''labels''] = get_at (VMap i) [''metadata'', ''labels'']"
    using conjunct2 [OF writes_owner [unfolded writes_def, rule_format, OF Inr],
        rule_format, of "[''metadata'', ''labels'']"] by (simp add: unrelated_def)
  moreover have "\<exists>m. map_of j ''metadata'' = Some (VMap m)"
    using Inr by (auto simp: WithOwnerReference_def Let_def update_conv' split: option.splits val.splits)
  ultimately show ?thesis
    using label_fails [OF l] by (auto simp: unmarkable_def)
qed

text \<open>
  C22. When the chart renders, \<^verbatim>\<open>GenerateNATSResources\<close> with the options of the controller returns the
  rendered objects in order, each with the owner reference to the resource and the label, and
  otherwise as rendered; it fails only on an object whose metadata or labels are not a map, with the
  error that says so.
\<close>

theorem generated_resources_marked:
  assumes "run_state (RenderManifestAsUnstructured L r) s = (Inr m, s')"
    and "run_state (GenerateNATSResources L r [WithOwnerReference n, WithLabel key value]) s = (res, s'')"
  shows "s'' = s' \<and>
    (case res of
       Inr m' \<Rightarrow> mrBlobs m' = mrBlobs m \<and> list_all2 (marked n key value) (mrItems m) (mrItems m')
     | Inl err \<Rightarrow> \<exists>i \<in> set (mrItems m). unmarkable i err)"
proof -
  let ?opts = "[WithOwnerReference n, WithLabel key value]"
  have "\<exists>i \<in> set (mrItems m). unmarkable i err" if "apply_to_items ?opts (mrItems m) = Inl err" for err
    using apply_to_items_error [OF that] options_fail by blast
  moreover have "list_all2 (marked n key value) (mrItems m) is" if "apply_to_items ?opts (mrItems m) = Inr is" for "is"
    using apply_to_items_all [OF that] by (rule list_all2_mono) (rule options_mark)
  ultimately show ?thesis
    using assms by (auto simp: GenerateNATSResources_def simp del: apply_options.simps split: sum.splits)
qed

theorem generated_resources_marked_witness:
  "let L = demo_libs [demo_sts_doc]; r = NewReleaseInstance ''eventing-nats'' ''kyma-system'' False [];
       run = run_state (GenerateNATSResources L r [WithOwnerReference demo_nats, WithLabel ''k'' ''v'']) demo_rend
   in \<exists>m'. fst run = Inr m' \<and> list_all2 (marked demo_nats ''k'' ''v'') [demo_sts_doc] (mrItems m')"
proof -
  let ?L = "demo_libs [demo_sts_doc]"
  let ?r = "NewReleaseInstance ''eventing-nats'' ''kyma-system'' False []"
  let ?render = "run_state (RenderManifestAsUnstructured ?L ?r) demo_rend"
  let ?run = "run_state (GenerateNATSResources ?L ?r [WithOwnerReference demo_nats, WithLabel ''k'' ''v'']) demo_rend"
  have "fst ?render = Inr \<lparr>mrItems = [demo_sts_doc], mrBlobs = []\<rparr>" by code_simp
  then have render: "?render = (Inr \<lparr>mrItems = [demo_sts_doc], mrBlobs = []\<rparr>, snd ?render)"
    by (metis prod.collapse)
  have "(case fst ?run of Inr m \<Rightarrow> True | Inl e \<Rightarrow> False)" by code_simp
  then obtain m' where "fst ?run = Inr m'" by (auto split: sum.splits)
  then have run: "?run = (Inr m', snd ?run)" by (metis prod.collapse)
  from generated_resources_marked [OF render run] \<open>fst ?run = Inr m'\<close> show ?thesis
    by (simp add: Let_def)
qed


section \<open>Deploying and deleting a release\<close>

definition DeployInstance ::
  "'w libs \<Rightarrow> string \<Rightarrow> ReleaseInstance \<Rightarrow> (('w, 'z) host_scheme, go_error option) state" where
  "DeployInstance L fieldManager instance_r =
     for_each_err (\<lambda>object. PatchApply L fieldManager object) (mrItems (riRenderedManifests instance_r))"

definition DeleteInstance ::
  "'w libs \<Rightarrow> ReleaseInstance \<Rightarrow> (('w, 'z) host_scheme, go_error option) state" where
  "DeleteInstance L instance_r =
     for_each_err (\<lambda>object. kubeDelete L object) (mrItems (riRenderedManifests instance_r))"

fun applied :: "string \<Rightarrow> action \<Rightarrow> (obj \<times> go_error option) option" where
  "applied fm (APatchApply object force manager err) = (if force \<and> manager = fm then Some (object, err) else None)"
| "applied fm _ = None"

text \<open>A deletion of something that is not there counts as a success.\<close>

fun deleted :: "meta_lib \<Rightarrow> action \<Rightarrow> (obj \<times> go_error option) option" where
  "deleted M (ADeleteObject object err) =
     Some (object, case err of None \<Rightarrow> None | Some e \<Rightarrow> ignore_not_found M e)"
| "deleted M _ = None"

definition apply_log :: "string \<Rightarrow> ('w, 'z) host_scheme \<Rightarrow> (obj \<times> go_error option) list" where
  "apply_log fm s = collect (applied fm) (trace s)"

definition delete_log :: "meta_lib \<Rightarrow> ('w, 'z) host_scheme \<Rightarrow> (obj \<times> go_error option) list" where
  "delete_log M s = collect (deleted M) (trace s)"

interpretation apply_loop: logged_body "PatchApply L fm :: _ \<Rightarrow> (('w, 'z) host_scheme, _) state"
  "apply_log fm" "\<lambda>_. True" for L :: "'w libs" and fm
  by unfold_locales
    (auto simp: PatchApply_def clientPatchApply_def apply_log_def split: prod.splits)

interpretation delete_loop: logged_body "kubeDelete L :: _ \<Rightarrow> (('w, 'z) host_scheme, _) state"
  "delete_log (meta L)" "\<lambda>_. True" for L :: "'w libs"
  by unfold_locales
    (auto simp: kubeDelete_def clientDelete_def delete_log_def split: prod.splits)

text \<open>
  C23. \<^verbatim>\<open>DeployInstance\<close> applies (server side, forced, under the manager's field name) the objects of the
  release in the order of the manifest. It succeeds exactly when every one of them was applied without an
  error; otherwise it stops at the first one that was not and returns its error.
\<close>

theorem deploy_in_order:
  assumes "run_state (DeployInstance L fm r) s = (err, s')"
  shows "case err of
      None \<Rightarrow> apply_log fm s' = apply_log fm s @ map (\<lambda>x. (x, None)) (mrItems (riRenderedManifests r))
    | Some e \<Rightarrow> \<exists>xs x ys. mrItems (riRenderedManifests r) = xs @ x # ys \<and>
        apply_log fm s' = apply_log fm s @ map (\<lambda>x. (x, None)) xs @ [(x, Some e)]"
  using apply_loop.loop_log [OF assms [unfolded DeployInstance_def]]
  by (cases err) (simp_all add: succeeded_def)

text \<open>The first of two objects is applied, and the second when the first is not refused.\<close>

definition demo_apply :: "go_error option \<Rightarrow> demo_world libs" where
  "demo_apply e = (demo_libs [])\<lparr>kapi := demo_api\<lparr>api_patch_apply := (\<lambda>object force manager w. (e, w))\<rparr>\<rparr>"

theorem deploy_in_order_witness:
  "let r = SetRenderedManifests (NewReleaseInstance [] [] False []) \<lparr>mrItems = [demo_sts_doc, []], mrBlobs = []\<rparr>;
       run = (\<lambda>e. run_state (DeployInstance (demo_apply e) ''nats-manager'' r) demo_rend)
   in fst (run None) = None \<and> apply_log ''nats-manager'' (snd (run None)) = [(demo_sts_doc, None), ([], None)] \<and>
     fst (run (Some not_found)) = Some not_found \<and>
     (\<exists>xs x ys. [demo_sts_doc, []] = xs @ x # ys \<and>
       apply_log ''nats-manager'' (snd (run (Some not_found))) = map (\<lambda>x. (x, None)) xs @ [(x, Some not_found)])"
proof -
  let ?r = "SetRenderedManifests (NewReleaseInstance [] [] False []) \<lparr>mrItems = [demo_sts_doc, []], mrBlobs = []\<rparr>"
  let ?run = "\<lambda>e. run_state (DeployInstance (demo_apply e) ''nats-manager'' ?r) demo_rend"
  have res: "fst (?run None) = None" "fst (?run (Some not_found)) = Some not_found"
    by (simp_all add: DeployInstance_def SetRenderedManifests_def NewReleaseInstance_def PatchApply_def
        clientPatchApply_def demo_apply_def split: prod.splits)
  then have run: "?run None = (None, snd (?run None))" "?run (Some not_found) = (Some not_found, snd (?run (Some not_found)))"
    by (metis prod.collapse)+
  have start: "apply_log ''nats-manager'' demo_rend = []" by (simp add: apply_log_def demo_rend_def)
  have items: "mrItems (riRenderedManifests ?r) = [demo_sts_doc, []]" by (simp add: SetRenderedManifests_def)
  from deploy_in_order [OF run(1)] deploy_in_order [OF run(2)] show ?thesis
    using res unfolding start items by (simp add: Let_def)
qed

section \<open>Readiness of the StatefulSets\<close>

text \<open>Dereferencing a nil \<^verbatim>\<open>Spec.Replicas\<close> panics.\<close>

fun sts_ready_loop ::
  "'w libs \<Rightarrow> obj list \<Rightarrow> (('w, 'z) host_scheme, (go_error + bool) outcome) state" where
  "sts_ready_loop L [] = ret (Returned (Inr True))"
| "sts_ready_loop L (sts # rest) = do {
     r \<leftarrow> GetStatefulSet L (obj_name (meta L) sts) (obj_namespace (meta L) sts);
     (case r of
        Inl err \<Rightarrow> ret (Returned (Inl err))
      | Inr currentSts \<Rightarrow>
          (case stsReplicas currentSts of
             None \<Rightarrow> ret Panicked
           | Some replicas \<Rightarrow>
               if replicas \<noteq> stsCurrentReplicas currentSts \<or>
                  replicas \<noteq> stsUpdatedReplicas currentSts \<or>
                  replicas \<noteq> stsReadyReplicas currentSts
               then ret (Returned (Inr False))
               else sts_ready_loop L rest))
   }"

definition IsNATSStatefulSetReady ::
  "'w libs \<Rightarrow> ReleaseInstance \<Rightarrow> (('w, 'z) host_scheme, (go_error + bool) outcome) state" where
  "IsNATSStatefulSetReady L instance_r =
     (let statefulSets = GetStatefulSets (meta L) instance_r in
      if length statefulSets = 0 then ret (Returned (Inl (Sentinel ErrNATSStatefulSetNotFound)))
      else sts_ready_loop L statefulSets)"

definition sts_ready :: "StatefulSet \<Rightarrow> bool" where
  "sts_ready c = (case stsReplicas c of None \<Rightarrow> False
     | Some n \<Rightarrow> stsCurrentReplicas c = n \<and> stsUpdatedReplicas c = n \<and> stsReadyReplicas c = n)"

text \<open>The reads of StatefulSets with their answers.\<close>

definition sts_reads :: "meta_lib \<Rightarrow> obj list \<Rightarrow> StatefulSet list \<Rightarrow> action list" where
  "sts_reads M objs cs = map2 (\<lambda>o1 c. AGetStatefulSet (obj_name M o1) (obj_namespace M o1) (Inr c)) objs cs"

fun is_sts_read :: "action \<Rightarrow> bool" where
  "is_sts_read (AGetStatefulSet n ns r) = True"
| "is_sts_read _ = False"

lemma sts_loop_emits: "state_io_rel (emits is_sts_read) (sts_ready_loop L objs)"
  by (induction objs) (auto simp: GetStatefulSet_def clientGetStatefulSet_def
      intro!: emit_frame.f_rules(1-7) emits_call)

lemma sts_loop_true:
  "fst (run_state (sts_ready_loop L objs) s) = Returned (Inr True) \<longleftrightarrow>
   (\<exists>cs. length cs = length objs \<and> list_all sts_ready cs \<and>
     trace (snd (run_state (sts_ready_loop L objs) s)) = trace s @ sts_reads (meta L) objs cs)"
  (is "?ready s objs \<longleftrightarrow> ?reads s objs")
proof (induction objs arbitrary: s)
  case Nil
  then show ?case by (simp add: sts_reads_def)
next
  case (Cons o1 objs)
  let ?n = "obj_name (meta L) o1" and ?ns = "obj_namespace (meta L) o1"
  obtain r w where api: "api_get_sts (kapi L) ?n ?ns (world s) = (r, w)" by force
  let ?s1 = "s\<lparr>world := w, trace := trace s @ [AGetStatefulSet ?n ?ns r]\<rparr>"
  show ?case
  proof (cases "\<exists>c. r = Inr c \<and> sts_ready c")
    case True
    then obtain c where c: "r = Inr c" "sts_ready c" by blast
    then have run: "run_state (sts_ready_loop L (o1 # objs)) s = run_state (sts_ready_loop L objs) ?s1"
      using api by (auto simp: GetStatefulSet_def clientGetStatefulSet_def sts_ready_def split: option.splits)
    obtain as where as: "trace (snd (run_state (sts_ready_loop L objs) ?s1)) =
        trace s @ AGetStatefulSet ?n ?ns (Inr c) # as"
      using state_io_relD [OF sts_loop_emits prod.collapse [symmetric], of ?s1] c
      by (auto simp: emits_def)
    have "?reads ?s1 objs \<longleftrightarrow> ?reads s (o1 # objs)"
    proof
      assume "?reads ?s1 objs"
      then obtain cs where "length cs = length objs" "list_all sts_ready cs"
        "as = sts_reads (meta L) objs cs" using as c by auto
      then show "?reads s (o1 # objs)"
        unfolding run as using c by (intro exI [of _ "c # cs"]) (simp add: sts_reads_def)
    next
      assume "?reads s (o1 # objs)"
      then show "?reads ?s1 objs"
        unfolding run as using c by (auto simp: sts_reads_def length_Suc_conv)
    qed
    then show ?thesis unfolding run Cons.IH [of ?s1] by simp
  next
    case False
    have "fst (run_state (sts_ready_loop L (o1 # objs)) s) \<noteq> Returned (Inr True)"
      "trace (snd (run_state (sts_ready_loop L (o1 # objs)) s)) =
        trace s @ [AGetStatefulSet ?n ?ns r]"
      using api False
      by (auto simp: GetStatefulSet_def clientGetStatefulSet_def sts_ready_def
          split: option.splits sum.splits)
    with False show ?thesis
      by (auto simp: sts_reads_def length_Suc_conv)
  qed
qed

text \<open>
  C24. \<^verbatim>\<open>IsNATSStatefulSetReady\<close> answers that NATS is ready exactly when the release has a StatefulSet and
  each one was read from the cluster with its replicas all current, updated and ready.
\<close>

theorem statefulsets_ready_exact:
  "fst (run_state (IsNATSStatefulSetReady L r) s) = Returned (Inr True) \<longleftrightarrow>
   (let objs = filter (IsStatefulSetObject (meta L)) (mrItems (riRenderedManifests r)) in
    objs \<noteq> [] \<and> (\<exists>cs. length cs = length objs \<and> list_all sts_ready cs \<and>
      trace (snd (run_state (IsNATSStatefulSetReady L r) s)) = trace s @ sts_reads (meta L) objs cs))"
  by (auto simp: IsNATSStatefulSetReady_def GetStatefulSets_filter Let_def sts_loop_true)

text \<open>With the replicas set, as the API server defaults them, the check never panics.\<close>

definition replicas_set :: "'w libs \<Rightarrow> bool" where
  "replicas_set L \<longleftrightarrow> (\<forall>n ns w c w'. api_get_sts (kapi L) n ns w = (Inr c, w') \<longrightarrow> stsReplicas c \<noteq> None)"

lemma replicas_setD:
  "replicas_set L \<Longrightarrow> api_get_sts (kapi L) n ns w = (Inr c, w') \<Longrightarrow> \<exists>k. stsReplicas c = Some k"
  unfolding replicas_set_def by blast

lemma sts_loop_no_panic:
  "replicas_set L \<Longrightarrow> fst (run_state (sts_ready_loop L objs) s) \<noteq> Panicked"
  by (induction objs arbitrary: s)
    (auto simp: GetStatefulSet_def clientGetStatefulSet_def dest: replicas_setD
      split: prod.splits sum.splits option.splits)

lemma IsNATSStatefulSetReady_no_panic:
  "replicas_set L \<Longrightarrow> fst (run_state (IsNATSStatefulSetReady L r) s) \<noteq> Panicked"
  by (simp add: IsNATSStatefulSetReady_def sts_loop_no_panic Let_def)


section \<open>Overrides of the chart\<close>

definition MinClusterSize :: int where "MinClusterSize = 3"

definition IstioEnabledKey :: string where [const_defs]: "IstioEnabledKey = ''istio.enabled''"
definition RotatePasswordKey :: string where [const_defs]: "RotatePasswordKey = ''auth.rotatePassword''"
definition ClusterEnabledKey :: string where [const_defs]: "ClusterEnabledKey = ''cluster.enabled''"
definition ClusterSizeKey :: string where [const_defs]: "ClusterSizeKey = ''cluster.replicas''"
definition FileStorageClassKey :: string where
  [const_defs]: "FileStorageClassKey = ''nats.jetstream.fileStorage.storageClassName''"
definition FileStorageSizeKey :: string where
  [const_defs]: "FileStorageSizeKey = ''global.jetstream.fileStorage.size''"
definition MemStorageEnabledKey :: string where
  [const_defs]: "MemStorageEnabledKey = ''nats.jetstream.memStorage.enabled''"
definition MemStorageSizeKey :: string where
  [const_defs]: "MemStorageSizeKey = ''nats.jetstream.memStorage.size''"
definition DebugEnabledKey :: string where [const_defs]: "DebugEnabledKey = ''nats.logging.debug''"
definition TraceEnabledKey :: string where [const_defs]: "TraceEnabledKey = ''nats.logging.trace''"
definition CommonLabelsKey :: string where [const_defs]: "CommonLabelsKey = ''commonLabels''"
definition CommonAnnotationsKey :: string where
  [const_defs]: "CommonAnnotationsKey = ''commonAnnotations''"
definition ResourceRequestsCPUKey :: string where
  [const_defs]: "ResourceRequestsCPUKey = ''nats.resources.requests.cpu''"
definition ResourceRequestsMemKey :: string where
  [const_defs]: "ResourceRequestsMemKey = ''nats.resources.requests.memory''"
definition ResourceLimitsCPUKey :: string where
  [const_defs]: "ResourceLimitsCPUKey = ''nats.resources.limits.cpu''"
definition ResourceLimitsMemKey :: string where
  [const_defs]: "ResourceLimitsMemKey = ''nats.resources.limits.memory''"
definition NatsImageUrl :: string where [const_defs]: "NatsImageUrl = ''global.natsImageUrl''"
definition PrometheusNATSExporterImageUrl :: string where
  [const_defs]: "PrometheusNATSExporterImageUrl = ''global.prometheusNatsExporterImageUrl''"
definition NATSServerConfigReloaderImageUrl :: string where
  [const_defs]: "NATSServerConfigReloaderImageUrl = ''global.natsServerConfigReloaderImageUrl''"

definition CloudProviderAlicloud :: string where [const_defs]: "CloudProviderAlicloud = ''alicloud''"
definition defaultFileSizeAlicloud :: string where [const_defs]: "defaultFileSizeAlicloud = ''20Gi''"
definition defaultFileSizeDefault :: string where [const_defs]: "defaultFileSizeDefault = ''1Gi''"
definition minFileSizeAlicloud :: string where [const_defs]: "minFileSizeAlicloud = ''20Gi''"

definition resolveFileStorageSize :: "meta_lib \<Rightarrow> NATSSpec \<Rightarrow> string \<Rightarrow> go_error + quantity" where
  "resolveFileStorageSize M spec cloudProvider =
     (let isAlicloud = cloudProvider = CloudProviderAlicloud;
          size = fsSize (jsFileStorage (spJetStream spec)) in
      if qty_is_zero M size then
        (if isAlicloud then Inr (QuantityOf defaultFileSizeAlicloud)
         else Inr (QuantityOf defaultFileSizeDefault))
      else
        (let minimum = QuantityOf minFileSizeAlicloud in
         if isAlicloud \<and> qty_cmp M size minimum < 0 then
           Inl (Errorf (''spec.jetStream.fileStorage.size '' @ qty_string M size @
             '' is below the minimum required size of '' @ minFileSizeAlicloud @ '' for alicloud'') None)
         else Inr size))"

text \<open>Assignments to the map \<^verbatim>\<open>overrides\<close> under a condition.\<close>

definition assign_if :: "bool \<Rightarrow> string \<Rightarrow> val \<Rightarrow> obj \<Rightarrow> obj" where
  "assign_if b k v m = (if b then AList.update k v m else m)"

definition assign_qty :: "meta_lib \<Rightarrow> quantity option \<Rightarrow> string \<Rightarrow> obj \<Rightarrow> obj" where
  "assign_qty M x k m = (case x of None \<Rightarrow> m | Some q \<Rightarrow> AList.update k (VStr (qty_string M q)) m)"

definition GenerateOverrides ::
  "meta_lib \<Rightarrow> ContainerImages \<Rightarrow> NATSSpec \<Rightarrow> bool \<Rightarrow> bool \<Rightarrow> string \<Rightarrow> go_error + obj" where
  "GenerateOverrides M images spec istioEnabled rotatePassword cloudProvider =
     (let overrides = [(IstioEnabledKey, VBool istioEnabled), (RotatePasswordKey, VBool rotatePassword)];
          overrides = AList.update ClusterSizeKey (VInt (clusterSize (spCluster spec))) overrides;
          overrides = AList.update ClusterEnabledKey (VBool True) overrides;
          overrides = assign_if (clusterSize (spCluster spec) < MinClusterSize)
            ClusterEnabledKey (VBool False) overrides
      in case resolveFileStorageSize M spec cloudProvider of
        Inl err \<Rightarrow> Inl err
      | Inr fileStorageSize \<Rightarrow>
         (let fs = jsFileStorage (spJetStream spec); ms = jsMemStorage (spJetStream spec);
              overrides = AList.update FileStorageSizeKey (VStr (qty_string M fileStorageSize)) overrides;
              overrides = assign_if (fsStorageClassName fs \<noteq> []) FileStorageClassKey
                (VStr (fsStorageClassName fs)) overrides;
              overrides = AList.update MemStorageEnabledKey (VBool (memEnabled ms)) overrides;
              overrides = assign_if (memEnabled ms) MemStorageSizeKey
                (VStr (qty_string M (memSize ms))) overrides;
              overrides = AList.update DebugEnabledKey (VBool (logDebug (spLogging spec))) overrides;
              overrides = AList.update TraceEnabledKey (VBool (logTrace (spLogging spec))) overrides;
              overrides = assign_qty M (rl_cpu M (resRequests (spResources spec)))
                ResourceRequestsCPUKey overrides;
              overrides = assign_qty M (rl_memory M (resRequests (spResources spec)))
                ResourceRequestsMemKey overrides;
              overrides = assign_qty M (rl_cpu M (resLimits (spResources spec)))
                ResourceLimitsCPUKey overrides;
              overrides = assign_qty M (rl_memory M (resLimits (spResources spec)))
                ResourceLimitsMemKey overrides;
              overrides = assign_if (0 < length (spLabels spec)) CommonLabelsKey
                (VStrMap (spLabels spec)) overrides;
              overrides = assign_if (0 < length (spAnnotations spec)) CommonAnnotationsKey
                (VStrMap (spAnnotations spec)) overrides;
              overrides = assign_if (imgNATS images \<noteq> []) NatsImageUrl
                (VStr (imgNATS images)) overrides;
              overrides = assign_if (imgPrometheusExporter images \<noteq> []) PrometheusNATSExporterImageUrl
                (VStr (imgPrometheusExporter images)) overrides;
              overrides = assign_if (imgNATSConfigReloader images \<noteq> []) NATSServerConfigReloaderImageUrl
                (VStr (imgNATSConfigReloader images)) overrides
          in Inr overrides))"

text \<open>
  C26. On Alibaba Cloud the resolved file storage size is never below 20Gi; a size the resource sets is
  used unchanged unless it is below that minimum there, which is the only error.
\<close>

theorem file_size_bounds:
  assumes refl: "\<And>q. qty_cmp M q q = 0"
  shows "let size = fsSize (jsFileStorage (spJetStream spec));
             small = qty_cmp M size (QuantityOf ''20Gi'') < 0 in
    (case resolveFileStorageSize M spec cp of
       Inl err \<Rightarrow> cp = ''alicloud'' \<and> \<not> qty_is_zero M size \<and> small
     | Inr q \<Rightarrow>
         (cp = ''alicloud'' \<longrightarrow> 0 \<le> qty_cmp M q (QuantityOf ''20Gi'')) \<and>
         (\<not> qty_is_zero M size \<longrightarrow> q = size \<and> (cp = ''alicloud'' \<longrightarrow> \<not> small)) \<and>
         (qty_is_zero M size \<longrightarrow> q = QuantityOf (if cp = ''alicloud'' then ''20Gi'' else ''1Gi'')))"
  using refl by (auto simp: resolveFileStorageSize_def const_defs Let_def)

theorem file_size_bounds_witness:
  "resolveFileStorageSize ref_meta demo_spec ''alicloud'' =
     Inl (Errorf ''spec.jetStream.fileStorage.size 1Gi is below the minimum required size of 20Gi for alicloud'' None) \<and>
   resolveFileStorageSize ref_meta demo_spec ''gcp'' = Inr (QuantityOf ''1Gi'')"
proof -
  have refl: "qty_cmp ref_meta q q = 0" for q by (simp add: ref_meta_def)
  have "\<not> qty_is_zero ref_meta (fsSize (jsFileStorage (spJetStream demo_spec)))" by code_simp
  with file_size_bounds [OF refl, of demo_spec "''gcp''"]
  have "resolveFileStorageSize ref_meta demo_spec ''gcp'' = Inr (QuantityOf ''1Gi'')"
    by (auto simp: Let_def demo_spec_def split: sum.splits)
  moreover have "resolveFileStorageSize ref_meta demo_spec ''alicloud'' =
     Inl (Errorf ''spec.jetStream.fileStorage.size 1Gi is below the minimum required size of 20Gi for alicloud'' None)"
    by code_simp
  ultimately show ?thesis by simp
qed


definition override_keys :: "string list" where
  "override_keys = [IstioEnabledKey, RotatePasswordKey, ClusterEnabledKey, ClusterSizeKey,
     FileStorageClassKey, FileStorageSizeKey, MemStorageEnabledKey, MemStorageSizeKey,
     DebugEnabledKey, TraceEnabledKey, CommonLabelsKey, CommonAnnotationsKey,
     ResourceRequestsCPUKey, ResourceRequestsMemKey, ResourceLimitsCPUKey, ResourceLimitsMemKey,
     NatsImageUrl, PrometheusNATSExporterImageUrl, NATSServerConfigReloaderImageUrl]"

lemma override_keys_unrelated:
  "k \<in> set override_keys \<Longrightarrow> k' \<in> set override_keys \<Longrightarrow> k \<noteq> k' \<Longrightarrow> unrelated (key_path k) (key_path k')"
proof -
  have "list_all (\<lambda>k. list_all (\<lambda>k'. k = k' \<or> unrelated (key_path k) (key_path k')) override_keys)
      override_keys"
    by code_simp
  then show "k \<in> set override_keys \<Longrightarrow> k' \<in> set override_keys \<Longrightarrow> k \<noteq> k' \<Longrightarrow>
      unrelated (key_path k) (key_path k')"
    by (auto simp: list_all_iff)
qed

text \<open>The shape of every map the assignments build.\<close>

definition plain :: "obj \<Rightarrow> bool" where
  "plain ov \<longleftrightarrow> distinct (map fst ov) \<and> fst ` set ov \<subseteq> set override_keys \<and>
     (\<forall>(k, v) \<in> set ov. \<not> is_map v \<and> wf_val v)"

lemma set_update_subset: "set (AList.update k v m) \<subseteq> insert (k, v) (set m)"
  by (induction m) auto

lemma plain_update:
  assumes "plain ov" "k \<in> set override_keys" "\<not> is_map v" "wf_val v"
  shows "plain (AList.update k v ov)"
  using assms set_update_subset [of k v ov]
  by (fastforce simp: plain_def distinct_update dom_update)

lemma plain_if: "plain ov \<Longrightarrow> k \<in> set override_keys \<Longrightarrow> \<not> is_map v \<Longrightarrow> wf_val v \<Longrightarrow> plain (assign_if b k v ov)"
  by (simp add: assign_if_def plain_update)

lemma plain_qty: "plain ov \<Longrightarrow> k \<in> set override_keys \<Longrightarrow> plain (assign_qty M x k ov)"
  by (simp add: assign_qty_def plain_update split: option.split)

lemma plain_start: "plain [(IstioEnabledKey, VBool a), (RotatePasswordKey, VBool b)]"
  by (simp add: plain_def override_keys_def const_defs)

lemma override_keys_mem:
  "list_all (\<lambda>k. k \<in> set override_keys) [IstioEnabledKey, RotatePasswordKey, ClusterEnabledKey,
     ClusterSizeKey, FileStorageClassKey, FileStorageSizeKey, MemStorageEnabledKey, MemStorageSizeKey,
     DebugEnabledKey, TraceEnabledKey, CommonLabelsKey, CommonAnnotationsKey,
     ResourceRequestsCPUKey, ResourceRequestsMemKey, ResourceLimitsCPUKey, ResourceLimitsMemKey,
     NatsImageUrl, PrometheusNATSExporterImageUrl, NATSServerConfigReloaderImageUrl]"
  by (simp add: override_keys_def)

lemma overrides_plain: "GenerateOverrides M images spec istio rp cp = Inr ov \<Longrightarrow> plain ov"
  using override_keys_mem
  by (auto simp: GenerateOverrides_def Let_def simp del: AList.update.simps split: sum.splits
      intro!: plain_update plain_if plain_qty plain_start)

lemma plain_prefix_free: "plain ov \<Longrightarrow> prefix_free (map (\<lambda>kv. key_path (fst kv)) ov)"
proof (induction ov)
  case Nil
  then show ?case by simp
next
  case (Cons kv ov)
  then have "plain ov" by (auto simp: plain_def)
  moreover have "unrelated (key_path (fst kv)) (key_path (fst x))" if "x \<in> set ov" for x
    by (rule override_keys_unrelated) (use Cons.prems that in \<open>auto simp: plain_def image_iff\<close>)
  ultimately show ?case using Cons.IH by (auto simp: list_all_iff unrelated_def)
qed

text \<open>
  What the chart is configured with: the value at the path of a key is the one assigned to the key.
\<close>

lemma config_at_key:
  assumes law: "merge_law H" and ov: "plain ov"
  obtains r where "GetConfiguration H (NewReleaseInstance name ns istio ov) = Inr r"
    and "\<And>k. k \<in> set override_keys \<Longrightarrow> get_at (VMap r) (key_path k) = map_of ov k"
proof -
  let ?c = "NewReleaseInstance name ns istio ov"
  have conf: "riConfiguration ?c = ov" by (simp add: NewReleaseInstance_def)
  have "\<forall>(k, v) \<in> set ov. \<not> is_map v \<and> wf_val v" using ov by (simp add: plain_def)
  then obtain r where r: "GetConfiguration H ?c = Inr r"
    and val: "\<forall>(k, v) \<in> set ov. get_at (VMap r) (key_path k) = Some v"
    and none: "\<forall>q. q \<noteq> [] \<longrightarrow> (\<forall>(k, v) \<in> set ov. unrelated (key_path k) q) \<longrightarrow> get_at (VMap r) q = None"
    using config_values [OF law, of ?c] plain_prefix_free [OF ov] unfolding conf by blast
  have "get_at (VMap r) (key_path k) = map_of ov k" if k: "k \<in> set override_keys" for k
  proof (cases "map_of ov k")
    case None
    have "unrelated (key_path k') (key_path k)" if "(k', v) \<in> set ov" for k' v
    proof (rule override_keys_unrelated [OF _ k])
      have "k' \<in> fst ` set ov" using that by (rule rev_image_eqI) simp
      then show "k' \<in> set override_keys" "k' \<noteq> k"
        using ov None by (auto simp: plain_def map_of_eq_None_iff)
    qed
    moreover have "key_path k \<noteq> []" by (simp add: key_path_def)
    ultimately show ?thesis using none None by auto
  next
    case (Some v)
    then have "(k, v) \<in> set ov" by (rule map_of_SomeD)
    with val Some show ?thesis by auto
  qed
  with r that show ?thesis by blast
qed

lemma map_of_assign_if:
  "map_of (assign_if b k v m) k' = (if b \<and> k' = k then Some v else map_of m k')"
  by (simp add: assign_if_def update_conv')

lemma map_of_assign_qty:
  "map_of (assign_qty M x k m) k' =
     (if k' = k then (case x of None \<Rightarrow> map_of m k | Some q \<Rightarrow> Some (VStr (qty_string M q))) else map_of m k')"
  by (simp add: assign_qty_def update_conv' split: option.split)

lemmas map_of_assign = map_of_assign_if map_of_assign_qty update_conv'


definition at_path :: "obj \<Rightarrow> string list \<Rightarrow> val option" where
  "at_path r p = get_at (VMap r) p"

definition when_set :: "bool \<Rightarrow> val \<Rightarrow> val option" where
  "when_set b v = (if b then Some v else None)"

lemma override_paths:
  "key_path IstioEnabledKey = [''istio'', ''enabled'']"
  "key_path RotatePasswordKey = [''auth'', ''rotatePassword'']"
  "key_path ClusterSizeKey = [''cluster'', ''replicas'']"
  "key_path ClusterEnabledKey = [''cluster'', ''enabled'']"
  "key_path FileStorageSizeKey = [''global'', ''jetstream'', ''fileStorage'', ''size'']"
  "key_path FileStorageClassKey = [''nats'', ''jetstream'', ''fileStorage'', ''storageClassName'']"
  "key_path MemStorageEnabledKey = [''nats'', ''jetstream'', ''memStorage'', ''enabled'']"
  "key_path MemStorageSizeKey = [''nats'', ''jetstream'', ''memStorage'', ''size'']"
  "key_path DebugEnabledKey = [''nats'', ''logging'', ''debug'']"
  "key_path TraceEnabledKey = [''nats'', ''logging'', ''trace'']"
  "key_path ResourceRequestsCPUKey = [''nats'', ''resources'', ''requests'', ''cpu'']"
  "key_path ResourceRequestsMemKey = [''nats'', ''resources'', ''requests'', ''memory'']"
  "key_path ResourceLimitsCPUKey = [''nats'', ''resources'', ''limits'', ''cpu'']"
  "key_path ResourceLimitsMemKey = [''nats'', ''resources'', ''limits'', ''memory'']"
  "key_path CommonLabelsKey = [''commonLabels'']"
  "key_path CommonAnnotationsKey = [''commonAnnotations'']"
  "key_path NatsImageUrl = [''global'', ''natsImageUrl'']"
  "key_path PrometheusNATSExporterImageUrl = [''global'', ''prometheusNatsExporterImageUrl'']"
  "key_path NATSServerConfigReloaderImageUrl = [''global'', ''natsServerConfigReloaderImageUrl'']"
  by code_simp+

lemma override_values:
  assumes "GenerateOverrides M images spec istio rotatePassword cp = Inr ov" and q: "resolveFileStorageSize M spec cp = Inr q"
  shows "map_of ov IstioEnabledKey = Some (VBool istio)"
    "map_of ov RotatePasswordKey = Some (VBool rotatePassword)"
    "map_of ov ClusterSizeKey = Some (VInt (clusterSize (spCluster spec)))"
    "map_of ov ClusterEnabledKey = Some (VBool (3 \<le> clusterSize (spCluster spec)))"
    "map_of ov FileStorageSizeKey = Some (VStr (qty_string M q))"
    "map_of ov FileStorageClassKey =
      (let c = fsStorageClassName (jsFileStorage (spJetStream spec)) in when_set (c \<noteq> []) (VStr c))"
    "map_of ov MemStorageEnabledKey = Some (VBool (memEnabled (jsMemStorage (spJetStream spec))))"
    "map_of ov MemStorageSizeKey = (let m = jsMemStorage (spJetStream spec) in
       when_set (memEnabled m) (VStr (qty_string M (memSize m))))"
    "map_of ov DebugEnabledKey = Some (VBool (logDebug (spLogging spec)))"
    "map_of ov TraceEnabledKey = Some (VBool (logTrace (spLogging spec)))"
    "map_of ov ResourceRequestsCPUKey = map_option (\<lambda>q. VStr (qty_string M q)) (rl_cpu M (resRequests (spResources spec)))"
    "map_of ov ResourceRequestsMemKey = map_option (\<lambda>q. VStr (qty_string M q)) (rl_memory M (resRequests (spResources spec)))"
    "map_of ov ResourceLimitsCPUKey = map_option (\<lambda>q. VStr (qty_string M q)) (rl_cpu M (resLimits (spResources spec)))"
    "map_of ov ResourceLimitsMemKey = map_option (\<lambda>q. VStr (qty_string M q)) (rl_memory M (resLimits (spResources spec)))"
    "map_of ov CommonLabelsKey = when_set (spLabels spec \<noteq> []) (VStrMap (spLabels spec))"
    "map_of ov CommonAnnotationsKey = when_set (spAnnotations spec \<noteq> []) (VStrMap (spAnnotations spec))"
    "map_of ov NatsImageUrl = when_set (imgNATS images \<noteq> []) (VStr (imgNATS images))"
    "map_of ov PrometheusNATSExporterImageUrl =
      when_set (imgPrometheusExporter images \<noteq> []) (VStr (imgPrometheusExporter images))"
    "map_of ov NATSServerConfigReloaderImageUrl =
      when_set (imgNATSConfigReloader images \<noteq> []) (VStr (imgNATSConfigReloader images))"
  unfolding assms(1) [unfolded GenerateOverrides_def q Let_def sum.case, THEN sum.inject(2) [THEN iffD1], symmetric]
  by (simp_all add: map_of_assign const_defs MinClusterSize_def Let_def when_set_def split: option.split)

text \<open>
  C21. When the overrides are generated and mergo behaves as documented, the configuration of the release
  holds, at the chart's paths, what the resource and the images ask for: clustering is on exactly from
  size 3, the password is rotated as told, the file size is the resolved one, the flags are those of the
  resource, and the optional values (storage class, size of the memory storage, resources, labels,
  annotations, each of the three images) are there exactly when they are set.
\<close>

theorem overrides_reach_chart:
  assumes "merge_law H" and ov: "GenerateOverrides M images spec istio rotatePassword cp = Inr ov"
  shows "\<exists>r q. GetConfiguration H (NewReleaseInstance name ns istio ov) = Inr r \<and>
    resolveFileStorageSize M spec cp = Inr q \<and>
    at_path r [''istio'', ''enabled''] = Some (VBool istio) \<and>
    at_path r [''auth'', ''rotatePassword''] = Some (VBool rotatePassword) \<and>
    at_path r [''cluster'', ''replicas''] = Some (VInt (clusterSize (spCluster spec))) \<and>
    at_path r [''cluster'', ''enabled''] = Some (VBool (3 \<le> clusterSize (spCluster spec))) \<and>
    at_path r [''global'', ''jetstream'', ''fileStorage'', ''size''] = Some (VStr (qty_string M q)) \<and>
    at_path r [''nats'', ''jetstream'', ''fileStorage'', ''storageClassName''] =
      (let c = fsStorageClassName (jsFileStorage (spJetStream spec)) in when_set (c \<noteq> []) (VStr c)) \<and>
    at_path r [''nats'', ''jetstream'', ''memStorage'', ''enabled''] =
      Some (VBool (memEnabled (jsMemStorage (spJetStream spec)))) \<and>
    at_path r [''nats'', ''jetstream'', ''memStorage'', ''size''] =
      (let m = jsMemStorage (spJetStream spec) in when_set (memEnabled m) (VStr (qty_string M (memSize m)))) \<and>
    at_path r [''nats'', ''logging'', ''debug''] = Some (VBool (logDebug (spLogging spec))) \<and>
    at_path r [''nats'', ''logging'', ''trace''] = Some (VBool (logTrace (spLogging spec))) \<and>
    at_path r [''nats'', ''resources'', ''requests'', ''cpu''] =
      map_option (\<lambda>q. VStr (qty_string M q)) (rl_cpu M (resRequests (spResources spec))) \<and>
    at_path r [''nats'', ''resources'', ''requests'', ''memory''] =
      map_option (\<lambda>q. VStr (qty_string M q)) (rl_memory M (resRequests (spResources spec))) \<and>
    at_path r [''nats'', ''resources'', ''limits'', ''cpu''] =
      map_option (\<lambda>q. VStr (qty_string M q)) (rl_cpu M (resLimits (spResources spec))) \<and>
    at_path r [''nats'', ''resources'', ''limits'', ''memory''] =
      map_option (\<lambda>q. VStr (qty_string M q)) (rl_memory M (resLimits (spResources spec))) \<and>
    at_path r [''commonLabels''] = when_set (spLabels spec \<noteq> []) (VStrMap (spLabels spec)) \<and>
    at_path r [''commonAnnotations''] = when_set (spAnnotations spec \<noteq> []) (VStrMap (spAnnotations spec)) \<and>
    at_path r [''global'', ''natsImageUrl''] = when_set (imgNATS images \<noteq> []) (VStr (imgNATS images)) \<and>
    at_path r [''global'', ''prometheusNatsExporterImageUrl''] =
      when_set (imgPrometheusExporter images \<noteq> []) (VStr (imgPrometheusExporter images)) \<and>
    at_path r [''global'', ''natsServerConfigReloaderImageUrl''] =
      when_set (imgNATSConfigReloader images \<noteq> []) (VStr (imgNATSConfigReloader images))"
proof -
  obtain q where q: "resolveFileStorageSize M spec cp = Inr q"
    using ov by (auto simp: GenerateOverrides_def Let_def split: sum.splits)
  obtain r where r: "GetConfiguration H (NewReleaseInstance name ns istio ov) = Inr r"
    and at: "\<And>k. k \<in> set override_keys \<Longrightarrow> get_at (VMap r) (key_path k) = map_of ov k"
    using config_at_key [OF assms(1) overrides_plain [OF ov]] by blast
  have at_keys: "list_all (\<lambda>k. at_path r (key_path k) = map_of ov k) override_keys"
    using at by (simp add: list_all_iff at_path_def)
  show ?thesis
    using r q at_keys override_values [OF ov q] by (simp add: override_keys_def override_paths)
qed

text \<open>A cluster of three servers that traces but does not debug, with an exporter image of its own.\<close>

theorem overrides_reach_chart_witness:
  "let spec = demo_spec\<lparr>spLogging := \<lparr>logDebug = False, logTrace = True\<rparr>\<rparr>;
       images = \<lparr>imgNATS = ''nats:2'', imgPrometheusExporter = ''exporter:1'', imgNATSConfigReloader = []\<rparr>
   in \<exists>ov r. GenerateOverrides ref_meta images spec True False ''gcp'' = Inr ov \<and>
    GetConfiguration (demo_helm []) (NewReleaseInstance ''eventing-nats'' ''kyma-system'' True ov) = Inr r \<and>
    at_path r [''cluster'', ''enabled''] = Some (VBool True) \<and>
    at_path r [''nats'', ''logging'', ''debug''] = Some (VBool False) \<and>
    at_path r [''nats'', ''logging'', ''trace''] = Some (VBool True) \<and>
    at_path r [''global'', ''prometheusNatsExporterImageUrl''] = Some (VStr ''exporter:1'') \<and>
    at_path r [''global'', ''natsServerConfigReloaderImageUrl''] = None"
proof -
  let ?images = "\<lparr>imgNATS = ''nats:2'', imgPrometheusExporter = ''exporter:1'', imgNATSConfigReloader = []\<rparr>"
  let ?spec = "demo_spec\<lparr>spLogging := \<lparr>logDebug = False, logTrace = True\<rparr>\<rparr>"
  let ?g = "GenerateOverrides ref_meta ?images ?spec True False ''gcp''"
  have "(case ?g of Inr ov \<Rightarrow> True | Inl e \<Rightarrow> False)" by code_simp
  then obtain ov where ov: "?g = Inr ov" by (auto split: sum.splits)
  from overrides_reach_chart [OF demo_merge_law ov, of "[]" "''eventing-nats''" "''kyma-system''"] show ?thesis
    using ov unfolding Let_def by (auto simp: demo_spec_def when_set_def)
qed

end
