(* ===== verification/NatsClient.thy ===== *)
theory NatsClient
  imports Demo
begin

text \<open>
  \<^verbatim>\<open>pkg/nats/client.go\<close>: the client of the NATS server that the controller opens to look for streams
  and consumers before it deletes a cluster. The client is a value that \<^verbatim>\<open>Init\<close> returns updated (the
  controller stores it again); a call on a client without a connection panics.
\<close>

section \<open>State and operations\<close>

record client_config =
  ccURL :: string
  ccTimeout :: int

record natsClient =
  ncConfig :: client_config
  ncConn :: "conn option"

definition NewNatsClient :: "client_config \<Rightarrow> natsClient" where
  "NewNatsClient natsConfig = \<lparr>ncConfig = natsConfig, ncConn = None\<rparr>"

text \<open>The methods of \<^verbatim>\<open>natsConn\<close> pass the call on to the connection.\<close>

definition conn_Status :: "'w libs \<Rightarrow> conn \<Rightarrow> (('w, 'z) host_scheme, conn_state) state" where
  "conn_Status L c = connStatus L c"

definition conn_JetStream :: "'w libs \<Rightarrow> conn \<Rightarrow> (('w, 'z) host_scheme, go_error + js_ctx) state" where
  "conn_JetStream L c = connJetStream L c"

definition conn_Close :: "'w libs \<Rightarrow> conn \<Rightarrow> (('w, 'z) host_scheme, unit) state" where
  "conn_Close L c = connClose L c"

definition connect_error :: "go_error option \<Rightarrow> go_error" where
  "connect_error err = Errorf (''failed to connect to NATS server: '' @
     (case err of None \<Rightarrow> ''%!w(<nil>)'' | Some e \<Rightarrow> error_text e)) err"

text \<open>\<^verbatim>\<open>c.conn == nil || c.conn.Status() != nats.CONNECTED\<close>, evaluated from the left.\<close>

definition must_connect :: "'w libs \<Rightarrow> natsClient \<Rightarrow> (('w, 'z) host_scheme, bool) state" where
  "must_connect L c =
     (case ncConn c of
        None \<Rightarrow> ret True
      | Some cn \<Rightarrow> do { st \<leftarrow> conn_Status L cn; ret (st \<noteq> CONNECTED) })"

definition Init :: "'w libs \<Rightarrow> natsClient \<Rightarrow> (('w, 'z) host_scheme, natsClient \<times> go_error option) state" where
  "Init L c = do {
     stale \<leftarrow> must_connect L c;
     (if stale then do {
        r \<leftarrow> natsConnect L (ccURL (ncConfig c)) (ccTimeout (ncConfig c)) ''NATS Manager'';
        (case r of
           Inl err \<Rightarrow> ret (c, Some (connect_error (Some err)))
         | Inr cn \<Rightarrow> do {
             connected \<leftarrow> connIsConnected L cn;
             (if \<not> connected then ret (c, Some (connect_error None))
              else ret (c\<lparr>ncConn := Some cn\<rparr>, None))
           })
      }
      else ret (c, None))
   }"

definition jetstream_error :: "go_error \<Rightarrow> go_error" where
  "jetstream_error err = Errorf (''failed to get JetStream: '' @ error_text err) (Some err)"

text \<open>The first lines of the three reads: the JetStream context, with the panic of a nil connection.\<close>

definition with_jetstream ::
  "'w libs \<Rightarrow> natsClient \<Rightarrow> (js_ctx \<Rightarrow> (('w, 'z) host_scheme, 'a) state) \<Rightarrow>
   (('w, 'z) host_scheme, (go_error + 'a) outcome) state" where
  "with_jetstream L c f =
     (case ncConn c of
        None \<Rightarrow> ret Panicked
      | Some cn \<Rightarrow> do {
          r \<leftarrow> conn_JetStream L cn;
          (case r of
             Inl err \<Rightarrow> ret (Returned (Inl (jetstream_error err)))
           | Inr j \<Rightarrow> do { x \<leftarrow> f j; ret (Returned (Inr x)) })
        })"

text \<open>\<^verbatim>\<open>_, ok := <-ch\<close> on a channel that yields the given elements and is then closed.\<close>

fun received :: "'a list \<Rightarrow> bool" where
  "received [] = False"
| "received (x # xs) = True"

definition StreamExists :: "'w libs \<Rightarrow> natsClient \<Rightarrow> (('w, 'z) host_scheme, (go_error + bool) outcome) state" where
  "StreamExists L c = with_jetstream L c (\<lambda>j. do {
     streams \<leftarrow> jsStreams L j;
     (let ok = received streams in if \<not> ok then ret False else ret True)
   })"

fun read_streams :: "string list \<Rightarrow> string list \<Rightarrow> string list" where
  "read_streams streams [] = streams"
| "read_streams streams (stream # ch) = read_streams (streams @ [stream]) ch"

definition GetStreams :: "'w libs \<Rightarrow> natsClient \<Rightarrow> (('w, 'z) host_scheme, (go_error + string list) outcome) state" where
  "GetStreams L c = with_jetstream L c (\<lambda>j. do {
     ch \<leftarrow> jsStreams L j;
     (let streams = read_streams [] ch in
      if length streams = 0 then ret [] else ret streams)
   })"

definition ConsumersExist ::
  "'w libs \<Rightarrow> natsClient \<Rightarrow> string \<Rightarrow> (('w, 'z) host_scheme, (go_error + bool) outcome) state" where
  "ConsumersExist L c streamName = with_jetstream L c (\<lambda>j. do {
     consumers \<leftarrow> jsConsumers L j streamName;
     (let ok = received consumers in if \<not> ok then ret False else ret True)
   })"

definition Close :: "'w libs \<Rightarrow> natsClient \<Rightarrow> (('w, 'z) host_scheme, unit) state" where
  "Close L c = (case ncConn c of None \<Rightarrow> ret () | Some cn \<Rightarrow> conn_Close L cn)"

section \<open>What the reads return\<close>

lemma received_iff [simp]: "received xs \<longleftrightarrow> xs \<noteq> []"
  by (cases xs) simp_all

lemma read_streams_append [simp]: "read_streams acc ch = acc @ ch"
  by (induction ch arbitrary: acc) auto

lemma with_jetstream_run:
  "run_state (with_jetstream L c f) s =
     (case ncConn c of
        None \<Rightarrow> (Panicked, s)
      | Some cn \<Rightarrow>
         (case nio_jetstream (nio L) cn (world s) of (r, w) \<Rightarrow>
           let s1 = s\<lparr>world := w, trace := trace s @ [AJetStream cn r]\<rparr> in
           (case r of Inl err \<Rightarrow> (Returned (Inl (jetstream_error err)), s1)
            | Inr j \<Rightarrow> (case run_state (f j) s1 of (x, s2) \<Rightarrow> (Returned (Inr x), s2)))))"
  by (simp add: with_jetstream_def conn_JetStream_def connJetStream_def Let_def
      split: option.splits prod.splits sum.splits)

lemma GetStreams_alt: "GetStreams L c = with_jetstream L c (jsStreams L)"
  unfolding GetStreams_def
  by (rule arg_cong [where f = "with_jetstream L c"], rule ext, rule state.expand, rule ext)
    (simp add: Let_def split: prod.splits)

lemma StreamExists_alt: "StreamExists L c = with_jetstream L c (\<lambda>j. jsStreams L j \<bind> (\<lambda>xs. ret (xs \<noteq> [])))"
  unfolding StreamExists_def
  by (rule arg_cong [where f = "with_jetstream L c"], rule ext, rule arg_cong [where f = "State_Monad.bind _"])
    (auto simp: Let_def)

lemma ConsumersExist_alt:
  "ConsumersExist L c n = with_jetstream L c (\<lambda>j. jsConsumers L j n \<bind> (\<lambda>xs. ret (xs \<noteq> [])))"
  unfolding ConsumersExist_def
  by (rule arg_cong [where f = "with_jetstream L c"], rule ext, rule arg_cong [where f = "State_Monad.bind _"])
    (auto simp: Let_def)

text \<open>
  On a client in the same world, \<^verbatim>\<open>StreamExists\<close> and \<^verbatim>\<open>GetStreams\<close> agree: both panic without a
  connection, both return the same error, and a stream exists exactly when the list is not empty; both
  leave the same world behind.
\<close>

lemma stream_exists_iff_listed:
  "StreamExists L c = do {
     r \<leftarrow> GetStreams L c;
     ret (case r of Panicked \<Rightarrow> Panicked | Returned (Inl err) \<Rightarrow> Returned (Inl err)
       | Returned (Inr xs) \<Rightarrow> Returned (Inr (xs \<noteq> [])))
   }"
  unfolding StreamExists_alt GetStreams_alt
  by (rule state.expand, rule ext)
    (auto simp: with_jetstream_run Let_def split: option.splits prod.splits sum.splits)

section \<open>The session contract\<close>

text \<open>
  The interface the controller relies on: a client that \<^verbatim>\<open>Init\<close> returns without an error is usable, the
  reads of a usable client return instead of panicking, and a failed \<^verbatim>\<open>Init\<close> leaves the client as it was.
\<close>

locale nats_session =
  fixes init :: "'c \<Rightarrow> ('s, 'c \<times> go_error option) state"
    and streams :: "'c \<Rightarrow> ('s, (go_error + string list) outcome) state"
    and consumers :: "'c \<Rightarrow> string \<Rightarrow> ('s, (go_error + bool) outcome) state"
    and usable :: "'c \<Rightarrow> bool"
  assumes init_usable: "run_state (init c) s = ((c', None), s') \<Longrightarrow> usable c'"
    and init_failed: "run_state (init c) s = ((c', Some e), s') \<Longrightarrow> c' = c"
    and streams_return: "usable c \<Longrightarrow> fst (run_state (streams c) s) \<noteq> Panicked"
    and consumers_return: "usable c \<Longrightarrow> fst (run_state (consumers c n) s) \<noteq> Panicked"
begin

lemma init_keeps_usable: "usable c \<Longrightarrow> run_state (init c) s = ((c', e), s') \<Longrightarrow> usable c'"
  by (cases e) (auto dest: init_usable init_failed)

lemma init_then_streams:
  "run_state (init c) s = ((c', None), s') \<Longrightarrow> \<exists>r t'. run_state (streams c') t = (Returned r, t')"
  by (metis init_usable outcome.exhaust prod.collapse streams_return)

lemma init_then_consumers:
  "run_state (init c) s = ((c', None), s') \<Longrightarrow> \<exists>r t'. run_state (consumers c' n) t = (Returned r, t')"
  by (metis consumers_return init_usable outcome.exhaust prod.collapse)

end

definition connected :: "natsClient \<Rightarrow> bool" where
  "connected c \<longleftrightarrow> ncConn c \<noteq> None"

lemma with_jetstream_returns: "connected c \<Longrightarrow> fst (run_state (with_jetstream L c f) s) \<noteq> Panicked"
  by (auto simp: connected_def with_jetstream_run Let_def split: option.splits prod.splits sum.splits)

interpretation session: nats_session "Init L :: _ \<Rightarrow> (('w, 'z) host_scheme, _) state"
  "GetStreams L" "ConsumersExist L" connected for L :: "'w libs"
proof
  show "fst (run_state (GetStreams L c) s) \<noteq> Panicked" if "connected c" for c and s :: "('w, 'z) host_scheme"
    unfolding GetStreams_def using that by (rule with_jetstream_returns)
  show "fst (run_state (ConsumersExist L c n) s) \<noteq> Panicked" if "connected c" for c n and s :: "('w, 'z) host_scheme"
    unfolding ConsumersExist_def using that by (rule with_jetstream_returns)
qed (auto simp: Init_def must_connect_def connected_def conn_Status_def connStatus_def natsConnect_def
    connIsConnected_def split: option.splits prod.splits sum.splits if_splits)


definition demo_host :: "demo_world host" where
  "demo_host = \<lparr>world = demo_start, trace = []\<rparr>"


end
