(* ===== verification/Metrics.thy ===== *)
theory Metrics
  imports Demo
begin

text \<open>
  \<^verbatim>\<open>pkg/metrics/metrics.go\<close>: the two gauges of the controller. Their values are Go ints converted to
  \<^verbatim>\<open>float64\<close>; the conversion is written out (53 significant bits, ties to even), its result being an
  integer again.
\<close>

section \<open>The conversion to float64\<close>

text \<open>The least number of bits dropped from a magnitude so that 53 remain.\<close>

function dropped_bits :: "nat \<Rightarrow> nat" where
  "dropped_bits n = (if n < 2 ^ 53 then 0 else Suc (dropped_bits (n div 2)))"
  by pat_completeness auto
termination
  by (relation "measure id") auto

declare dropped_bits.simps [simp del]

definition round_even :: "nat \<Rightarrow> nat \<Rightarrow> nat" where
  "round_even n e =
     (let q = n div 2 ^ e; r = n mod 2 ^ e in
      (if 2 * r < 2 ^ e \<or> (2 * r = 2 ^ e \<and> even q) then q else q + 1) * 2 ^ e)"

definition float64_of_int :: "int \<Rightarrow> int" where
  "float64_of_int i =
     (let n = nat \<bar>i\<bar>; m = int (round_even n (dropped_bits n)) in if i < 0 then - m else m)"

lemma float64_exact: "\<bar>i\<bar> < 2 ^ 53 \<Longrightarrow> float64_of_int i = i"
proof -
  assume "\<bar>i\<bar> < 2 ^ 53"
  then have "dropped_bits (nat \<bar>i\<bar>) = 0" by (subst dropped_bits.simps) (simp add: nat_less_iff)
  then have m: "int (round_even (nat \<bar>i\<bar>) (dropped_bits (nat \<bar>i\<bar>))) = \<bar>i\<bar>"
    by (simp add: round_even_def)
  show ?thesis unfolding float64_of_int_def Let_def m by (simp add: abs_if)
qed

section \<open>The collector\<close>

text \<open>
  The two gauge vectors with their options. What a vector sends to a channel when it is described or
  collected is Prometheus's; a channel is the list of what was sent so far.
\<close>

record gauge_opts =
  goName :: string
  goHelp :: string

record PrometheusCollector =
  pcAvailabilityZonesUsed :: gauge_opts
  pcClusterSize :: gauge_opts

definition metricNamePrefix :: string where "metricNamePrefix = ''nats_manager_''"
definition availabilityZonesUsedMetricKey :: string where
  "availabilityZonesUsedMetricKey = metricNamePrefix @ ''availability_zones_used_count''"
definition availabilityZonesUsedHelp :: string where
  "availabilityZonesUsedHelp = ''The number of availability zones used by NATS Pods.''"
definition clusterSizeMetricKey :: string where
  "clusterSizeMetricKey = metricNamePrefix @ ''cr_nats_nodes_count''"
definition clusterSizeMetricHelp :: string where
  "clusterSizeMetricHelp = ''The cluster size configured in the NATS CR.''"

definition NewPrometheusCollector :: PrometheusCollector where
  "NewPrometheusCollector = \<lparr>
     pcAvailabilityZonesUsed = \<lparr>goName = availabilityZonesUsedMetricKey, goHelp = availabilityZonesUsedHelp\<rparr>,
     pcClusterSize = \<lparr>goName = clusterSizeMetricKey, goHelp = clusterSizeMetricHelp\<rparr>\<rparr>"

definition Describe :: "(gauge_opts \<Rightarrow> 'd list) \<Rightarrow> PrometheusCollector \<Rightarrow> 'd list \<Rightarrow> 'd list" where
  "Describe vec_describe p ch =
     (let ch = ch @ vec_describe (pcAvailabilityZonesUsed p) in ch @ vec_describe (pcClusterSize p))"

definition Collect :: "(gauge_opts \<Rightarrow> 'm list) \<Rightarrow> PrometheusCollector \<Rightarrow> 'm list \<Rightarrow> 'm list" where
  "Collect vec_collect p ch =
     (let ch = ch @ vec_collect (pcAvailabilityZonesUsed p) in ch @ vec_collect (pcClusterSize p))"

text \<open>
  A vector without labels describes itself by its name: the collector describes two different metrics, as
  Prometheus demands of what is registered.
\<close>

lemma described_names:
  "distinct (Describe (\<lambda>g. [goName g]) NewPrometheusCollector [])"
  by (simp add: Describe_def NewPrometheusCollector_def availabilityZonesUsedMetricKey_def clusterSizeMetricKey_def)

definition gaugeRegister :: "'w libs \<Rightarrow> gauge \<Rightarrow> (('w, 'z) host_scheme, unit) state" where
  "gaugeRegister L g = ext_do (pm_register (prom L) g) (AGaugeRegister g)"

definition gaugeSet :: "'w libs \<Rightarrow> gauge \<Rightarrow> int \<Rightarrow> (('w, 'z) host_scheme, unit) state" where
  "gaugeSet L g v = ext_do (pm_set (prom L) g v) (AGaugeSet g v)"

definition gaugeReset :: "'w libs \<Rightarrow> gauge \<Rightarrow> (('w, 'z) host_scheme, unit) state" where
  "gaugeReset L g = ext_do (pm_reset (prom L) g) (AGaugeReset g)"

definition gaugeGet :: "'w libs \<Rightarrow> gauge \<Rightarrow> (('w, 'z) host_scheme, go_error + int) state" where
  "gaugeGet L g = ext_call (pm_get (prom L) g) (AGaugeGet g)"

lemmas gauge_defs = gaugeRegister_def gaugeSet_def gaugeReset_def gaugeGet_def ext_do_def

definition RegisterMetrics :: "'w libs \<Rightarrow> (('w, 'z) host_scheme, unit) state" where
  "RegisterMetrics L = do {
     gaugeRegister L GaugeAvailabilityZonesUsed;
     gaugeRegister L GaugeClusterSize
   }"

definition RecordAvailabilityZonesUsedMetric :: "'w libs \<Rightarrow> int \<Rightarrow> (('w, 'z) host_scheme, unit) state" where
  "RecordAvailabilityZonesUsedMetric L availabilityZonesUsed =
     gaugeSet L GaugeAvailabilityZonesUsed (float64_of_int availabilityZonesUsed)"

definition RecordClusterSizeMetric :: "'w libs \<Rightarrow> int \<Rightarrow> (('w, 'z) host_scheme, unit) state" where
  "RecordClusterSizeMetric L cluster_size = gaugeSet L GaugeClusterSize (float64_of_int cluster_size)"

definition ResetAvailabilityZonesUsedMetric :: "'w libs \<Rightarrow> (('w, 'z) host_scheme, unit) state" where
  "ResetAvailabilityZonesUsedMetric L = gaugeReset L GaugeAvailabilityZonesUsed"

definition ResetClusterSizeMetric :: "'w libs \<Rightarrow> (('w, 'z) host_scheme, unit) state" where
  "ResetClusterSizeMetric L = gaugeReset L GaugeClusterSize"

definition GetAvailabilityZonesUsedMetric :: "'w libs \<Rightarrow> (('w, 'z) host_scheme, go_error + int) state" where
  "GetAvailabilityZonesUsedMetric L = gaugeGet L GaugeAvailabilityZonesUsed"

definition GetClusterSizeMetric :: "'w libs \<Rightarrow> (('w, 'z) host_scheme, go_error + int) state" where
  "GetClusterSizeMetric L = gaugeGet L GaugeClusterSize"

section \<open>Two independent gauges\<close>

text \<open>
  What Prometheus documents of gauges: a read returns the value last set, zero after a reset, and the
  operations on one gauge leave the other alone. \<open>gauge_value\<close> is the value in a state of the world.
\<close>

definition gauge_law :: "'w libs \<Rightarrow> ('w \<Rightarrow> gauge \<Rightarrow> int) \<Rightarrow> bool" where
  "gauge_law L gauge_value \<longleftrightarrow>
     (\<forall>g v w h. gauge_value (pm_set (prom L) g v w) h = (if h = g then v else gauge_value w h)) \<and>
     (\<forall>g w h. gauge_value (pm_reset (prom L) g w) h = (if h = g then 0 else gauge_value w h)) \<and>
     (\<forall>g w. fst (pm_get (prom L) g w) = Inr (gauge_value w g))"

text \<open>
  The interface of one metric: what is recorded is read, a reset reads as zero, and the operations of
  the other metric do not change it.
\<close>

locale metric =
  fixes law :: bool
    and record_m :: "int \<Rightarrow> ('s, unit) state"
    and reset_m :: "('s, unit) state"
    and get_m :: "('s, go_error + int) state"
    and record_other :: "int \<Rightarrow> ('s, unit) state"
    and reset_other :: "('s, unit) state"
  assumes get_record: "law \<Longrightarrow> fst (run_state get_m (snd (run_state (record_m n) s))) = Inr (float64_of_int n)"
    and get_reset: "law \<Longrightarrow> fst (run_state get_m (snd (run_state reset_m s))) = Inr 0"
    and other_record: "law \<Longrightarrow> fst (run_state get_m (snd (run_state (record_other n) s))) = fst (run_state get_m s)"
    and other_reset: "law \<Longrightarrow> fst (run_state get_m (snd (run_state reset_other s))) = fst (run_state get_m s)"
begin

lemma record_then_other:
  "law \<Longrightarrow> \<bar>n\<bar> < 2 ^ 53 \<Longrightarrow>
   fst (run_state (do { record_m n; record_other k; get_m }) s) = Inr n"
  using other_record [of k "snd (run_state (record_m n) s)"] get_record [of n s]
  by (simp add: float64_exact case_prod_beta)

lemma record_then_reset_other:
  "law \<Longrightarrow> \<bar>n\<bar> < 2 ^ 53 \<Longrightarrow>
   fst (run_state (do { record_m n; reset_other; get_m }) s) = Inr n"
  using other_reset [of "snd (run_state (record_m n) s)"] get_record [of n s]
  by (simp add: float64_exact case_prod_beta)

end

lemmas metric_ops = RecordAvailabilityZonesUsedMetric_def RecordClusterSizeMetric_def
  ResetAvailabilityZonesUsedMetric_def ResetClusterSizeMetric_def
  GetAvailabilityZonesUsedMetric_def GetClusterSizeMetric_def gauge_defs

interpretation zones_metric: metric "gauge_law L gv"
  "RecordAvailabilityZonesUsedMetric L :: _ \<Rightarrow> (('w, 'z) host_scheme, _) state"
  "ResetAvailabilityZonesUsedMetric L" "GetAvailabilityZonesUsedMetric L"
  "RecordClusterSizeMetric L" "ResetClusterSizeMetric L" for L :: "'w libs" and gv
  by unfold_locales (simp_all add: metric_ops gauge_law_def case_prod_beta)

interpretation size_metric: metric "gauge_law L gv"
  "RecordClusterSizeMetric L :: _ \<Rightarrow> (('w, 'z) host_scheme, _) state"
  "ResetClusterSizeMetric L" "GetClusterSizeMetric L"
  "RecordAvailabilityZonesUsedMetric L" "ResetAvailabilityZonesUsedMetric L" for L :: "'w libs" and gv
  by unfold_locales (simp_all add: metric_ops gauge_law_def case_prod_beta)

lemma demo_gauge_law: "gauge_law (demo_libs docs) demo_gauge"
  by (simp add: gauge_law_def demo_libs_def demo_prom_def demo_gauge_def update_conv')

text \<open>
  Recording the two metrics, in either order, leaves each gauge with its own value (exactly, for
  magnitudes under 2^53), and resetting one leaves the other alone.
\<close>

lemma metrics_do_not_interfere:
  fixes s :: "('w, 'z) host_scheme"
  assumes "gauge_law L gv" and "\<bar>n\<bar> < 2 ^ 53"
  shows "fst (run_state (do { RecordClusterSizeMetric L n; RecordAvailabilityZonesUsedMetric L k; GetClusterSizeMetric L }) s) = Inr n \<and>
    fst (run_state (do { RecordAvailabilityZonesUsedMetric L n; RecordClusterSizeMetric L k; GetAvailabilityZonesUsedMetric L }) s) = Inr n \<and>
    fst (run_state (do { RecordClusterSizeMetric L n; ResetAvailabilityZonesUsedMetric L; GetClusterSizeMetric L }) s) = Inr n \<and>
    fst (run_state (do { ResetClusterSizeMetric L; GetClusterSizeMetric L }) s) = Inr 0 \<and>
    fst (run_state (do { ResetAvailabilityZonesUsedMetric L; GetAvailabilityZonesUsedMetric L }) s) = Inr 0"
  using size_metric.record_then_other [OF assms, where k = k and s = s]
    zones_metric.record_then_other [OF assms, where k = k and s = s]
    size_metric.record_then_reset_other [OF assms, where s = s]
    size_metric.get_reset [OF assms(1), of s] zones_metric.get_reset [OF assms(1), of s]
  by (simp_all add: case_prod_beta)

end
