(* ===== verification/Reconciler.thy ===== *)
theory Reconciler
  imports NatsManager NatsClient Metrics
begin

text \<open>
  \<^verbatim>\<open>internal/controller/nats\<close>: the reconciler. Its mutable fields extend the state of the components it
  calls; its other fields are the configuration. A handler returns Go's pair of result and error, or
  panics. The resource is a value that a handler rewrites, as the code does with its own deep copy.
\<close>

section \<open>State, configuration, constants\<close>

record 'w reconciler = "'w rend" +
  natsClients :: "string \<rightharpoonup> natsClient option"
  controller_set :: bool
  ctrlManager_set :: bool
  destinationRuleWatchStarted :: bool
  cloudProvider :: "string option"

record reconciler_config =
  allowedNATSCR :: "NATS option"
  fieldManager :: string
  images :: ContainerImages

text \<open>\<^verbatim>\<open>kcontrollerruntime.Result\<close>; the duration is in nanoseconds.\<close>

record Result =
  Requeue :: bool
  RequeueAfter :: int

definition emptyResult :: Result where
  "emptyResult = \<lparr>Requeue = False, RequeueAfter = 0\<rparr>"

definition time_Second :: int where "time_Second = 1000000000"
definition RequeueTimeForStatusCheck :: int where "RequeueTimeForStatusCheck = 10"

definition NATSFinalizerName :: string where
  [const_defs]: "NATSFinalizerName = ''nats.operator.kyma-project.io/finalizer''"
definition ControllerName :: string where [const_defs]: "ControllerName = ''nats-manager''"
definition ManagedByLabelKey :: string where
  [const_defs]: "ManagedByLabelKey = ''app.kubernetes.io/managed-by''"
definition ManagedByLabelValue :: string where [const_defs]: "ManagedByLabelValue = ControllerName"
definition StreamExistsErrorMsg :: string where
  [const_defs]: "StreamExistsErrorMsg = ''Cannot delete NATS cluster as customer stream exists''"
definition ConsumerExistsErrorMsg :: string where
  [const_defs]: "ConsumerExistsErrorMsg = ''Cannot delete NATS cluster as stream consumer exists''"
definition InstanceLabelKey :: string where
  [const_defs]: "InstanceLabelKey = ''app.kubernetes.io/instance''"
definition SapStreamName :: string where [const_defs]: "SapStreamName = ''sap''"
definition shootInfoConfigMapKeyProvider :: string where
  [const_defs]: "shootInfoConfigMapKeyProvider = ''provider''"

text \<open>\<^verbatim>\<open>fmt.Sprintf(CreationNotAllowedMsg, name, namespace)\<close>\<close>

definition CreationNotAllowedMsg :: "string \<Rightarrow> string \<Rightarrow> string" where
  "CreationNotAllowedMsg name namespace =
     ''Only a single NATS CR with name: '' @ name @ '' and namespace: '' @ namespace @
     '' is allowed to be created in a Kyma cluster.''"

type_synonym ('w, 'z, 'a) rec_m = "(('w, 'z) reconciler_scheme, 'a) state"
type_synonym handled = "(Result \<times> go_error option) outcome"

definition NewReconciler :: "'w rend \<Rightarrow> 'w reconciler" where
  "NewReconciler s = rend.extend s
     \<lparr>natsClients = Map.empty, controller_set = False, ctrlManager_set = False,
      destinationRuleWatchStarted = False, cloudProvider = None\<rparr>"

section \<open>Finalizers, labels, cloud provider\<close>

definition containsFinalizer :: "meta_lib \<Rightarrow> NATS \<Rightarrow> bool" where
  "containsFinalizer M nats = contains_finalizer_in M (nFinalizers nats) NATSFinalizerName"

definition addFinalizer :: "'w libs \<Rightarrow> NATS \<Rightarrow> (('w, 'z) host_scheme, Result \<times> go_error option) state" where
  "addFinalizer L nats = do {
     nats \<leftarrow> ret (nats\<lparr>nFinalizers := add_finalizer_to (meta L) (nFinalizers nats) NATSFinalizerName\<rparr>);
     err \<leftarrow> clientUpdateNATS L nats;
     (case err of Some e \<Rightarrow> ret (emptyResult, Some e) | None \<Rightarrow> ret (emptyResult, None))
   }"

definition removeFinalizer :: "'w libs \<Rightarrow> NATS \<Rightarrow> (('w, 'z) host_scheme, Result \<times> go_error option) state" where
  "removeFinalizer L nats = do {
     nats \<leftarrow> ret (nats\<lparr>nFinalizers := remove_finalizer_from (meta L) (nFinalizers nats) NATSFinalizerName\<rparr>);
     err \<leftarrow> clientUpdateNATS L nats;
     (case err of Some e \<Rightarrow> ret (emptyResult, Some e) | None \<Rightarrow> ret (emptyResult, None))
   }"

definition getNATSPodsMatchLabels :: str_map where
  "getNATSPodsMatchLabels =
     [(''app.kubernetes.io/instance'', ''eventing''),
      (''app.kubernetes.io/name'', ''nats''),
      (''kyma-project.io/dashboard'', ''eventing'')]"

definition syncCloudProvider :: "'w libs \<Rightarrow> ('w, 'z, unit) rec_m" where
  "syncCloudProvider L = do {
     provider \<leftarrow> gets cloudProvider;
     (case provider of
        Some _ \<Rightarrow> ret ()
      | None \<Rightarrow> do {
          r \<leftarrow> GetConfigMap L shootInfoConfigMapName shootInfoConfigMapNamespace;
          (case r of
             Inl err \<Rightarrow>
               if is_not_found (meta L) err then modify (\<lambda>s. s\<lparr>cloudProvider := Some []\<rparr>) else ret ()
           | Inr cm \<Rightarrow>
               (let provider = (case map_of (cmData cm) shootInfoConfigMapKeyProvider of
                    Some v \<Rightarrow> v | None \<Rightarrow> []) in
                modify (\<lambda>s. s\<lparr>cloudProvider := Some provider\<rparr>)))
        })
   }"

section \<open>Status\<close>

definition updateStatus :: "'w libs \<Rightarrow> NATS \<Rightarrow> NATS \<Rightarrow> (('w, 'z) host_scheme, go_error option) state" where
  "updateStatus L oldNATS newNATS =
     (if IsEqual (nStatus oldNATS) (nStatus newNATS) then ret None
      else do {
        err \<leftarrow> clientUpdateStatus L newNATS;
        (case err of Some e \<Rightarrow> ret (Some e) | None \<Rightarrow> ret None)
      })"

definition syncNATSStatus :: "'w libs \<Rightarrow> NATS \<Rightarrow> (('w, 'z) host_scheme, go_error option) state" where
  "syncNATSStatus L nats = do {
     r \<leftarrow> clientGetNATS L (nName nats) (nNamespace nats);
     (case r of
        Inl err \<Rightarrow> ret (Some err)
      | Inr actualNATS \<Rightarrow>
          (let desiredNATS = actualNATS\<lparr>nStatus := nStatus nats\<rparr> in
           updateStatus L actualNATS desiredNATS))
   }"

definition syncNATSStatusWithErr ::
  "'w libs \<Rightarrow> NATS \<Rightarrow> go_error \<Rightarrow> (('w, 'z) host_scheme, go_error option) state" where
  "syncNATSStatusWithErr L nats err = do {
     st \<leftarrow> SetStateError L (nStatus nats);
     st \<leftarrow> UpdateConditionAvailable L st ConditionFalse ConditionReasonProcessingError (error_text err);
     e \<leftarrow> syncNATSStatus L (nats\<lparr>nStatus := st\<rparr>);
     ret (errors_join [Some err, e])
   }"

section \<open>Watching destination rules\<close>

datatype event_kind = CreateEvent | UpdateEvent | DeleteEvent | GenericEvent

definition managed_by_selector :: selector where
  "managed_by_selector = SetSelector [(ManagedByLabelKey, ManagedByLabelValue)]"

definition labelSelectorPredicate :: "meta_lib \<Rightarrow> event_kind \<Rightarrow> str_map \<Rightarrow> bool" where
  "labelSelectorPredicate M kind obj_labels = selector_matches M managed_by_selector obj_labels"

fun ignoreCreationPredicate :: "event_kind \<Rightarrow> str_map \<Rightarrow> bool" where
  "ignoreCreationPredicate CreateEvent obj_labels = False"
| "ignoreCreationPredicate _ obj_labels = True"

text \<open>The events of the watch that reach the handler: those all its predicates pass.\<close>

definition destinationRulePasses :: "meta_lib \<Rightarrow> event_kind \<Rightarrow> str_map \<Rightarrow> bool" where
  "destinationRulePasses M kind obj_labels =
     (labelSelectorPredicate M kind obj_labels \<and> ignoreCreationPredicate kind obj_labels)"

text \<open>Using the manager or the controller before \<^verbatim>\<open>SetupWithManager\<close> set them is a nil dereference.\<close>

definition watchDestinationRule :: "'w libs \<Rightarrow> ('w, 'z, go_error option outcome) rec_m" where
  "watchDestinationRule L =
     (case label_selector_as_selector (meta L) [(ManagedByLabelKey, ManagedByLabelValue)] of
        Some err \<Rightarrow> ret (Returned (Some err))
      | None \<Rightarrow> do {
          mgr \<leftarrow> gets ctrlManager_set;
          ctrl \<leftarrow> gets controller_set;
          (if \<not> mgr \<or> \<not> ctrl then ret Panicked
           else do {
             err \<leftarrow> controllerWatch L DestinationRuleKind DestinationRuleAPIVersion managed_by_selector;
             ret (Returned err)
           })
        })"

section \<open>Provisioning\<close>

definition generateNatsResources ::
  "'w libs \<Rightarrow> NATS \<Rightarrow> ReleaseInstance \<Rightarrow> (('w, 'z) rend_scheme, go_error + ReleaseInstance) state" where
  "generateNatsResources L nats instance_r = do {
     r \<leftarrow> GenerateNATSResources L instance_r
       [WithOwnerReference nats, WithLabel ManagedByLabelKey ManagedByLabelValue];
     ret (case r of
        Inl err \<Rightarrow> Inl err
      | Inr natsResources \<Rightarrow> Inr (SetRenderedManifests instance_r natsResources))
   }"

definition initNATSInstance ::
  "'w libs \<Rightarrow> reconciler_config \<Rightarrow> NATS \<Rightarrow> ('w, 'z, go_error + ReleaseInstance) rec_m" where
  "initNATSInstance L C nats = do {
     (istioExists, err) \<leftarrow> DestinationRuleCRDExists L;
     (case err of
        Some e \<Rightarrow> ret (Inl e)
      | None \<Rightarrow> do {
          accountSecretName \<leftarrow> ret (nName nats @ ''-secret'');
          secret \<leftarrow> GetSecret L accountSecretName (nNamespace nats);
          (let (accountSecret, err) = (case secret of Inl e \<Rightarrow> (None, Some e) | Inr x \<Rightarrow> (Some x, None)) in
           if err \<noteq> None \<and> \<not> is_not_found (meta L) (the err) then ret (Inl (the err))
           else do {
             cp \<leftarrow> gets cloudProvider;
             (let provider = (case cp of None \<Rightarrow> [] | Some p \<Rightarrow> p) in
              case GenerateOverrides (meta L) (images C) (nSpec nats) istioExists (accountSecret = None) provider of
                Inl e \<Rightarrow> ret (Inl e)
              | Inr overrides \<Rightarrow>
                  generateNatsResources L nats
                    (NewReleaseInstance (nName nats) (nNamespace nats) istioExists overrides))
           })
        })
   }"

definition handleNATSCRAllowedCheck ::
  "'w libs \<Rightarrow> NATS \<Rightarrow> NATS \<Rightarrow> (('w, 'z) host_scheme, bool \<times> go_error option) state" where
  "handleNATSCRAllowedCheck L allowed nats =
     (if nName nats = nName allowed \<and> nNamespace nats = nNamespace allowed then ret (True, None)
      else do {
        st \<leftarrow> SetStateError L (nStatus nats);
        st \<leftarrow> UpdateConditionStatefulSet L st ConditionFalse ConditionReasonForbidden [];
        errorMessage \<leftarrow> ret (CreationNotAllowedMsg (nName allowed) (nNamespace allowed));
        st \<leftarrow> UpdateConditionAvailable L st ConditionFalse ConditionReasonForbidden errorMessage;
        eventWarn L ConditionReasonForbidden errorMessage [];
        err \<leftarrow> syncNATSStatus L (nats\<lparr>nStatus := st\<rparr>);
        ret (False, err)
      })"


text \<open>The \<^verbatim>\<open>switch\<close> over the number of zones: the status, or the error that ends the handler at once.\<close>

definition zones_status ::
  "'w libs \<Rightarrow> NATS \<Rightarrow> NATSStatus \<Rightarrow> go_error option \<Rightarrow>
   (('w, 'z) host_scheme, NATSStatus \<times> go_error option) state" where
  "zones_status L nats st err =
     (case err of
        Some e \<Rightarrow> do {
          st \<leftarrow> UpdateConditionAvailabilityZones L st ConditionFalse ConditionReasonProcessingError (error_text e);
          eventWarn L ConditionReasonProcessingError (error_text e) [];
          (if \<not> errors_is e ErrNodeZoneLabelMissing then ret (st\<lparr>stState := StateError\<rparr>, Some e)
           else ret (st, None))
        }
      | None \<Rightarrow>
          if clusterSize (spCluster (nSpec nats)) < MinClusterSize then do {
            st \<leftarrow> UpdateConditionAvailabilityZones L st ConditionFalse ConditionReasonNotConfigured
              ''NATS is not configured to run in cluster mode (i.e. spec.cluster.size < 3).'';
            ret (st, None)
          }
          else if stAvailabilityZonesUsed st = clusterSize (spCluster (nSpec nats)) then do {
            msg \<leftarrow> ret ''NATS is deployed in different availability zones.'';
            st \<leftarrow> UpdateConditionAvailabilityZones L st ConditionTrue ConditionReasonDeployed msg;
            eventNormal L ConditionReasonDeployed msg [];
            ret (st, None)
          }
          else do {
            msg \<leftarrow> ret (''NATS is not currently using enough availability zones (Recommended: 3, current: '' @
              show_int (stAvailabilityZonesUsed st) @ '').'');
            st \<leftarrow> UpdateConditionAvailabilityZones L st ConditionFalse ConditionReasonUnknown msg;
            eventWarn L ConditionReasonNotConfigured msg [];
            ret (SetStateWarning st, None)
          })"

text \<open>
  The end of \<^verbatim>\<open>handleNATSState\<close>, from the assignment of the number of zones (zero with an error) on:
  the metric, the \<^verbatim>\<open>switch\<close> and the sync of the status.
\<close>

definition report_zones ::
  "'w libs \<Rightarrow> NATS \<Rightarrow> NATSStatus \<Rightarrow> go_error + int \<Rightarrow> (('w, 'z) host_scheme, Result \<times> go_error option) state" where
  "report_zones L nats st zones =
     (let (n, err) = (case zones of Inl e \<Rightarrow> (0, Some e) | Inr n \<Rightarrow> (n, None)) in do {
        st \<leftarrow> ret (st\<lparr>stAvailabilityZonesUsed := n\<rparr>);
        RecordAvailabilityZonesUsedMetric L (stAvailabilityZonesUsed st);
        (st, stop) \<leftarrow> zones_status L nats st err;
        e \<leftarrow> syncNATSStatus L (nats\<lparr>nStatus := st\<rparr>);
        (case stop of
           Some err \<Rightarrow> ret (emptyResult, errors_join [Some err, e])
         | None \<Rightarrow> ret (emptyResult, e))
      })"

definition handleNATSState :: "'w libs \<Rightarrow> NATS \<Rightarrow> ReleaseInstance \<Rightarrow> (('w, 'z) kube_scheme, handled) state" where
  "handleNATSState L nats instance_r = do {
     nats \<leftarrow> ret (nats\<lparr>nStatus := ClearURL (nStatus nats)\<rparr>);
     ready \<leftarrow> IsNATSStatefulSetReady L instance_r;
     (case ready of
        Panicked \<Rightarrow> ret Panicked
      | Returned (Inl err) \<Rightarrow> do {
          st \<leftarrow> UpdateConditionStatefulSet L (nStatus nats) ConditionFalse ConditionReasonSyncFailError
            (error_text err);
          eventWarn L ConditionReasonSyncFailError ''Failed to sync the resources. StatefulSet is not ready.'' [];
          e \<leftarrow> syncNATSStatusWithErr L (nats\<lparr>nStatus := st\<rparr>) err;
          ret (Returned (emptyResult, e))
        }
      | Returned (Inr isSTSReady) \<Rightarrow>
          if \<not> isSTSReady then do {
            st \<leftarrow> SetWaitingStateForStatefulSet L (nStatus nats);
            st \<leftarrow> ret (st\<lparr>stAvailabilityZonesUsed := 0\<rparr>);
            RecordAvailabilityZonesUsedMetric L (stAvailabilityZonesUsed st);
            eventNormal L ConditionReasonDeploying
              ''NATS is being deployed, waiting for StatefulSet to get ready.'' [];
            e \<leftarrow> syncNATSStatus L (nats\<lparr>nStatus := st\<rparr>);
            ret (Returned (emptyResult\<lparr>RequeueAfter := RequeueTimeForStatusCheck * time_Second\<rparr>, e))
          }
          else do {
            st \<leftarrow> SetStateReady L (nStatus nats);
            st \<leftarrow> ret (SetURL st (Format (nName nats) (nNamespace nats)));
            eventNormal L ConditionReasonDeployed ''StatefulSet is ready and NATS is deployed.'' [];
            zones \<leftarrow> GetNumberOfAvailabilityZonesUsedByPods L (nNamespace nats) getNATSPodsMatchLabels;
            r \<leftarrow> report_zones L nats st zones;
            ret (Returned r)
          })
   }"

text \<open>The steps of \<^verbatim>\<open>handleNATSReconcile\<close> after the finalizer: an error is an event and an error status.\<close>

definition fail_provisioning ::
  "'w libs \<Rightarrow> NATS \<Rightarrow> string \<Rightarrow> go_error \<Rightarrow> (('w, 'z) host_scheme, handled) state" where
  "fail_provisioning L nats fmt err = do {
     eventWarn L ConditionReasonProcessingError fmt [error_text err];
     e \<leftarrow> syncNATSStatusWithErr L nats err;
     ret (Returned (emptyResult, e))
   }"

definition startDestinationRuleWatch :: "'w libs \<Rightarrow> ReleaseInstance \<Rightarrow> ('w, 'z, go_error option outcome) rec_m" where
  "startDestinationRuleWatch L instance_r = do {
     started \<leftarrow> gets destinationRuleWatchStarted;
     (if riIstioEnabled instance_r \<and> \<not> started then do {
        r \<leftarrow> watchDestinationRule L;
        (case r of
           Panicked \<Rightarrow> ret Panicked
         | Returned err \<Rightarrow>
             (case err of
                Some e \<Rightarrow> ret (Returned (Some e))
              | None \<Rightarrow> do {
                  modify (\<lambda>s. s\<lparr>destinationRuleWatchStarted := True\<rparr>);
                  ret (Returned None)
                }))
      }
      else ret (Returned None))
   }"

definition handleNATSReconcile :: "'w libs \<Rightarrow> reconciler_config \<Rightarrow> NATS \<Rightarrow> ('w, 'z, handled) rec_m" where
  "handleNATSReconcile L C nats = do {
     RecordClusterSizeMetric L (clusterSize (spCluster (nSpec nats)));
     syncCloudProvider L;
     st \<leftarrow> Initialize L (nStatus nats);
     nats \<leftarrow> ret (nats\<lparr>nStatus := st\<rparr>);
     eventNormal L ConditionReasonProcessing ''Initializing NATS resource.'' [];
     (if \<not> containsFinalizer (meta L) nats then do {
        r \<leftarrow> addFinalizer L nats;
        ret (Returned r)
      }
      else do {
        r \<leftarrow> initNATSInstance L C nats;
        (case r of
           Inl err \<Rightarrow> fail_provisioning L nats ''Error while NATS resources were being initialized: %s'' err
         | Inr instance_r \<Rightarrow> do {
             err \<leftarrow> DeployInstance L (fieldManager C) instance_r;
             (case err of
                Some err \<Rightarrow> fail_provisioning L nats ''Error while NATS resources were deployed: %s'' err
              | None \<Rightarrow> do {
                  w \<leftarrow> startDestinationRuleWatch L instance_r;
                  (case w of
                     Panicked \<Rightarrow> ret Panicked
                   | Returned err \<Rightarrow>
                       (case err of
                          Some err \<Rightarrow> fail_provisioning L nats ''Error while NATS resources were watched: %s'' err
                        | None \<Rightarrow> handleNATSState L nats instance_r))
                })
           })
      })
   }"

section \<open>Deprovisioning\<close>

definition crKey :: "NATS \<Rightarrow> string" where
  "crKey nats = nNamespace nats @ ''/'' @ nName nats"

text \<open>A missing key and a nil entry both read as nil.\<close>

definition getNatsClient :: "NATS \<Rightarrow> ('w, 'z, natsClient option) rec_m" where
  "getNatsClient nats = gets (\<lambda>s. case natsClients s (crKey nats) of None \<Rightarrow> None | Some c \<Rightarrow> c)"

definition setNatsClient :: "NATS \<Rightarrow> natsClient option \<Rightarrow> ('w, 'z, unit) rec_m" where
  "setNatsClient nats newNatsClient =
     modify (\<lambda>s. s\<lparr>natsClients := (natsClients s)(crKey nats \<mapsto> newNatsClient)\<rparr>)"

text \<open>
  The map holds pointers, so \<^verbatim>\<open>Init\<close> updates the client in the map. Go leaves the timeout of the
  configuration at its zero value.
\<close>

definition createAndConnectNatsClient :: "'w libs \<Rightarrow> NATS \<Rightarrow> ('w, 'z, go_error option outcome) rec_m" where
  "createAndConnectNatsClient L nats = do {
     c \<leftarrow> getNatsClient nats;
     (if c = None
      then setNatsClient nats (Some (NewNatsClient
        \<lparr>ccURL = Format (nName nats) (nNamespace nats), ccTimeout = 0\<rparr>))
      else ret ());
     c \<leftarrow> getNatsClient nats;
     (case c of
        None \<Rightarrow> ret Panicked
      | Some c \<Rightarrow> do {
          (c', err) \<leftarrow> Init L c;
          setNatsClient nats (Some c');
          ret (Returned err)
        })
   }"

fun any_customer_stream :: "string list \<Rightarrow> bool" where
  "any_customer_stream [] = False"
| "any_customer_stream (stream # streams) =
     (if stream \<noteq> SapStreamName then True else any_customer_stream streams)"

definition customerStreamExists :: "'w libs \<Rightarrow> NATS \<Rightarrow> ('w, 'z, (go_error + bool) outcome) rec_m" where
  "customerStreamExists L nats = do {
     c \<leftarrow> getNatsClient nats;
     (case c of
        None \<Rightarrow> ret Panicked
      | Some c \<Rightarrow> do {
          r \<leftarrow> GetStreams L c;
          ret (case r of
             Panicked \<Rightarrow> Panicked
           | Returned (Inl err) \<Rightarrow> Returned (Inl err)
           | Returned (Inr streams) \<Rightarrow> Returned (Inr (any_customer_stream streams)))
        })
   }"

fun any_sap_stream :: "string list \<Rightarrow> bool" where
  "any_sap_stream [] = False"
| "any_sap_stream (stream # streams) = (if stream = SapStreamName then True else any_sap_stream streams)"

definition sapStreamConsumerExists :: "'w libs \<Rightarrow> NATS \<Rightarrow> ('w, 'z, (go_error + bool) outcome) rec_m" where
  "sapStreamConsumerExists L nats = do {
     c \<leftarrow> getNatsClient nats;
     (case c of
        None \<Rightarrow> ret Panicked
      | Some c \<Rightarrow> do {
          r \<leftarrow> GetStreams L c;
          (case r of
             Panicked \<Rightarrow> ret Panicked
           | Returned (Inl err) \<Rightarrow> ret (Returned (Inl err))
           | Returned (Inr streams) \<Rightarrow>
               if \<not> any_sap_stream streams then ret (Returned (Inr False))
               else ConsumersExist L c SapStreamName)
        })
   }"

definition closeNatsClient :: "'w libs \<Rightarrow> NATS \<Rightarrow> ('w, 'z, unit) rec_m" where
  "closeNatsClient L nats = do {
     c \<leftarrow> getNatsClient nats;
     (case c of
        None \<Rightarrow> ret ()
      | Some c \<Rightarrow> do {
          Close L c;
          setNatsClient nats None
        })
   }"

definition pvcSelector :: "NATS \<Rightarrow> string" where
  "pvcSelector nats =
     (let labelValue = (if nName nats = ''eventing-nats'' then ''eventing'' else nName nats) in
      InstanceLabelKey @ ''='' @ labelValue)"

definition deletePVCsAndRemoveFinalizer :: "'w libs \<Rightarrow> NATS \<Rightarrow> ('w, 'z, Result \<times> go_error option) rec_m" where
  "deletePVCsAndRemoveFinalizer L nats = do {
     err \<leftarrow> DeletePVCsWithLabel L (pvcSelector nats) (nName nats) (nNamespace nats);
     (case err of
        Some e \<Rightarrow> ret (emptyResult, ignore_not_found (meta L) e)
      | None \<Rightarrow> do {
          closeNatsClient L nats;
          removeFinalizer L nats
        })
   }"

text \<open>The two branches that block a deletion.\<close>

definition block_deletion :: "'w libs \<Rightarrow> NATS \<Rightarrow> string \<Rightarrow> (('w, 'z) host_scheme, Result \<times> go_error option) state" where
  "block_deletion L nats msg = do {
     st \<leftarrow> ret (SetStateWarning (nStatus nats));
     st \<leftarrow> UpdateConditionDeletion L st ConditionFalse ConditionReasonDeletionError msg;
     eventWarn L ConditionReasonDeletionError msg [];
     err \<leftarrow> syncNATSStatus L (nats\<lparr>nStatus := st\<rparr>);
     ret (emptyResult\<lparr>Requeue := True\<rparr>, err)
   }"

definition handleNATSDeletion :: "'w libs \<Rightarrow> NATS \<Rightarrow> ('w, 'z, handled) rec_m" where
  "handleNATSDeletion L nats = do {
     ResetAvailabilityZonesUsedMetric L;
     ResetClusterSizeMetric L;
     (if \<not> containsFinalizer (meta L) nats then ret (Returned (emptyResult, None))
      else do {
        nats \<leftarrow> ret (nats\<lparr>nStatus := SetStateDeleting (nStatus nats)\<rparr>);
        eventNormal L ConditionReasonDeleting ''Deleting the NATS cluster.'' [];
        conn \<leftarrow> createAndConnectNatsClient L nats;
        (case conn of
           Panicked \<Rightarrow> ret Panicked
         | Returned (Some err) \<Rightarrow> do { r \<leftarrow> deletePVCsAndRemoveFinalizer L nats; ret (Returned r) }
         | Returned None \<Rightarrow> do {
             cust \<leftarrow> customerStreamExists L nats;
             (case cust of
                Panicked \<Rightarrow> ret Panicked
              | Returned (Inl err) \<Rightarrow> do { r \<leftarrow> deletePVCsAndRemoveFinalizer L nats; ret (Returned r) }
              | Returned (Inr True) \<Rightarrow> do { r \<leftarrow> block_deletion L nats StreamExistsErrorMsg; ret (Returned r) }
              | Returned (Inr False) \<Rightarrow> do {
                  sap \<leftarrow> sapStreamConsumerExists L nats;
                  (case sap of
                     Panicked \<Rightarrow> ret Panicked
                   | Returned (Inl err) \<Rightarrow> do { r \<leftarrow> deletePVCsAndRemoveFinalizer L nats; ret (Returned r) }
                   | Returned (Inr True) \<Rightarrow> do { r \<leftarrow> block_deletion L nats ConsumerExistsErrorMsg; ret (Returned r) }
                   | Returned (Inr False) \<Rightarrow> do { r \<leftarrow> deletePVCsAndRemoveFinalizer L nats; ret (Returned r) })
                })
           })
      })
   }"

section \<open>Reconcile and setup\<close>

text \<open>\<^verbatim>\<open>IsInDeletion\<close> of \<^verbatim>\<open>api/v1alpha1/nats_types.go\<close>.\<close>

definition IsInDeletion :: "meta_lib \<Rightarrow> NATS \<Rightarrow> bool" where
  "IsInDeletion M nats = (\<not> time_is_zero M (nDeletionTimestamp nats))"

definition Reconcile :: "'w libs \<Rightarrow> reconciler_config \<Rightarrow> string \<Rightarrow> string \<Rightarrow> ('w, 'z, handled) rec_m" where
  "Reconcile L C name namespace = do {
     r \<leftarrow> clientGetNATS L name namespace;
     (case r of
        Inl err \<Rightarrow> ret (Returned (emptyResult, ignore_not_found (meta L) err))
      | Inr nats \<Rightarrow>
          if IsInDeletion (meta L) nats then handleNATSDeletion L nats
          else
            (case allowedNATSCR C of
               None \<Rightarrow> handleNATSReconcile L C nats
             | Some allowed \<Rightarrow> do {
                 (result, err) \<leftarrow> handleNATSCRAllowedCheck L allowed nats;
                 (if \<not> result \<or> err \<noteq> None then ret (Returned (emptyResult, err))
                  else handleNATSReconcile L C nats)
               }))
   }"

text \<open>
  \<^verbatim>\<open>SetupWithManager\<close>: what it tells the controller builder, and the function that maps a pod event to
  the requests it enqueues. \<open>build\<close> is the builder: it returns a controller or an error (and then the
  controller is nil).
\<close>

datatype owned = OwnStatefulSet | OwnService | OwnConfigMap | OwnSecret | OwnPodDisruptionBudget

record controller_spec =
  csOwns :: "owned list"
  csPodPredicate :: selector

fun mapPodToRequests :: "reconciler_config \<Rightarrow> (string \<times> string) list" where
  "mapPodToRequests C =
     (case allowedNATSCR C of
        None \<Rightarrow> []
      | Some allowed \<Rightarrow> [(nNamespace allowed, nName allowed)])"

definition natsControllerSpec :: controller_spec where
  "natsControllerSpec = \<lparr>
     csOwns = [OwnStatefulSet, OwnService, OwnConfigMap, OwnSecret, OwnPodDisruptionBudget],
     csPodPredicate = SetSelector getNATSPodsMatchLabels\<rparr>"

definition SetupWithManager ::
  "'w libs \<Rightarrow> (controller_spec \<Rightarrow> go_error option) \<Rightarrow> ('w, 'z, go_error option) rec_m" where
  "SetupWithManager L build = do {
     modify (\<lambda>s. s\<lparr>ctrlManager_set := True\<rparr>);
     (case label_selector_as_selector (meta L) getNATSPodsMatchLabels of
        Some err \<Rightarrow> ret (Some err)
      | None \<Rightarrow> do {
          err \<leftarrow> ret (build natsControllerSpec);
          modify (\<lambda>s. s\<lparr>controller_set := (err = None)\<rparr>);
          ret err
        })
   }"

end
