(* ===== verification/ReconcilerFrames.thy ===== *)
theory ReconcilerFrames
  imports Reconciler
begin

text \<open>
  What a reconciliation may do, followed once through the text of all handlers: the locale \<open>rec_frame\<close>
  takes a reflexive and transitive relation on states and the actions it admits, assumes it of the few
  primitive steps, and concludes it of every operation of the reconciler. Its instances are the frames
  of the trace (which actions a path can emit) and of each part of the state.
\<close>

section \<open>The actions of each path\<close>

text \<open>Reads and writes of the status handling all paths share.\<close>

fun status_action :: "action \<Rightarrow> bool" where
  "status_action (ANow t) = True"
| "status_action (AGetNATS n ns r) = True"
| "status_action (AUpdateStatus n e) = True"
| "status_action (AEvent ty rn fmt args) = True"
| "status_action _ = False"

text \<open>Reading the state of the StatefulSets and the zones, and recording a metric.\<close>

fun observe_action :: "action \<Rightarrow> bool" where
  "observe_action (AGetStatefulSet n ns r) = True"
| "observe_action (AListPods ns sel r) = True"
| "observe_action (AGetNode n r) = True"
| "observe_action (AGaugeSet g v) = True"
| "observe_action _ = False"

fun render_action :: "action \<Rightarrow> bool" where
  "render_action (AGetCRD n r) = True"
| "render_action (AGetSecret n ns r) = True"
| "render_action (AHelmInit ns r) = True"
| "render_action (AHelmRun ia c e m) = True"
| "render_action _ = False"

definition destination_rule_watch :: "action \<Rightarrow> bool" where
  "destination_rule_watch a \<longleftrightarrow>
     (\<exists>e. a = AWatch DestinationRuleKind DestinationRuleAPIVersion managed_by_selector e)"

definition provision_action :: "'w libs \<Rightarrow> string \<Rightarrow> NATS \<Rightarrow> action \<Rightarrow> bool" where
  "provision_action L fm nats a \<longleftrightarrow>
     status_action a \<or> observe_action a \<or> render_action a \<or> destination_rule_watch a \<or>
     (\<exists>n ns r. a = AGetConfigMap n ns r) \<or>
     (\<exists>object e. a = APatchApply object True fm e) \<or>
     (\<exists>st e. a = AUpdateNATS (nats\<lparr>nStatus := st,
        nFinalizers := add_finalizer_to (meta L) (nFinalizers nats) NATSFinalizerName\<rparr>) e)"

text \<open>Looking at the NATS server before a deletion.\<close>

fun probe_action :: "action \<Rightarrow> bool" where
  "probe_action (AConnect url timeout name r) = True"
| "probe_action (AIsConnected c b) = True"
| "probe_action (AConnStatus c st) = True"
| "probe_action (AJetStream c r) = True"
| "probe_action (AStreams j xs) = True"
| "probe_action (AConsumers j st xs) = True"
| "probe_action _ = False"

definition remove_action :: "'w libs \<Rightarrow> NATS \<Rightarrow> action \<Rightarrow> bool" where
  "remove_action L nats a \<longleftrightarrow>
     (\<exists>sel r. a = AListPVCs (nNamespace nats) sel r) \<or>
     (\<exists>pvc e. a = ADeletePVC pvc e \<and> has_prefix (pvcName pvc) (nName nats)) \<or>
     (\<exists>c. a = AConnClose c) \<or>
     (\<exists>st e. a = AUpdateNATS (nats\<lparr>nStatus := st,
        nFinalizers := remove_finalizer_from (meta L) (nFinalizers nats) NATSFinalizerName\<rparr>) e)"

definition deprovision_action :: "'w libs \<Rightarrow> NATS \<Rightarrow> action \<Rightarrow> bool" where
  "deprovision_action L nats a \<longleftrightarrow>
     status_action a \<or> probe_action a \<or> remove_action L nats a \<or> (\<exists>g. a = AGaugeReset g)"

text \<open>
  The two actions that depend on the state they are made in: a status is written after a fresh read, and
  the watch is started once. A frame says separately what it asks of them.
\<close>

fun guarded_action :: "action \<Rightarrow> bool" where
  "guarded_action (AUpdateStatus n e) = True"
| "guarded_action (AWatch k v sel e) = (e = None)"
| "guarded_action _ = False"

section \<open>The frame of the reconciler\<close>

locale rec_frame = frame_rel R for R :: "('w, 'z) reconciler_scheme \<Rightarrow> ('w, 'z) reconciler_scheme \<Rightarrow> bool" +
  fixes L :: "'w libs" and ok :: "action \<Rightarrow> bool" and sync_ok :: "NATS \<Rightarrow> bool" and watch_ok :: bool
  assumes on_call: "ok a \<Longrightarrow> R s (s\<lparr>world := w, trace := trace s @ [a]\<rparr>)"
    and on_values: "R s (s\<lparr>helmValues := v\<rparr>)"
    and on_zone: "known_zone s n = None \<Longrightarrow> z \<noteq> [] \<Longrightarrow>
      R s (s\<lparr>nodesZoneCache := (nodesZoneCache s)(n \<mapsto> z)\<rparr>)"
    and on_provider: "cloudProvider s = None \<Longrightarrow> R s (s\<lparr>cloudProvider := Some p\<rparr>)"
    and on_client: "(\<And>c. x = Some c \<Longrightarrow>
        ncConfig c = \<lparr>ccURL = Format (nName n1) (nNamespace n1), ccTimeout = 0\<rparr> \<or>
        (\<exists>c0. natsClients s (crKey n1) = Some (Some c0) \<and> ncConfig c = ncConfig c0)) \<Longrightarrow>
      R s (s\<lparr>natsClients := (natsClients s)(crKey n1 \<mapsto> x)\<rparr>)"
    and on_sync: "sync_ok nats \<Longrightarrow> state_io_rel R (syncNATSStatus L nats)"
    and on_watch: "watch_ok \<Longrightarrow> \<not> destinationRuleWatchStarted s \<Longrightarrow>
      R s (s\<lparr>world := w,
        trace := trace s @ [AWatch DestinationRuleKind DestinationRuleAPIVersion managed_by_selector None],
        destinationRuleWatchStarted := True\<rparr>)"
begin

lemma call: "(\<And>r. ok (act r)) \<Longrightarrow> state_io_rel R (ext_call f act)"
  by (auto simp: state_io_rel_def on_call split: prod.splits)

lemmas fr = f_rules(1-10) f_bool call

lemma status_ops:
  assumes "\<And>t. ok (ANow t)"
  shows "state_io_rel R (UpdateConditionStatefulSet L ns st rn msg)"
    and "state_io_rel R (UpdateConditionAvailable L ns st rn msg)"
    and "state_io_rel R (UpdateConditionAvailabilityZones L ns st rn msg)"
    and "state_io_rel R (UpdateConditionDeletion L ns st rn msg)"
    and "state_io_rel R (SetStateReady L ns)"
    and "state_io_rel R (SetWaitingStateForStatefulSet L ns)"
    and "state_io_rel R (SetStateError L ns)"
    and "state_io_rel R (Initialize L ns)"
  unfolding SetStateReady_def SetWaitingStateForStatefulSet_def SetStateError_def Initialize_def
    UpdateConditionStatefulSet_def UpdateConditionAvailable_def UpdateConditionAvailabilityZones_def
    UpdateConditionDeletion_def update_condition_def nowM_def
  by (intro fr assms)+

lemma event_ops:
  assumes "\<And>ty rn fmt args. ok (AEvent ty rn fmt args)"
  shows "state_io_rel R (eventWarn L rn fmt args)" and "state_io_rel R (eventNormal L rn fmt args)"
  unfolding eventWarn_def eventNormal_def recorderEventf_def ext_do_def
  by (intro fr assms)+

lemma sync_status:
  assumes "\<And>t. ok (ANow t)" and "\<And>st. sync_ok (nats\<lparr>nStatus := st\<rparr>)"
  shows "state_io_rel R (syncNATSStatus L (nats\<lparr>nStatus := st\<rparr>))"
    and "state_io_rel R (syncNATSStatusWithErr L nats err)"
    and "state_io_rel R (syncNATSStatusWithErr L (nats\<lparr>nStatus := st\<rparr>) err)"
  unfolding syncNATSStatusWithErr_def
  by (intro fr status_ops on_sync assms | simp)+

lemma metric_ops:
  assumes "\<And>g v. ok (AGaugeSet g v)"
  shows "state_io_rel R (RecordAvailabilityZonesUsedMetric L n)"
    and "state_io_rel R (RecordClusterSizeMetric L n)"
  unfolding RecordAvailabilityZonesUsedMetric_def RecordClusterSizeMetric_def gaugeSet_def ext_do_def
  by (intro fr assms)+

lemma reset_ops:
  assumes "\<And>g. ok (AGaugeReset g)"
  shows "state_io_rel R (ResetAvailabilityZonesUsedMetric L)"
    and "state_io_rel R (ResetClusterSizeMetric L)"
  unfolding ResetAvailabilityZonesUsedMetric_def ResetClusterSizeMetric_def gaugeReset_def ext_do_def
  by (intro fr assms)+

lemma node_zone:
  assumes "\<And>n r. ok (AGetNode n r)"
  shows "state_io_rel R (GetNodeZone L n)"
proof (rule state_io_relI)
  fix s s' :: "('w, 'z) reconciler_scheme" and r
  assume run: "run_state (GetNodeZone L n) s = (r, s')"
  show "R s s'"
  proof (cases "known_zone s n")
    case (Some z)
    with run show ?thesis by (simp add: GetNodeZone_hit frame_refl)
  next
    case None
    obtain a w where api: "api_get_node (kapi L) n (world s) = (a, w)" by force
    let ?s1 = "s\<lparr>world := w, trace := trace s @ [AGetNode n a]\<rparr>"
    have s1: "R s ?s1" using on_call assms by blast
    have "s' = ?s1 \<or> (\<exists>z. z \<noteq> [] \<and> s' = ?s1\<lparr>nodesZoneCache := (nodesZoneCache ?s1)(n \<mapsto> z)\<rparr>)"
      using run None api by (auto simp: GetNodeZone_miss Let_def split: sum.splits option.splits if_splits)
    moreover have "R ?s1 (?s1\<lparr>nodesZoneCache := (nodesZoneCache ?s1)(n \<mapsto> z)\<rparr>)" if "z \<noteq> []" for z
      by (rule on_zone [OF _ that]) (simp add: None)
    ultimately show ?thesis using s1 frame_trans by blast
  qed
qed

lemma zones_count:
  assumes "\<And>a. observe_action a \<Longrightarrow> ok a"
  shows "state_io_rel R (GetNumberOfAvailabilityZonesUsedByPods L ns ls)"
proof -
  have "state_io_rel R (pod_zones (GetNodeZone L) acc pods)" for acc pods
    by (induction pods arbitrary: acc) (auto intro!: fr node_zone assms)
  then show ?thesis
    unfolding GetNumberOfAvailabilityZonesUsedByPods_def GetPodsByLabels_def clientListPods_def
    by (intro fr assms | simp)+
qed

lemma statefulset_ready:
  assumes "\<And>a. observe_action a \<Longrightarrow> ok a"
  shows "state_io_rel R (IsNATSStatefulSetReady L inst)"
proof -
  have "state_io_rel R (sts_ready_loop L objs)" for objs
    by (induction objs) (auto simp: GetStatefulSet_def clientGetStatefulSet_def intro!: fr assms)
  then show ?thesis unfolding IsNATSStatefulSetReady_def Let_def by (intro fr | simp)+
qed

lemma handle_state:
  assumes st: "\<And>a. status_action a \<Longrightarrow> \<not> guarded_action a \<Longrightarrow> ok a" and sync: "\<And>st. sync_ok (nats\<lparr>nStatus := st\<rparr>)"
    and obs: "\<And>a. observe_action a \<Longrightarrow> ok a"
  shows "state_io_rel R (handleNATSState L nats inst)"
  unfolding handleNATSState_def report_zones_def zones_status_def Let_def bind_left_identity
  by (intro fr statefulset_ready zones_count sync_status(1,3) event_ops metric_ops status_ops; simp add: st obs sync)

lemma values_modify: "state_io_rel R (modify (\<lambda>s. s\<lparr>helmValues := v\<rparr>))"
  by (rule f_modify) (rule on_values)

lemma init_instance:
  assumes "\<And>a. render_action a \<Longrightarrow> ok a"
  shows "state_io_rel R (initNATSInstance L C nats)"
  unfolding initNATSInstance_def DestinationRuleCRDExists_def GetCRD_def clientsetGetCRD_def GetSecret_def
    clientGetSecret_def generateNatsResources_def GenerateNATSResources_def RenderManifestAsUnstructured_def
    RenderManifest_def overrideChartConfiguration_def getChartConfiguration_def newTemplatingAction_def
    newActionConfig_def helmRun_def Let_def
  by (intro fr values_modify assms | simp)+

lemma deploy:
  assumes "\<And>object e. ok (APatchApply object True fm e)"
  shows "state_io_rel R (DeployInstance L fm inst)"
  unfolding DeployInstance_def PatchApply_def clientPatchApply_def
  by (intro fr assms | simp)+

lemma cloud_provider:
  assumes "\<And>n ns r. ok (AGetConfigMap n ns r)"
  shows "state_io_rel R (syncCloudProvider L)"
proof (rule state_io_relI)
  fix s s' :: "('w, 'z) reconciler_scheme" and r
  assume run: "run_state (syncCloudProvider L) s = (r, s')"
  show "R s s'"
  proof (cases "cloudProvider s")
    case (Some p)
    with run show ?thesis by (simp add: syncCloudProvider_def frame_refl)
  next
    case None
    obtain a w where api: "api_get_configmap (kapi L) shootInfoConfigMapName shootInfoConfigMapNamespace (world s) = (a, w)"
      by force
    let ?s1 = "s\<lparr>world := w, trace := trace s @ [AGetConfigMap shootInfoConfigMapName shootInfoConfigMapNamespace a]\<rparr>"
    have "R s ?s1" by (intro on_call assms)
    moreover have "s' = ?s1 \<or> (\<exists>p. s' = ?s1\<lparr>cloudProvider := Some p\<rparr>)"
      using run None api
      by (auto simp: syncCloudProvider_def GetConfigMap_def clientGetConfigMap_def Let_def
          split: sum.splits if_splits)
    moreover have "R ?s1 (?s1\<lparr>cloudProvider := Some p\<rparr>)" for p
      by (rule on_provider) (simp add: None)
    ultimately show ?thesis using frame_trans by blast
  qed
qed

lemma start_watch:
  assumes "watch_ok" and "\<And>e. ok (AWatch DestinationRuleKind DestinationRuleAPIVersion managed_by_selector (Some e))"
  shows "state_io_rel R (startDestinationRuleWatch L inst)"
proof (rule state_io_relI)
  fix s s' :: "('w, 'z) reconciler_scheme" and r
  assume run: "run_state (startDestinationRuleWatch L inst) s = (r, s')"
  obtain a w where api: "api_watch (kapi L) DestinationRuleKind DestinationRuleAPIVersion managed_by_selector (world s) = (a, w)"
    by force
  let ?t = "trace s @ [AWatch DestinationRuleKind DestinationRuleAPIVersion managed_by_selector a]"
  let ?act = "riIstioEnabled inst \<and> \<not> destinationRuleWatchStarted s \<and> ctrlManager_set s \<and>
    controller_set s \<and> label_selector_as_selector (meta L) [(ManagedByLabelKey, ManagedByLabelValue)] = None"
  have "s' = (if ?act then
      (if a = None then s\<lparr>world := w, trace := ?t, destinationRuleWatchStarted := True\<rparr>
       else s\<lparr>world := w, trace := ?t\<rparr>) else s)"
    using run unfolding startDestinationRuleWatch_def watchDestinationRule_def controllerWatch_def
    by (cases a; cases "riIstioEnabled inst"; cases "destinationRuleWatchStarted s";
        cases "ctrlManager_set s"; cases "controller_set s")
      (simp_all add: api split: option.splits if_splits)
  then consider "s' = s"
    | e where "a = Some e" "s' = s\<lparr>world := w, trace := ?t\<rparr>"
    | "a = None" "\<not> destinationRuleWatchStarted s"
        "s' = s\<lparr>world := w, trace := ?t, destinationRuleWatchStarted := True\<rparr>"
    by (cases ?act; cases a) simp_all
  then show "R s s'"
  proof cases
    case 1
    then show ?thesis by (simp add: frame_refl)
  next
    case 2
    then show ?thesis using on_call [OF assms(2)] by simp
  next
    case 3
    then show ?thesis using on_watch [OF assms(1)] by simp
  qed
qed

lemma fail_provisioning:
  assumes "\<And>a. status_action a \<Longrightarrow> \<not> guarded_action a \<Longrightarrow> ok a" and "\<And>st. sync_ok (nats\<lparr>nStatus := st\<rparr>)"
  shows "state_io_rel R (fail_provisioning L nats fmt err)"
  unfolding fail_provisioning_def
  by (intro fr event_ops sync_status assms | simp)+

lemma add_finalizer:
  assumes "\<And>e. ok (AUpdateNATS (nats\<lparr>nFinalizers := add_finalizer_to (meta L) (nFinalizers nats) NATSFinalizerName\<rparr>) e)"
  shows "state_io_rel R (addFinalizer L nats)"
  unfolding addFinalizer_def clientUpdateNATS_def bind_left_identity
  by (intro fr assms)

theorem handle_reconcile:
  assumes ok: "\<And>a. provision_action L (fieldManager C) nats a \<Longrightarrow> \<not> guarded_action a \<Longrightarrow> ok a"
    and sync: "\<And>st. sync_ok (nats\<lparr>nStatus := st\<rparr>)" and w: watch_ok
  shows "state_io_rel R (handleNATSReconcile L C nats)"
proof -
  have st: "ok a" if "status_action a" "\<not> guarded_action a" for a
    using ok that by (simp add: provision_action_def)
  have obs: "ok a" if "observe_action a" for a
    using ok [of a] that by (cases a) (simp_all add: provision_action_def)
  have rend: "ok a" if "render_action a" for a
    using ok [of a] that by (cases a) (simp_all add: provision_action_def)
  have "state_io_rel R (addFinalizer L (nats\<lparr>nStatus := x\<rparr>))" for x
    by (rule add_finalizer, rule ok) (force simp: provision_action_def)+
  moreover have "state_io_rel R (startDestinationRuleWatch L inst)" for inst
    by (rule start_watch [OF w], rule ok) (auto simp: provision_action_def destination_rule_watch_def)
  moreover have "state_io_rel R (DeployInstance L (fieldManager C) inst)" for inst
    by (rule deploy, rule ok) (simp_all add: provision_action_def)
  moreover have "state_io_rel R (syncCloudProvider L)"
    by (rule cloud_provider, rule ok) (simp_all add: provision_action_def)
  ultimately show ?thesis
    unfolding handleNATSReconcile_def bind_left_identity
    by (intro fr metric_ops status_ops event_ops init_instance fail_provisioning handle_state; simp add: st obs rend sync)
qed

end

end
