(* ===== verification/Deprovisioning.thy ===== *)
theory Deprovisioning
  imports ReconcilerFrames
begin

text \<open>
  \<^verbatim>\<open>internal/controller/nats/deprovisioner.go\<close>: when a NATS cluster may be deleted. The questions put to
  the NATS server and its answers are read off the trace; a complete inquiry has an abstract verdict,
  which the handler refines.
\<close>

section \<open>Opening the client\<close>

lemma host_more_fields:
  fixes s s' :: "('w, 'z) reconciler_scheme"
  assumes "host.more s' = host.more s"
  shows "natsClients s' = natsClients s" "controller_set s' = controller_set s"
    "ctrlManager_set s' = ctrlManager_set s" "destinationRuleWatchStarted s' = destinationRuleWatchStarted s"
    "cloudProvider s' = cloudProvider s" "nodesZoneCache s' = nodesZoneCache s"
  using assms by (cases s; cases s'; simp)+

text \<open>
  The questions put to the NATS server are read off the calls made, each with its answer. Every reader
  takes the calls its question begins with and returns what they answer, with the calls that are left; it
  returns none when the question was not put, or was put to another connection.
\<close>

fun status_answer :: "conn \<Rightarrow> action \<Rightarrow> conn_state option" where
  "status_answer c (AConnStatus c1 st) = (if c1 = c then Some st else None)"
| "status_answer c _ = None"

fun dial_answer :: "client_config \<Rightarrow> action \<Rightarrow> (go_error + conn) option" where
  "dial_answer cfg (AConnect url timeout name r) =
     (if url = ccURL cfg \<and> timeout = ccTimeout cfg \<and> name = ''NATS Manager'' then Some r else None)"
| "dial_answer cfg _ = None"

fun connected_answer :: "conn \<Rightarrow> action \<Rightarrow> bool option" where
  "connected_answer c (AIsConnected c1 up) = (if c1 = c then Some up else None)"
| "connected_answer c _ = None"

fun js_answer :: "conn \<Rightarrow> action \<Rightarrow> (go_error + js_ctx) option" where
  "js_answer c (AJetStream c1 r) = (if c1 = c then Some r else None)"
| "js_answer c _ = None"

fun stream_answer :: "js_ctx \<Rightarrow> action \<Rightarrow> string list option" where
  "stream_answer j (AStreams j1 xs) = (if j1 = j then Some xs else None)"
| "stream_answer j _ = None"

fun consumer_answer :: "js_ctx \<Rightarrow> action \<Rightarrow> string list option" where
  "consumer_answer j (AConsumers j1 stream cs) = (if j1 = j \<and> stream = ''sap'' then Some cs else None)"
| "consumer_answer j _ = None"

text \<open>A new connection, when it could be had.\<close>

fun dialled :: "natsClient \<Rightarrow> action list \<Rightarrow> (conn option \<times> action list) option" where
  "dialled k [] = None"
| "dialled k (a # as) = (case dial_answer (ncConfig k) a of
      None \<Rightarrow> None
    | Some (Inl err) \<Rightarrow> Some (None, as)
    | Some (Inr c) \<Rightarrow> (case as of [] \<Rightarrow> None
        | b # bs \<Rightarrow> map_option (\<lambda>up. (if up then Some c else None, bs)) (connected_answer c b)))"

text \<open>The connection the client \<open>k\<close> works with: its own while that is connected, else a new one.\<close>

definition opened :: "natsClient \<Rightarrow> action list \<Rightarrow> (conn option \<times> action list) option" where
  "opened k as = (case ncConn k of
      None \<Rightarrow> dialled k as
    | Some c \<Rightarrow> (case as of [] \<Rightarrow> None
        | a # bs \<Rightarrow> (case status_answer c a of
            None \<Rightarrow> None
          | Some st \<Rightarrow> if st = CONNECTED then Some (Some c, bs) else dialled k bs)))"

text \<open>The names of the streams, and the consumers of the \<^verbatim>\<open>sap\<close> stream: none when JetStream failed.\<close>

definition asked ::
  "(js_ctx \<Rightarrow> action \<Rightarrow> string list option) \<Rightarrow> conn \<Rightarrow> action list \<Rightarrow> (string list option \<times> action list) option" where
  "asked reader c as = (case as of [] \<Rightarrow> None
     | a # bs \<Rightarrow> (case js_answer c a of
          None \<Rightarrow> None
        | Some (Inl err) \<Rightarrow> Some (None, bs)
        | Some (Inr j) \<Rightarrow> (case bs of [] \<Rightarrow> None
            | b # rest \<Rightarrow> map_option (\<lambda>xs. (Some xs, rest)) (reader j b))))"

abbreviation listed :: "conn \<Rightarrow> action list \<Rightarrow> (string list option \<times> action list) option" where
  "listed \<equiv> asked stream_answer"

abbreviation consumed :: "conn \<Rightarrow> action list \<Rightarrow> (string list option \<times> action list) option" where
  "consumed \<equiv> asked consumer_answer"

text \<open>A client opened or kept by \<^verbatim>\<open>Init\<close>, or the evidence that none could be had.\<close>

lemma Init_spec:
  assumes "run_state (Init L c) s = ((c', err), s')"
  shows "ncConfig c' = ncConfig c" "host.more s' = host.more s"
    "\<exists>as. trace s' = trace s @ as \<and> list_all probe_action as \<and>
      (\<forall>rest. opened c (as @ rest) = Some (if err = None then ncConn c' else None, rest)) \<and>
      (if err = None then connected c' else c' = c)"
  using assms
  by (auto simp: Init_def must_connect_def connected_def conn_Status_def connStatus_def natsConnect_def
      connIsConnected_def opened_def split: option.splits prod.splits sum.splits if_splits)

text \<open>The client of a resource in a state.\<close>

definition client_of :: "('w, 'z) reconciler_scheme \<Rightarrow> NATS \<Rightarrow> natsClient option" where
  "client_of s nats = (case natsClients s (crKey nats) of None \<Rightarrow> None | Some c \<Rightarrow> c)"

lemma run_getNatsClient [simp]: "run_state (getNatsClient nats) s = (client_of s nats, s)"
  by (simp add: getNatsClient_def client_of_def)

lemma run_setNatsClient [simp]:
  "run_state (setNatsClient nats x) s = ((), s\<lparr>natsClients := (natsClients s)(crKey nats \<mapsto> x)\<rparr>)"
  by (simp add: setNatsClient_def)

lemma client_of_upd [simp]:
  "client_of (s\<lparr>natsClients := (natsClients s)(crKey nats \<mapsto> x)\<rparr>) nats = x"
  by (simp add: client_of_def)

definition new_client :: "NATS \<Rightarrow> natsClient" where
  "new_client nats = NewNatsClient \<lparr>ccURL = Format (nName nats) (nNamespace nats), ccTimeout = 0\<rparr>"

text \<open>The client a deletion works with: the stored one, or a new one for the server of the resource.\<close>

definition client_for :: "('w, 'z) reconciler_scheme \<Rightarrow> NATS \<Rightarrow> natsClient" where
  "client_for s nats = (case client_of s nats of None \<Rightarrow> new_client nats | Some k \<Rightarrow> k)"

text \<open>\<^verbatim>\<open>createAndConnectNatsClient\<close> in one step: \<^verbatim>\<open>Init\<close> on the stored client or on a new one.\<close>

lemma createAndConnect_run:
  fixes s s' :: "('w, 'z) reconciler_scheme"
  assumes "run_state (createAndConnectNatsClient L nats) s = (r, s')"
  obtains c s1 c' err s2 where
    "c = (case client_of s nats of None \<Rightarrow> new_client nats | Some c \<Rightarrow> c)"
    "s1 = (case client_of s nats of None \<Rightarrow> s\<lparr>natsClients := (natsClients s)(crKey nats \<mapsto> Some c)\<rparr> | Some _ \<Rightarrow> s)"
    "client_of s1 nats = Some c"
    "run_state (Init L c) s1 = ((c', err), s2)" "r = Returned err"
    "s' = s2\<lparr>natsClients := (natsClients s2)(crKey nats \<mapsto> Some c')\<rparr>"
proof -
  let ?c = "case client_of s nats of None \<Rightarrow> new_client nats | Some c \<Rightarrow> c"
  let ?s1 = "case client_of s nats of None \<Rightarrow> s\<lparr>natsClients := (natsClients s)(crKey nats \<mapsto> Some ?c)\<rparr> | Some _ \<Rightarrow> s"
  obtain c' err s2 where i: "run_state (Init L ?c) ?s1 = ((c', err), s2)" by (metis prod.exhaust)
  have "r = Returned err \<and> s' = s2\<lparr>natsClients := (natsClients s2)(crKey nats \<mapsto> Some c')\<rparr>"
    using assms i by (cases "client_of s nats") (simp_all add: createAndConnectNatsClient_def new_client_def)
  moreover have "client_of ?s1 nats = Some ?c" by (simp split: option.splits)
  ultimately show thesis using i by (intro that [of ?c ?s1 c' err s2]) simp_all
qed

lemma connect_spec:
  assumes "run_state (createAndConnectNatsClient L nats) s = (r, s')"
  shows "\<exists>err as k. r = Returned err \<and> trace s' = trace s @ as \<and> list_all probe_action as \<and>
    client_of s' nats = Some k \<and>
    (\<forall>rest. opened (client_for s nats) (as @ rest) = Some (if err = None then ncConn k else None, rest)) \<and>
    (if err = None then connected k else ncConn k = ncConn (client_for s nats))"
proof (rule createAndConnect_run [OF assms])
  fix c s1 c' err s2
  assume c: "c = (case client_of s nats of None \<Rightarrow> new_client nats | Some c \<Rightarrow> c)"
    and s1: "s1 = (case client_of s nats of None \<Rightarrow> s\<lparr>natsClients := (natsClients s)(crKey nats \<mapsto> Some c)\<rparr> | Some _ \<Rightarrow> s)"
    and i: "run_state (Init L c) s1 = ((c', err), s2)" and r: "r = Returned err"
    and s': "s' = s2\<lparr>natsClients := (natsClients s2)(crKey nats \<mapsto> Some c')\<rparr>"
  have t: "trace s1 = trace s" and k: "client_of s' nats = Some c'" and f: "client_for s nats = c"
    using s1 by (simp_all add: s' c client_for_def split: option.splits)
  from Init_spec(3) [OF i] obtain as where "trace s2 = trace s1 @ as" "list_all probe_action as"
    "\<forall>rest. opened c (as @ rest) = Some (if err = None then ncConn c' else None, rest)"
    "if err = None then connected c' else c' = c" by blast
  then show ?thesis
    using r t k unfolding f
    by (intro exI [of _ err] exI [of _ as] exI [of _ c']) (auto simp: s' split: if_splits)
qed

section \<open>Reading the streams\<close>

lemma jetstream_read_spec:
  assumes c: "client_of s nats = Some c" "ncConn c = Some cn"
    and run: "run_state (GetStreams L c) s = (r, s')"
  shows "host.more s' = host.more s \<and>
    ((\<exists>err. r = Returned (Inl (jetstream_error err)) \<and> trace s' = trace s @ [AJetStream cn (Inl err)]) \<or>
     (\<exists>j xs. r = Returned (Inr xs) \<and> trace s' = trace s @ [AJetStream cn (Inr j), AStreams j xs]))"
  using run unfolding GetStreams_alt
  by (auto simp: with_jetstream_run c jsStreams_def Let_def split: prod.splits sum.splits)

lemma any_customer_iff [simp]: "any_customer_stream xs \<longleftrightarrow> (\<exists>x \<in> set xs. x \<noteq> ''sap'')"
  by (induction xs) (auto simp: SapStreamName_def)

lemma any_sap_iff [simp]: "any_sap_stream xs \<longleftrightarrow> ''sap'' \<in> set xs"
  by (induction xs) (auto simp: SapStreamName_def)

lemma customer_spec:
  assumes c: "client_of s nats = Some c" "ncConn c = Some cn"
    and run: "run_state (customerStreamExists L nats) s = (r, s')"
  shows "\<exists>reads xs. trace s' = trace s @ reads \<and> list_all probe_action reads \<and> client_of s' nats = Some c \<and>
    (\<forall>rest. listed cn (reads @ rest) = Some (xs, rest)) \<and>
    (case xs of None \<Rightarrow> \<exists>err. r = Returned (Inl err)
     | Some xs \<Rightarrow> r = Returned (Inr (\<exists>x \<in> set xs. x \<noteq> ''sap'')))"
proof -
  obtain x t where g: "run_state (GetStreams L c) s = (x, t)" by force
  with run c have s': "s' = t" and r: "r = (case x of Panicked \<Rightarrow> Panicked
      | Returned (Inl err) \<Rightarrow> Returned (Inl err)
      | Returned (Inr streams) \<Rightarrow> Returned (Inr (any_customer_stream streams)))"
    by (simp_all add: customerStreamExists_def)
  have kept: "client_of t nats = Some c" if "host.more t = host.more s"
    using host_more_fields(1) [OF that] c(1) by (simp add: client_of_def)
  from jetstream_read_spec [OF c g] show ?thesis
  proof (elim conjE disjE exE)
    fix err assume "host.more t = host.more s" "x = Returned (Inl (jetstream_error err))"
      "trace t = trace s @ [AJetStream cn (Inl err)]"
    then show ?thesis using r s' kept
      by (intro exI [of _ "[AJetStream cn (Inl err)]"] exI [of _ None]) (simp add: asked_def)
  next
    fix j xs assume "host.more t = host.more s" "x = Returned (Inr xs)"
      "trace t = trace s @ [AJetStream cn (Inr j), AStreams j xs]"
    then show ?thesis using r s' kept
      by (intro exI [of _ "[AJetStream cn (Inr j), AStreams j xs]"] exI [of _ "Some xs"]) (simp add: asked_def)
  qed
qed

lemma consumers_spec:
  assumes c: "ncConn c = Some cn" and run: "run_state (ConsumersExist L c ''sap'') s = (r, s')"
  shows "host.more s' = host.more s \<and> (\<exists>reads cs. trace s' = trace s @ reads \<and> list_all probe_action reads \<and>
    (\<forall>rest. consumed cn (reads @ rest) = Some (cs, rest)) \<and>
    (case cs of None \<Rightarrow> \<exists>err. r = Returned (Inl err) | Some cs \<Rightarrow> r = Returned (Inr (cs \<noteq> []))))"
proof -
  have "host.more s' = host.more s \<and>
    ((\<exists>err. r = Returned (Inl (jetstream_error err)) \<and> trace s' = trace s @ [AJetStream cn (Inl err)]) \<or>
     (\<exists>j cs. r = Returned (Inr (cs \<noteq> [])) \<and> trace s' = trace s @ [AJetStream cn (Inr j), AConsumers j ''sap'' cs]))"
    using run unfolding ConsumersExist_alt
    by (auto simp: with_jetstream_run c jsConsumers_def Let_def split: prod.splits sum.splits)
  then show ?thesis
  proof (elim conjE disjE exE)
    fix err assume "host.more s' = host.more s" "r = Returned (Inl (jetstream_error err))"
      "trace s' = trace s @ [AJetStream cn (Inl err)]"
    then show ?thesis
      by (intro conjI exI [of _ "[AJetStream cn (Inl err)]"] exI [of _ None]) (simp_all add: asked_def)
  next
    fix j cs assume "host.more s' = host.more s" "r = Returned (Inr (cs \<noteq> []))"
      "trace s' = trace s @ [AJetStream cn (Inr j), AConsumers j ''sap'' cs]"
    then show ?thesis
      by (intro conjI exI [of _ "[AJetStream cn (Inr j), AConsumers j ''sap'' cs]"] exI [of _ "Some cs"])
        (simp_all add: asked_def)
  qed
qed

text \<open>
  The second question: is there a \<^verbatim>\<open>sap\<close> stream, and if so, has it a consumer? The streams are listed again,
  and only \<^verbatim>\<open>sap\<close> is looked for.
\<close>

datatype verdict =
    ServerUnreachable
  | StreamsUnreadable
  | CustomerStreamFound
  | SapConsumerFound
  | NothingToLose

definition at_end :: "action list \<Rightarrow> 'a \<Rightarrow> 'a option" where
  "at_end rest v = (if rest = [] then Some v else None)"

definition sap_inquiry :: "conn \<Rightarrow> action list \<Rightarrow> verdict option" where
  "sap_inquiry c as = (case listed c as of
      None \<Rightarrow> None
    | Some (None, rest) \<Rightarrow> at_end rest StreamsUnreadable
    | Some (Some ys, rest) \<Rightarrow>
        if ''sap'' \<notin> set ys then at_end rest NothingToLose
        else (case consumed c rest of
            None \<Rightarrow> None
          | Some (None, rest') \<Rightarrow> at_end rest' StreamsUnreadable
          | Some (Some cs, rest') \<Rightarrow> at_end rest' (if cs = [] then NothingToLose else SapConsumerFound)))"

lemma sap_spec:
  fixes s s' :: "('w, 'z) reconciler_scheme"
  assumes c: "client_of s nats = Some c" "ncConn c = Some cn"
    and run: "run_state (sapStreamConsumerExists L nats) s = (r, s')"
  shows "\<exists>reads v. trace s' = trace s @ reads \<and> list_all probe_action reads \<and> client_of s' nats = Some c \<and>
    sap_inquiry cn reads = Some v \<and>
    (case v of StreamsUnreadable \<Rightarrow> \<exists>err. r = Returned (Inl err) | SapConsumerFound \<Rightarrow> r = Returned (Inr True)
     | NothingToLose \<Rightarrow> r = Returned (Inr False) | _ \<Rightarrow> False)"
proof -
  obtain x t where g: "run_state (GetStreams L c) s = (x, t)" by force
  have r: "run_state (case x of Panicked \<Rightarrow> ret Panicked | Returned (Inl err) \<Rightarrow> ret (Returned (Inl err))
      | Returned (Inr streams) \<Rightarrow> if ''sap'' \<notin> set streams then ret (Returned (Inr False))
         else ConsumersExist L c SapStreamName) t = (r, s')"
    using run c g by (simp add: sapStreamConsumerExists_def)
  have kept: "client_of u nats = Some c" if "host.more u = host.more s" for u :: "('w, 'z) reconciler_scheme"
    using host_more_fields(1) [OF that] c(1) by (simp add: client_of_def)
  from jetstream_read_spec [OF c g] show ?thesis
  proof (elim conjE disjE exE)
    fix err assume "host.more t = host.more s" "x = Returned (Inl (jetstream_error err))"
      "trace t = trace s @ [AJetStream cn (Inl err)]"
    then show ?thesis using r kept
      by (intro exI [of _ "[AJetStream cn (Inl err)]"] exI [of _ StreamsUnreadable])
        (auto simp: asked_def sap_inquiry_def at_end_def)
  next
    fix j xs assume m: "host.more t = host.more s" and x: "x = Returned (Inr xs)"
      and t: "trace t = trace s @ [AJetStream cn (Inr j), AStreams j xs]"
    let ?reads = "[AJetStream cn (Inr j), AStreams j xs]"
    show ?thesis
    proof (cases "''sap'' \<in> set xs")
      case False
      with x r t m kept show ?thesis
        by (intro exI [of _ ?reads] exI [of _ NothingToLose]) (simp add: asked_def sap_inquiry_def at_end_def)
    next
      case True
      with x r have "run_state (ConsumersExist L c ''sap'') t = (r, s')" by (simp add: SapStreamName_def)
      from consumers_spec [OF c(2) this] obtain reads cs where m': "host.more s' = host.more t"
        and t': "trace s' = trace t @ reads" "list_all probe_action reads"
        and cs: "\<forall>rest. consumed cn (reads @ rest) = Some (cs, rest)"
        and out: "case cs of None \<Rightarrow> \<exists>err. r = Returned (Inl err) | Some cs \<Rightarrow> r = Returned (Inr (cs \<noteq> []))" by blast
      from cs [THEN spec, of "[]"] have "consumed cn reads = Some (cs, [])" by simp
      moreover have "listed cn (?reads @ reads) = Some (Some xs, reads)" by (simp add: asked_def)
      ultimately have v: "sap_inquiry cn (?reads @ reads) = Some (case cs of None \<Rightarrow> StreamsUnreadable
          | Some cs \<Rightarrow> if cs = [] then NothingToLose else SapConsumerFound)"
        using True by (simp add: sap_inquiry_def at_end_def split: option.split)
      have "client_of s' nats = Some c" using kept m m' by simp
      with v t t' out show ?thesis
        by (intro exI [of _ "?reads @ reads"]) (auto split: option.splits)
    qed
  qed
qed

section \<open>The verdict\<close>

text \<open>
  What the answers of the NATS server say about a deletion: there is no connection to ask over, JetStream
  failed, the first listing shows a stream other than \<^verbatim>\<open>sap\<close>, the second one shows a \<^verbatim>\<open>sap\<close> stream that
  has a consumer, or nothing is found. There is a verdict only for a complete inquiry: a question that
  was not put has no answer.
\<close>

definition streams_inquiry :: "conn \<Rightarrow> action list \<Rightarrow> verdict option" where
  "streams_inquiry c as = (case listed c as of
      None \<Rightarrow> None
    | Some (None, rest) \<Rightarrow> at_end rest StreamsUnreadable
    | Some (Some xs, rest) \<Rightarrow>
        if \<exists>x \<in> set xs. x \<noteq> ''sap'' then at_end rest CustomerStreamFound else sap_inquiry c rest)"

text \<open>The verdict, and the connection the client holds when it is known.\<close>

definition inquiry :: "natsClient \<Rightarrow> action list \<Rightarrow> (verdict \<times> conn option) option" where
  "inquiry k as = (case opened k as of
      None \<Rightarrow> None
    | Some (None, rest) \<Rightarrow> at_end rest (ServerUnreachable, ncConn k)
    | Some (Some c, rest) \<Rightarrow> map_option (\<lambda>v. (v, Some c)) (streams_inquiry c rest))"

text \<open>What the handler does once the verdict is known.\<close>

definition carry_out :: "'w libs \<Rightarrow> NATS \<Rightarrow> verdict \<Rightarrow> ('w, 'z, Result \<times> go_error option) rec_m" where
  "carry_out L nats v =
     (case v of
        CustomerStreamFound \<Rightarrow> block_deletion L nats StreamExistsErrorMsg
      | SapConsumerFound \<Rightarrow> block_deletion L nats ConsumerExistsErrorMsg
      | _ \<Rightarrow> deletePVCsAndRemoveFinalizer L nats)"

text \<open>The probing part of the handler: the sap stream, every stream, and from the connection on.\<close>

definition sap_and_act :: "'w libs \<Rightarrow> NATS \<Rightarrow> ('w, 'z, handled) rec_m" where
  "sap_and_act L nats = do {
     sap \<leftarrow> sapStreamConsumerExists L nats;
     (case sap of
        Panicked \<Rightarrow> ret Panicked
      | Returned (Inl err) \<Rightarrow> do { r \<leftarrow> deletePVCsAndRemoveFinalizer L nats; ret (Returned r) }
      | Returned (Inr True) \<Rightarrow> do { r \<leftarrow> block_deletion L nats ConsumerExistsErrorMsg; ret (Returned r) }
      | Returned (Inr False) \<Rightarrow> do { r \<leftarrow> deletePVCsAndRemoveFinalizer L nats; ret (Returned r) })
   }"

definition streams_and_act :: "'w libs \<Rightarrow> NATS \<Rightarrow> ('w, 'z, handled) rec_m" where
  "streams_and_act L nats = do {
     cust \<leftarrow> customerStreamExists L nats;
     (case cust of
        Panicked \<Rightarrow> ret Panicked
      | Returned (Inl err) \<Rightarrow> do { r \<leftarrow> deletePVCsAndRemoveFinalizer L nats; ret (Returned r) }
      | Returned (Inr True) \<Rightarrow> do { r \<leftarrow> block_deletion L nats StreamExistsErrorMsg; ret (Returned r) }
      | Returned (Inr False) \<Rightarrow> sap_and_act L nats)
   }"

definition probe_and_act :: "'w libs \<Rightarrow> NATS \<Rightarrow> ('w, 'z, handled) rec_m" where
  "probe_and_act L nats = do {
     conn \<leftarrow> createAndConnectNatsClient L nats;
     (case conn of
        Panicked \<Rightarrow> ret Panicked
      | Returned (Some err) \<Rightarrow> do { r \<leftarrow> deletePVCsAndRemoveFinalizer L nats; ret (Returned r) }
      | Returned None \<Rightarrow> streams_and_act L nats)
   }"

lemmas probe_defs = probe_and_act_def streams_and_act_def sap_and_act_def

definition deleting :: "NATS \<Rightarrow> NATS" where
  "deleting nats = nats\<lparr>nStatus := SetStateDeleting (nStatus nats)\<rparr>"

lemma deletion_split:
  "handleNATSDeletion L nats = do {
     ResetAvailabilityZonesUsedMetric L;
     ResetClusterSizeMetric L;
     (if \<not> containsFinalizer (meta L) nats then ret (Returned (emptyResult, None))
      else do {
        eventNormal L ConditionReasonDeleting ''Deleting the NATS cluster.'' [];
        probe_and_act L (deleting nats)
      })
   }"
  unfolding probe_defs deleting_def by (simp add: handleNATSDeletion_def)

lemma sap_verdict:
  assumes c: "client_of s nats = Some c" "ncConn c = Some cn"
    and run: "run_state (sap_and_act L nats) s = (out, s')"
  shows "\<exists>reads v t x. trace t = trace s @ reads \<and> list_all probe_action reads \<and>
    sap_inquiry cn reads = Some v \<and> client_of t nats = Some c \<and>
    run_state (carry_out L nats v) t = (x, s') \<and> out = Returned x"
proof -
  obtain r t where sap: "run_state (sapStreamConsumerExists L nats) s = (r, t)" by force
  note act = run [unfolded sap_and_act_def run_bind [OF sap]]
  from sap_spec [OF c sap] obtain reads v where spec: "trace t = trace s @ reads" "list_all probe_action reads"
    "sap_inquiry cn reads = Some v" "client_of t nats = Some c"
    and r: "case v of StreamsUnreadable \<Rightarrow> \<exists>err. r = Returned (Inl err) | SapConsumerFound \<Rightarrow> r = Returned (Inr True)
      | NothingToLose \<Rightarrow> r = Returned (Inr False) | _ \<Rightarrow> False" by blast
  from r act have "\<exists>x. run_state (carry_out L nats v) t = (x, s') \<and> out = Returned x"
    by (cases v) (auto simp: carry_out_def split: prod.splits)
  with spec show ?thesis by blast
qed

lemma streams_verdict:
  assumes c: "client_of s nats = Some c" "ncConn c = Some cn"
    and run: "run_state (streams_and_act L nats) s = (out, s')"
  shows "\<exists>reads v t x. trace t = trace s @ reads \<and> list_all probe_action reads \<and>
    streams_inquiry cn reads = Some v \<and> client_of t nats = Some c \<and>
    run_state (carry_out L nats v) t = (x, s') \<and> out = Returned x"
proof -
  obtain r s1 where cust: "run_state (customerStreamExists L nats) s = (r, s1)" by force
  note act = run [unfolded streams_and_act_def run_bind [OF cust]]
  from customer_spec [OF c cust] obtain as xs where spec: "trace s1 = trace s @ as" "list_all probe_action as"
    "client_of s1 nats = Some c" "\<forall>rest. listed cn (as @ rest) = Some (xs, rest)"
    and r: "case xs of None \<Rightarrow> \<exists>err. r = Returned (Inl err)
      | Some xs \<Rightarrow> r = Returned (Inr (\<exists>x \<in> set xs. x \<noteq> ''sap''))" by blast
  have here: "listed cn as = Some (xs, [])" using spec(4) by (metis append_Nil2)
  show ?thesis
  proof (cases "\<exists>ys. xs = Some ys \<and> \<not> (\<exists>x \<in> set ys. x \<noteq> ''sap'')")
    case True
    then obtain ys where ys: "xs = Some ys" "\<not> (\<exists>x \<in> set ys. x \<noteq> ''sap'')" by blast
    from ys act r have "run_state (sap_and_act L nats) s1 = (out, s')" by simp
    from sap_verdict [OF spec(3) c(2) this] obtain bs v t x where b: "trace t = trace s1 @ bs"
      "list_all probe_action bs" "sap_inquiry cn bs = Some v" "client_of t nats = Some c"
      "run_state (carry_out L nats v) t = (x, s')" "out = Returned x" by blast
    moreover have "streams_inquiry cn (as @ bs) = Some v"
      using spec(4) ys b(3) by (simp add: streams_inquiry_def)
    ultimately show ?thesis
      using spec(1,2) by (intro exI [of _ "as @ bs"] exI [of _ v] exI [of _ t] exI [of _ x]) simp
  next
    case False
    let ?v = "if xs = None then StreamsUnreadable else CustomerStreamFound"
    have "streams_inquiry cn as = Some ?v"
      using False here by (auto simp: streams_inquiry_def at_end_def split: option.splits)
    moreover have "\<exists>x. run_state (carry_out L nats ?v) s1 = (x, s') \<and> out = Returned x"
      using False act r by (auto simp: carry_out_def split: option.splits prod.splits)
    ultimately show ?thesis using spec(1-3) by blast
  qed
qed

lemma probe_verdict:
  assumes run: "run_state (probe_and_act L nats) s = (out, s')"
  shows "\<exists>reads v held k t x. trace t = trace s @ reads \<and> list_all probe_action reads \<and>
    inquiry (client_for s nats) reads = Some (v, held) \<and> client_of t nats = Some k \<and> ncConn k = held \<and>
    run_state (carry_out L nats v) t = (x, s') \<and> out = Returned x"
proof -
  obtain r1 s1 where conn: "run_state (createAndConnectNatsClient L nats) s = (r1, s1)" by force
  obtain err as k where r1: "r1 = Returned err" and t1: "trace s1 = trace s @ as" "list_all probe_action as"
    and k: "client_of s1 nats = Some k"
    and o: "\<forall>rest. opened (client_for s nats) (as @ rest) = Some (if err = None then ncConn k else None, rest)"
    and e: "if err = None then connected k else ncConn k = ncConn (client_for s nats)"
    using connect_spec [OF conn] by blast
  note act = run [unfolded probe_and_act_def run_bind [OF conn]]
  show ?thesis
  proof (cases err)
    case (Some e')
    from o [THEN spec, of "[]"] Some e
    have "inquiry (client_for s nats) as = Some (ServerUnreachable, ncConn k)"
      by (simp add: inquiry_def at_end_def)
    moreover have "\<exists>x. run_state (carry_out L nats ServerUnreachable) s1 = (x, s') \<and> out = Returned x"
      using act r1 Some by (auto simp: carry_out_def split: prod.splits)
    ultimately show ?thesis using t1 k by blast
  next
    case None
    with e obtain cn where cn: "ncConn k = Some cn" by (auto simp: connected_def)
    from act r1 None have "run_state (streams_and_act L nats) s1 = (out, s')" by simp
    from streams_verdict [OF k cn this] obtain bs v t x where b: "trace t = trace s1 @ bs"
      "list_all probe_action bs" "streams_inquiry cn bs = Some v" "client_of t nats = Some k"
      "run_state (carry_out L nats v) t = (x, s')" "out = Returned x" by blast
    moreover have "inquiry (client_for s nats) (as @ bs) = Some (v, Some cn)"
      using o None cn b(3) by (simp add: inquiry_def)
    ultimately show ?thesis
      using t1 cn by (intro exI [of _ "as @ bs"] exI [of _ v] exI [of _ "Some cn"] exI [of _ k] exI [of _ t] exI [of _ x]) simp
  qed
qed

section \<open>The frame of a deletion\<close>

context rec_frame
begin

lemma init_client:
  assumes "\<And>a. probe_action a \<Longrightarrow> ok a"
  shows "state_io_rel R (Init L c)"
  unfolding Init_def must_connect_def conn_Status_def connStatus_def natsConnect_def connIsConnected_def
  by (intro fr; simp add: assms)

lemma read_client:
  assumes "\<And>a. probe_action a \<Longrightarrow> ok a"
  shows "state_io_rel R (customerStreamExists L nats)" and "state_io_rel R (sapStreamConsumerExists L nats)"
  unfolding customerStreamExists_def sapStreamConsumerExists_def getNatsClient_def GetStreams_alt
    ConsumersExist_alt with_jetstream_def conn_JetStream_def connJetStream_def jsStreams_def jsConsumers_def
  by (intro fr; simp add: assms)+

lemma connect_client:
  assumes "\<And>a. probe_action a \<Longrightarrow> ok a"
  shows "state_io_rel R (createAndConnectNatsClient L nats)"
proof (rule state_io_relI)
  fix s s' :: "('w, 'z) reconciler_scheme" and r
  assume "run_state (createAndConnectNatsClient L nats) s = (r, s')"
  then show "R s s'"
  proof (rule createAndConnect_run)
    fix c s1 c' err s2
    assume c: "c = (case client_of s nats of None \<Rightarrow> new_client nats | Some c \<Rightarrow> c)"
      and s1: "s1 = (case client_of s nats of None \<Rightarrow> s\<lparr>natsClients := (natsClients s)(crKey nats \<mapsto> Some c)\<rparr> | Some _ \<Rightarrow> s)"
      and c1: "client_of s1 nats = Some c" and i: "run_state (Init L c) s1 = ((c', err), s2)"
      and s': "s' = s2\<lparr>natsClients := (natsClients s2)(crKey nats \<mapsto> Some c')\<rparr>"
    have "R s s1"
    proof (cases "client_of s nats")
      case None
      then show ?thesis
        unfolding s1 by (auto intro!: on_client simp: c new_client_def NewNatsClient_def)
    qed (simp add: s1 frame_refl)
    moreover have "R s1 s2" using init_client [OF assms] i by (rule state_io_relD)
    moreover have "natsClients s2 (crKey nats) = Some (Some c)"
      using host_more_fields(1) [OF Init_spec(2) [OF i]] c1
      by (auto simp: client_of_def split: option.splits)
    then have "R s2 s'"
      unfolding s' using Init_spec(1) [OF i] by (auto intro!: on_client)
    ultimately show ?thesis using frame_trans by blast
  qed
qed

lemma close_client:
  assumes "\<And>c. ok (AConnClose c)"
  shows "state_io_rel R (closeNatsClient L nats)"
proof -
  have "state_io_rel R (setNatsClient nats None)"
    unfolding setNatsClient_def by (rule f_modify, rule on_client) simp
  then show ?thesis
    unfolding closeNatsClient_def getNatsClient_def Close_def conn_Close_def connClose_def ext_do_def
    by (intro fr assms)
qed

lemma remove_data:
  assumes "\<And>a. remove_action L nats a \<Longrightarrow> ok a"
  shows "state_io_rel R (deletePVCsAndRemoveFinalizer L (nats\<lparr>nStatus := st\<rparr>))"
proof -
  have close: "state_io_rel R (closeNatsClient L (nats\<lparr>nStatus := st\<rparr>))"
    by (rule close_client, rule assms) (simp add: remove_action_def)
  have "state_io_rel R (if has_prefix (pvcName pvc) (nName nats) then clientDeletePVC L pvc else ret None)" for pvc
    using assms unfolding clientDeletePVC_def
    by (cases "has_prefix (pvcName pvc) (nName nats)") (auto intro!: call f_ret simp: remove_action_def)
  then have loop: "state_io_rel R (for_each_err (\<lambda>pvc. if has_prefix (pvcName pvc) (nName nats)
      then clientDeletePVC L pvc else ret None) items)" for items
    by (rule f_loop)
  have del: "state_io_rel R (DeletePVCsWithLabel L sel (nName nats) (nNamespace nats))" for sel
    unfolding DeletePVCsWithLabel_def clientListPVCs_def
    by (intro f_bind f_option f_sum loop f_if f_ret call assms) (simp_all add: remove_action_def)
  show ?thesis
    unfolding deletePVCsAndRemoveFinalizer_def removeFinalizer_def clientUpdateNATS_def bind_left_identity
    by (intro fr close) (auto intro: del intro!: assms simp: remove_action_def)
qed

lemma block:
  assumes "\<And>a. status_action a \<Longrightarrow> \<not> guarded_action a \<Longrightarrow> ok a" and "\<And>st. sync_ok (nats\<lparr>nStatus := st\<rparr>)"
  shows "state_io_rel R (block_deletion L nats msg)"
  unfolding block_deletion_def bind_left_identity
  by (intro fr status_ops event_ops sync_status; simp add: assms)

lemma carry:
  assumes "\<And>a. status_action a \<Longrightarrow> \<not> guarded_action a \<Longrightarrow> ok a" and "\<And>st. sync_ok (nats\<lparr>nStatus := st\<rparr>)"
    and "\<And>a. remove_action L nats a \<Longrightarrow> ok a"
  shows "state_io_rel R (carry_out L (deleting nats) v)"
  unfolding carry_out_def deleting_def
  by (cases v) (simp_all add: block remove_data assms)

theorem handle_deletion:
  assumes ok: "\<And>a. deprovision_action L nats a \<Longrightarrow> \<not> guarded_action a \<Longrightarrow> ok a" and sync: "\<And>st. sync_ok (nats\<lparr>nStatus := st\<rparr>)"
  shows "state_io_rel R (handleNATSDeletion L nats)"
proof -
  have st: "ok a" if "status_action a" "\<not> guarded_action a" for a
    using ok that by (simp add: deprovision_action_def)
  have pr: "ok a" if "probe_action a" for a
    using ok [of a] that by (cases a) (simp_all add: deprovision_action_def)
  have rm: "ok a" if "remove_action L nats a" for a
  proof (rule ok)
    show "\<not> guarded_action a" using that by (auto simp: remove_action_def)
  qed (simp add: deprovision_action_def that)
  have gauge: "ok (AGaugeReset g)" for g using ok by (simp add: deprovision_action_def)
  have "state_io_rel R (probe_and_act L (deleting nats))"
    unfolding probe_defs deleting_def
    by (intro fr connect_client read_client remove_data block; simp add: st pr rm sync)
  then show ?thesis
    unfolding deletion_split
    by (intro fr reset_ops event_ops; simp add: st gauge)
qed

theorem reconcile:
  assumes "\<And>n ns r. ok (AGetNATS n ns r)"
    and "\<And>nats a. provision_action L (fieldManager C) nats a \<Longrightarrow> \<not> guarded_action a \<Longrightarrow> ok a"
    and "\<And>nats a. deprovision_action L nats a \<Longrightarrow> \<not> guarded_action a \<Longrightarrow> ok a"
    and "\<And>nats. sync_ok nats" and watch_ok
  shows "state_io_rel R (Reconcile L C name ns)"
proof -
  have "ok a" if "status_action a" "\<not> guarded_action a" for a
    using assms(2) that by (simp add: provision_action_def)
  then show ?thesis
    unfolding Reconcile_def handleNATSCRAllowedCheck_def clientGetNATS_def bind_left_identity
    by (intro fr handle_reconcile handle_deletion status_ops event_ops sync_status; simp add: assms)
qed

end

end
