(* ===== verification/Safety.thy ===== *)
theory Safety
  imports Deprovisioning
begin

text \<open>
  The safety properties of a reconciliation, stated on the trace of the calls it makes: what each path
  can do at all, and when data and the finalizer of a resource may go.
\<close>

section \<open>The trace as a frame\<close>

interpretation emit_rec: rec_frame "emits P :: ('w, 'z) reconciler_scheme \<Rightarrow> _" L P
  "\<lambda>_. (\<forall>n ns r. P (AGetNATS n ns r)) \<and> (\<forall>n e. P (AUpdateStatus n e))"
  "P (AWatch DestinationRuleKind DestinationRuleAPIVersion managed_by_selector None)" for P and L :: "'w libs"
proof
  fix nats
  assume sync: "(\<forall>n ns r. P (AGetNATS n ns r)) \<and> (\<forall>n e. P (AUpdateStatus n e))"
  show "state_io_rel (emits P) (syncNATSStatus L nats :: ('w, 'z, _) rec_m)"
    unfolding syncNATSStatus_def updateStatus_def clientGetNATS_def clientUpdateStatus_def Let_def
    by (intro emit_frame.f_rules(1-7) emits_call) (simp_all add: sync)
qed (auto simp: emits_def)

text \<open>
  C11. Whatever its collaborators answer, a provisioning reconciliation only reads, renders, applies objects
  (forced, under the manager's field name), watches destination rules, and writes the status or the
  resource with the finalizer added: it deletes nothing, opens no NATS connection and removes no
  finalizer.
\<close>

theorem provisioning_actions:
  fixes s :: "('w, 'z) reconciler_scheme"
  shows "list_all (provision_action L (fieldManager C) nats) (new_actions (handleNATSReconcile L C nats) s)"
  by (rule emits_new_actions, rule emit_rec.handle_reconcile)
    (simp_all add: provision_action_def destination_rule_watch_def)

text \<open>
  A deletion reconciliation only reads, probes the NATS server, lists volume claims in the resource's
  namespace, deletes claims whose name starts with the resource's, closes connections, and writes the
  status or the resource with the finalizer removed: it applies nothing and starts no watch.
\<close>

theorem deletion_actions:
  fixes s :: "('w, 'z) reconciler_scheme"
  shows "list_all (deprovision_action L nats) (new_actions (handleNATSDeletion L nats) s)"
  by (rule emits_new_actions, rule emit_rec.handle_deletion) (simp_all add: deprovision_action_def)

section \<open>Deletion follows the verdict\<close>

definition probes :: "action list \<Rightarrow> action list" where
  "probes as = filter probe_action as"

lemma probes_all: "list_all probe_action as \<Longrightarrow> probes as = as"
  by (simp add: probes_def list_all_iff filter_id_conv)

lemma probes_none: "list_all (\<lambda>a. \<not> probe_action a) as \<Longrightarrow> probes as = []"
  by (simp add: probes_def list_all_iff filter_empty_conv)

lemma probes_append [simp]: "probes (as @ bs) = probes as @ probes bs"
  by (simp add: probes_def)

lemma new_actions_eq: "run_state m s = (r, s') \<Longrightarrow> trace s' = trace s @ as \<Longrightarrow> new_actions m s = as"
  by (simp add: new_actions_def)

definition deletion_prelude :: "action list" where
  "deletion_prelude = [AGaugeReset GaugeAvailabilityZonesUsed, AGaugeReset GaugeClusterSize,
     AEvent EventTypeNormal ConditionReasonDeleting ''Deleting the NATS cluster.'' []]"

lemma client_for_deleting [simp]: "client_for s (deleting nats) = client_for s nats"
  by (simp add: client_for_def client_of_def crKey_def new_client_def deleting_def split: option.split)

lemma client_of_deleting [simp]: "client_of s (deleting nats) = client_of s nats"
  by (simp add: client_of_def crKey_def deleting_def)

lemma deletion_run:
  fixes s :: "('w, 'z) reconciler_scheme"
  assumes fin: "containsFinalizer (meta L) nats"
    and run: "run_state (handleNATSDeletion L nats) s = (out, s')"
  obtains reads v held k t x as where
    "trace t = trace s @ deletion_prelude @ reads" "list_all probe_action reads"
    "inquiry (client_for s nats) reads = Some (v, held)" "client_of t nats = Some k" "ncConn k = held"
    "run_state (carry_out L (deleting nats) v) t = (x, s')" "out = Returned x"
    "trace s' = trace t @ as" "list_all (\<lambda>a. status_action a \<or> remove_action L nats a) as"
    "probes (new_actions (handleNATSDeletion L nats) s) = reads"
    "new_actions (handleNATSDeletion L nats) s = deletion_prelude @ reads @ as"
proof -
  obtain s0 where s0: "trace s0 = trace s @ deletion_prelude" "client_for s0 nats = client_for s nats"
    and p: "run_state (probe_and_act L (deleting nats)) s0 = (out, s')"
  proof (rule that)
    let ?w = "api_event (kapi L) EventTypeNormal ConditionReasonDeleting ''Deleting the NATS cluster.'' []
      (pm_reset (prom L) GaugeClusterSize (pm_reset (prom L) GaugeAvailabilityZonesUsed (world s)))"
    let ?s0 = "s\<lparr>world := ?w, trace := trace s @ deletion_prelude\<rparr>"
    show "trace ?s0 = trace s @ deletion_prelude" by simp
    show "client_for ?s0 nats = client_for s nats" by (simp add: client_for_def client_of_def)
    show "run_state (probe_and_act L (deleting nats)) ?s0 = (out, s')"
      using run fin unfolding deletion_split
      by (simp add: deletion_prelude_def ResetAvailabilityZonesUsedMetric_def ResetClusterSizeMetric_def
          gaugeReset_def eventNormal_def recorderEventf_def ext_do_def)
  qed
  from probe_verdict [OF p] obtain reads v held k t x where t: "trace t = trace s0 @ reads" "list_all probe_action reads"
    "inquiry (client_for s nats) reads = Some (v, held)" "client_of t nats = Some k" "ncConn k = held"
    "run_state (carry_out L (deleting nats) v) t = (x, s')" "out = Returned x"
    by (auto simp: s0(2))
  have "emits (\<lambda>a. status_action a \<or> remove_action L nats a) t s'"
    using emit_rec.carry t(6) by (rule state_io_relD) simp_all
  then obtain as where as: "trace s' = trace t @ as" "list_all (\<lambda>a. status_action a \<or> remove_action L nats a) as"
    by (auto simp: emits_def)
  have new: "new_actions (handleNATSDeletion L nats) s = deletion_prelude @ reads @ as"
    by (rule new_actions_eq [OF run]) (simp add: as s0 t)
  have "list_all (\<lambda>a. \<not> probe_action a) as"
    using as(2) by (rule list.pred_mono_strong) (auto simp: remove_action_def elim: status_action.elims)
  then have "probes (new_actions (handleNATSDeletion L nats) s) = reads"
    unfolding new by (simp add: probes_none probes_all [OF t(2)]) (simp add: probes_def deletion_prelude_def)
  then show thesis
    using that [OF _ t(2-7) as _ new] by (simp add: t(1) s0(1))
qed

text \<open>
  C4. With the finalizer set, a deletion reconciliation first puts a complete inquiry to the server, over
  the client it keeps for the resource or a new one, and then does exactly what the verdict on the answers
  calls for: block the deletion, or delete the data and remove the finalizer; it never panics.
\<close>

theorem deletion_follows_verdict:
  fixes s :: "('w, 'z) reconciler_scheme"
  assumes "containsFinalizer (meta L) nats"
    and "run_state (handleNATSDeletion L nats) s = (out, s')"
  shows "\<exists>reads v held t x. trace t = trace s @ deletion_prelude @ reads \<and>
    inquiry (client_for s nats) reads = Some (v, held) \<and>
    run_state (carry_out L (deleting nats) v) t = (x, s') \<and> out = Returned x"
  by (rule deletion_run [OF assms]) blast


section \<open>A blocked deletion\<close>

text \<open>The statuses an action writes satisfy \<open>Q\<close>.\<close>

fun writes_status :: "(NATSStatus \<Rightarrow> bool) \<Rightarrow> action \<Rightarrow> bool" where
  "writes_status Q (AUpdateStatus n e) = Q (nStatus n)"
| "writes_status Q _ = True"

lemma writes_status_mono: "writes_status P a \<Longrightarrow> (\<And>st. P st \<Longrightarrow> Q st) \<Longrightarrow> writes_status Q a"
  by (cases a) auto

text \<open>An action that deletes something or rewrites the resource with its finalizers.\<close>

fun destructive :: "action \<Rightarrow> bool" where
  "destructive (ADeletePVC pvc e) = True"
| "destructive (ADeleteObject object e) = True"
| "destructive (AUpdateNATS n e) = True"
| "destructive _ = False"

lemma sync_emits:
  "state_io_rel (emits (\<lambda>a. status_action a \<and> writes_status (\<lambda>st. st = nStatus nats) a))
     (syncNATSStatus L nats :: (('w, 'z) host_scheme, _) state)"
  unfolding syncNATSStatus_def updateStatus_def clientGetNATS_def clientUpdateStatus_def Let_def
  by (intro emit_frame.f_rules(1-7) emits_call) simp_all

lemma clock_emits: "emits is_clock s s' \<Longrightarrow> (\<And>t. P (ANow t)) \<Longrightarrow> emits P s s'"
  by (erule emits_mono) (auto elim: is_clock.elims)

definition blocked_status :: "string \<Rightarrow> NATSStatus \<Rightarrow> bool" where
  "blocked_status msg st \<longleftrightarrow> stState st = StateWarning \<and>
     cond_of st ConditionDeleted = Some (ConditionFalse, ConditionReasonDeletionError, msg)"

definition blocked_spec :: "string \<Rightarrow> abs_status \<Rightarrow> abs_status" where
  "blocked_spec msg a = set_cond ConditionDeleted ConditionFalse ConditionReasonDeletionError msg (a\<lparr>aState := StateWarning\<rparr>)"

lemma block_abs:
  assumes "ssc_law (meta L)" "wf_status (nStatus nats)"
    and run: "run_state (block_deletion L nats msg) s = (x, s')"
  shows "fst x = \<lparr>Requeue = True, RequeueAfter = 0\<rparr> \<and>
    emits (\<lambda>a. status_action a \<and>
      writes_status (\<lambda>st. wf_status st \<and> abs_status st = blocked_spec msg (abs_status (nStatus nats))) a) s s'"
proof -
  let ?Q = "\<lambda>st. wf_status st \<and> abs_status st = blocked_spec msg (abs_status (nStatus nats))"
  let ?P = "\<lambda>a. status_action a \<and> writes_status ?Q a"
  have "wp (block_deletion L nats msg) (\<lambda>x s'. fst x = \<lparr>Requeue = True, RequeueAfter = 0\<rparr> \<and> emits ?P s s') s"
    unfolding block_deletion_def bind_left_identity
  proof (subst wp_bind, rule del_cond.wp_op)
    fix st s1
    assume wf: "wf_status st" and abs: "abs_status st = set_cond ConditionDeleted ConditionFalse ConditionReasonDeletionError msg
        (abs_status (SetStateWarning (nStatus nats)))" and e: "emits is_clock s s1"
    have st: "?Q st" using wf abs by (simp add: blocked_spec_def)
    have e1: "emits ?P s s1" by (rule clock_emits [OF e]) simp
    have e2: "state_io_rel (emits ?P) (eventWarn L ConditionReasonDeletionError msg [])"
      unfolding eventWarn_def recorderEventf_def by (rule emits_do) simp
    have e3: "state_io_rel (emits ?P) (syncNATSStatus L (nats\<lparr>nStatus := st\<rparr>))"
      by (rule emits_weaken [OF sync_emits]) (use st in \<open>auto elim!: writes_status_mono\<close>)
    show "wp (eventWarn L ConditionReasonDeletionError msg [] \<bind> (\<lambda>_.
        syncNATSStatus L (nats\<lparr>nStatus := st\<rparr>) \<bind> (\<lambda>err. ret (emptyResult\<lparr>Requeue := True\<rparr>, err))))
        (\<lambda>x s'. fst x = \<lparr>Requeue = True, RequeueAfter = 0\<rparr> \<and> emits ?P s s') s1"
    proof (rule wpI)
      fix x s' assume run: "run_state (eventWarn L ConditionReasonDeletionError msg [] \<bind>
        (\<lambda>_. syncNATSStatus L (nats\<lparr>nStatus := st\<rparr>) \<bind> (\<lambda>err. ret (emptyResult\<lparr>Requeue := True\<rparr>, err)))) s1 = (x, s')"
      have "emits ?P s1 s'"
        by (rule state_io_relD [OF _ run]) (intro emit_frame.f_bind e2 e3 emit_frame.f_ret)
      moreover have "fst x = \<lparr>Requeue = True, RequeueAfter = 0\<rparr>"
        using run by (auto simp: emptyResult_def split: prod.splits)
      ultimately show "fst x = \<lparr>Requeue = True, RequeueAfter = 0\<rparr> \<and> emits ?P s s'"
        using e1 by (blast intro: emits_trans)
    qed
  qed (simp_all add: assms)
  then show ?thesis using run by (rule wpD)
qed

lemma blocked_spec_status:
  assumes "abs_status st = blocked_spec msg a"
  shows "blocked_status msg st"
proof -
  have "stState st = StateWarning"
    using arg_cong [OF assms, of aState] by (simp add: blocked_spec_def set_cond_def)
  then show ?thesis by (simp add: blocked_status_def assms blocked_spec_def cond_of_def set_cond_def)
qed

lemma block_spec:
  assumes "ssc_law (meta L)" "wf_status (nStatus nats)"
    and "run_state (block_deletion L nats msg) s = (x, s')"
  shows "fst x = \<lparr>Requeue = True, RequeueAfter = 0\<rparr> \<and>
    emits (\<lambda>a. status_action a \<and> writes_status (blocked_status msg) a) s s'"
  using block_abs [OF assms] by (auto elim!: emits_mono writes_status_mono intro: blocked_spec_status)

lemma blocked_run:
  fixes s :: "('w, 'z) reconciler_scheme"
  assumes "ssc_law (meta L)" "wf_status (nStatus nats)" and fin: "containsFinalizer (meta L) nats"
    and v: "map_option fst (inquiry (client_for s nats) (probes (new_actions (handleNATSDeletion L nats) s))) = Some v"
    and msg: "(v, msg) \<in> {(CustomerStreamFound, StreamExistsErrorMsg), (SapConsumerFound, ConsumerExistsErrorMsg)}"
  shows "(\<exists>err. fst (run_state (handleNATSDeletion L nats) s) =
      Returned (\<lparr>Requeue = True, RequeueAfter = 0\<rparr>, err)) \<and>
    list_all (\<lambda>a. \<not> destructive a \<and> writes_status (blocked_status msg) a)
      (new_actions (handleNATSDeletion L nats) s)"
proof -
  obtain out s' where run: "run_state (handleNATSDeletion L nats) s = (out, s')" by force
  from fin run show ?thesis
  proof (rule deletion_run)
    fix reads v' held t x as
    assume r: "list_all probe_action reads" and c: "run_state (carry_out L (deleting nats) v') t = (x, s')"
      and i: "inquiry (client_for s nats) reads = Some (v', held)"
      and out: "out = Returned x" and as: "trace s' = trace t @ as"
      and vr: "probes (new_actions (handleNATSDeletion L nats) s) = reads"
      and new: "new_actions (handleNATSDeletion L nats) s = deletion_prelude @ reads @ as"
    have "run_state (block_deletion L (deleting nats) msg) t = (x, s')"
      using c v msg i unfolding vr by (auto simp: carry_out_def)
    from block_spec [OF _ _ this] assms have x: "fst x = \<lparr>Requeue = True, RequeueAfter = 0\<rparr>"
      and e: "emits (\<lambda>a. status_action a \<and> writes_status (blocked_status msg) a) t s'"
      by (simp_all add: deleting_def)
    have "list_all (\<lambda>a. \<not> destructive a \<and> writes_status (blocked_status msg) a) as"
      using e as by (auto simp: emits_def elim!: list.pred_mono_strong elim: status_action.elims)
    moreover have "list_all (\<lambda>a. \<not> destructive a \<and> writes_status (blocked_status msg) a) reads"
      using r by (rule list.pred_mono_strong) (auto elim: probe_action.elims)
    ultimately show ?thesis
      unfolding new using run out x by (cases x) (simp add: deletion_prelude_def)
  qed
qed

lemma inquiry_made:
  fixes s :: "('w, 'z) reconciler_scheme"
  assumes fin: "containsFinalizer (meta L) nats"
  shows "\<exists>v held. inquiry (client_for s nats) (probes (new_actions (handleNATSDeletion L nats) s)) = Some (v, held)"
  by (rule deletion_run [OF fin prod.collapse [symmetric]]) auto


section \<open>When the finalizer goes\<close>

lemma guarded_none:
  "run_state (for_each_err (\<lambda>pvc. if has_prefix (pvcName pvc) pre then clientDeletePVC L pvc else ret None) items) s = (None, s') \<Longrightarrow>
   trace s' = trace s @ map (\<lambda>p. ADeletePVC p None) (filter (\<lambda>p. has_prefix (pvcName p) pre) items)"
  by (induction items arbitrary: s)
    (auto simp: clientDeletePVC_def split: if_splits prod.splits option.splits)

lemma DeletePVCs_none:
  assumes "run_state (DeletePVCsWithLabel L lbl pre ns) s = (None, s')"
  obtains items where "trace s' = trace s @ AListPVCs ns (ParsedSelector lbl) (Inr items) #
    map (\<lambda>p. ADeletePVC p None) (filter (\<lambda>p. has_prefix (pvcName p) pre) items)"
proof -
  have lp: "labels_parse (meta L) lbl = None" using assms by (auto simp: DeletePVCsWithLabel_def split: option.splits)
  obtain r w where api: "api_list_pvcs (kapi L) ns (ParsedSelector lbl) (world s) = (r, w)" by force
  with assms lp obtain items where r: "r = Inr items"
    by (auto simp: DeletePVCsWithLabel_def clientListPVCs_def split: sum.splits)
  let ?s1 = "s\<lparr>world := w, trace := trace s @ [AListPVCs ns (ParsedSelector lbl) (Inr items)]\<rparr>"
  have "run_state (for_each_err (\<lambda>pvc. if has_prefix (pvcName pvc) pre then clientDeletePVC L pvc else ret None) items) ?s1
      = (None, s')"
    using assms lp api r by (cases items) (auto simp: DeletePVCsWithLabel_def clientListPVCs_def)
  from guarded_none [OF this] show thesis using that by simp
qed

text \<open>The claims of a resource: those the label selector lists whose name starts with the resource's.\<close>

definition own_claims :: "NATS \<Rightarrow> PVC list \<Rightarrow> PVC list" where
  "own_claims nats items = filter (\<lambda>p. has_prefix (pvcName p) (nName nats)) items"

definition unfinalized :: "'w libs \<Rightarrow> NATS \<Rightarrow> NATS" where
  "unfinalized L nats = nats\<lparr>nFinalizers := remove_finalizer_from (meta L) (nFinalizers nats) NATSFinalizerName\<rparr>"

text \<open>The deletion of claims leaves the clients alone.\<close>

lemma delete_claims_keep:
  fixes s :: "('w, 'z) reconciler_scheme"
  assumes "run_state (DeletePVCsWithLabel L lbl pf ns) s = (r, s')"
  shows "natsClients s' = natsClients s"
proof -
  have "state_io_rel (keeps host.more) (DeletePVCsWithLabel L lbl pf ns :: ('w, 'z, _) rec_m)"
    unfolding DeletePVCsWithLabel_def clientListPVCs_def clientDeletePVC_def
    by (intro keep_frame.f_rules(1-10) keeps_more; simp)
  then show ?thesis
    using assms by (intro host_more_fields(1)) (auto dest: state_io_relD simp: keeps_def)
qed

text \<open>The connection of a client is closed when it has one, and the client is forgotten.\<close>

lemma close_run:
  assumes "run_state (closeNatsClient L nats) s = ((), s')"
  shows "trace s' = trace s @ (case Option.bind (client_of s nats) ncConn of None \<Rightarrow> [] | Some c \<Rightarrow> [AConnClose c])"
    "client_of s' nats = None"
  using assms by (auto simp: closeNatsClient_def Close_def conn_Close_def connClose_def ext_do_def client_of_def
      setNatsClient_def split: option.splits prod.splits)

lemma remove_run:
  fixes s :: "('w, 'z) reconciler_scheme"
  assumes run: "run_state (deletePVCsAndRemoveFinalizer L nats) s = (x, s')"
  shows "(\<exists>items e. trace s' = trace s @ AListPVCs (nNamespace nats) (ParsedSelector (pvcSelector nats)) (Inr items) #
      map (\<lambda>p. ADeletePVC p None) (own_claims nats items) @
      (case Option.bind (client_of s nats) ncConn of None \<Rightarrow> [] | Some c \<Rightarrow> [AConnClose c]) @
      [AUpdateNATS (unfinalized L nats) e] \<and> x = (emptyResult, e) \<and> client_of s' nats = None) \<or>
    (\<exists>err. x = (emptyResult, ignore_not_found (meta L) err) \<and>
      run_state (DeletePVCsWithLabel L (pvcSelector nats) (nName nats) (nNamespace nats)) s = (Some err, s'))"
proof -
  obtain r s1 where del: "run_state (DeletePVCsWithLabel L (pvcSelector nats) (nName nats) (nNamespace nats)) s = (r, s1)"
    by force
  show ?thesis
  proof (cases r)
    case (Some err)
    with run del show ?thesis by (auto simp: deletePVCsAndRemoveFinalizer_def)
  next
    case None
    with del obtain items where t1: "trace s1 = trace s @ AListPVCs (nNamespace nats) (ParsedSelector (pvcSelector nats)) (Inr items) #
        map (\<lambda>p. ADeletePVC p None) (own_claims nats items)"
      by (auto simp: own_claims_def elim: DeletePVCs_none)
    obtain s2 where close: "run_state (closeNatsClient L nats) s1 = ((), s2)" by (metis old.unit.exhaust surj_pair)
    have same: "client_of s1 nats = client_of s nats"
      using delete_claims_keep [OF del] by (simp add: client_of_def)
    have "run_state (removeFinalizer L nats) s2 = (x, s')"
      using run del None close by (simp add: deletePVCsAndRemoveFinalizer_def)
    then obtain e where "trace s' = trace s2 @ [AUpdateNATS (unfinalized L nats) e]" "x = (emptyResult, e)"
      "client_of s' nats = client_of s2 nats"
      by (auto simp: removeFinalizer_def clientUpdateNATS_def unfinalized_def client_of_def
          split: prod.splits option.splits)
    with t1 close_run [OF close] same show ?thesis by auto
  qed
qed


lemma deleting_simps [simp]:
  "nName (deleting nats) = nName nats" "nNamespace (deleting nats) = nNamespace nats"
  "pvcSelector (deleting nats) = pvcSelector nats" "own_claims (deleting nats) = own_claims nats"
  by (simp_all add: deleting_def pvcSelector_def own_claims_def fun_eq_iff)

lemma no_finalizer_run:
  fixes s :: "('w, 'z) reconciler_scheme"
  assumes "\<not> containsFinalizer (meta L) nats"
  shows "fst (run_state (handleNATSDeletion L nats) s) = Returned (emptyResult, None)"
    and "new_actions (handleNATSDeletion L nats) s =
      [AGaugeReset GaugeAvailabilityZonesUsed, AGaugeReset GaugeClusterSize]"
  using assms by (simp_all add: handleNATSDeletion_def new_actions_def ResetAvailabilityZonesUsedMetric_def
      ResetClusterSizeMetric_def gaugeReset_def ext_do_def)

lemma blocked_not_destructive:
  fixes t :: "('w, 'z) reconciler_scheme"
  assumes "v = CustomerStreamFound \<or> v = SapConsumerFound"
    and "run_state (carry_out L nats v) t = (x, s')" "trace s' = trace t @ as"
  shows "list_all (\<lambda>a. \<not> destructive a) as"
proof -
  have "state_io_rel (emits status_action) (carry_out L nats v :: ('w, 'z, _) rec_m)"
    using assms(1) by (auto simp: carry_out_def intro!: emit_rec.block)
  then have "emits status_action t s'" using assms(2) by (rule state_io_relD)
  with assms(3) have "list_all status_action as" by (auto simp: emits_def)
  then show ?thesis by (rule list.pred_mono_strong) (auto elim: status_action.elims)
qed

lemma probes_not_destructive: "list_all probe_action as \<Longrightarrow> list_all (\<lambda>a. \<not> destructive a) as"
  by (erule list.pred_mono_strong) (auto elim: probe_action.elims)

text \<open>
  C1. Data or the finalizer of a resource go only when the finalizer is set and only after a complete
  inquiry, over the connection of the resource's client, by whose answers no data is at stake: the first
  listing shows no customer stream and, when the second one shows the \<^verbatim>\<open>sap\<close> stream, that has no
  consumer; or a question was put and failed (the server could not be reached, or JetStream gave an error).
\<close>

theorem data_deleted_only_when_safe:
  fixes s :: "('w, 'z) reconciler_scheme"
  assumes "list_ex destructive (new_actions (handleNATSDeletion L nats) s)"
  shows "containsFinalizer (meta L) nats \<and>
    (\<exists>reads rest v held. new_actions (handleNATSDeletion L nats) s = deletion_prelude @ reads @ rest \<and>
      inquiry (client_for s nats) reads = Some (v, held) \<and> v \<in> {ServerUnreachable, StreamsUnreadable, NothingToLose} \<and>
      list_all (\<lambda>a. \<not> destructive a) reads \<and> list_all (\<lambda>a. \<not> probe_action a) rest)"
proof (cases "containsFinalizer (meta L) nats")
  case False
  with assms show ?thesis by (simp add: no_finalizer_run)
next
  case True
  obtain out s' where run: "run_state (handleNATSDeletion L nats) s = (out, s')" by force
  from True run show ?thesis
  proof (rule deletion_run)
    fix reads v held t x as
    assume r: "list_all probe_action reads" and c: "run_state (carry_out L (deleting nats) v) t = (x, s')"
      and i: "inquiry (client_for s nats) reads = Some (v, held)" and as: "trace s' = trace t @ as"
      and sr: "list_all (\<lambda>a. status_action a \<or> remove_action L nats a) as"
      and new: "new_actions (handleNATSDeletion L nats) s = deletion_prelude @ reads @ as"
    have "list_ex destructive as"
      using assms probes_not_destructive [OF r] unfolding new
      by (auto simp: deletion_prelude_def list_ex_iff list_all_iff)
    then have "\<not> (v = CustomerStreamFound \<or> v = SapConsumerFound)"
      using blocked_not_destructive [OF _ c as] by (auto simp: list_ex_iff list_all_iff)
    then have "v \<in> {ServerUnreachable, StreamsUnreadable, NothingToLose}" by (cases v) auto
    moreover have "list_all (\<lambda>a. \<not> probe_action a) as"
      using sr by (rule list.pred_mono_strong) (auto simp: remove_action_def elim: status_action.elims)
    ultimately show ?thesis using True new i probes_not_destructive [OF r] by blast
  qed
qed

text \<open>
  C3. The finalizer is removed last. Before it, in this order, the server was asked, the resource's volume
  claims were listed, every one of them was deleted without an error, and the connection the client
  held after the inquiry was closed (there is none when the client never got one); nothing destructive came
  earlier, and the client is forgotten.
\<close>

theorem finalizer_removed_last:
  fixes s :: "('w, 'z) reconciler_scheme"
  assumes mem: "AUpdateNATS n e \<in> set (new_actions (handleNATSDeletion L nats) s)"
  shows "\<exists>pre items v held. new_actions (handleNATSDeletion L nats) s =
      pre @ AListPVCs (nNamespace nats) (ParsedSelector (pvcSelector nats)) (Inr items) #
      map (\<lambda>p. ADeletePVC p None) (own_claims nats items) @
      (case held of None \<Rightarrow> [] | Some c \<Rightarrow> [AConnClose c]) @ [AUpdateNATS n e] \<and>
    list_all (\<lambda>a. \<not> destructive a) pre \<and> inquiry (client_for s nats) (probes pre) = Some (v, held) \<and>
    n = unfinalized L (deleting nats) \<and>
    client_of (snd (run_state (handleNATSDeletion L nats) s)) nats = None"
proof -
  have fin: "containsFinalizer (meta L) nats"
    using mem by (rule contrapos_pp) (simp add: no_finalizer_run)
  obtain out s' where run: "run_state (handleNATSDeletion L nats) s = (out, s')" by force
  from fin run show ?thesis
  proof (rule deletion_run)
    fix reads v held k t x as
    assume r: "list_all probe_action reads" and c: "run_state (carry_out L (deleting nats) v) t = (x, s')"
      and i: "inquiry (client_for s nats) reads = Some (v, held)" and k: "client_of t nats = Some k" "ncConn k = held"
      and as: "trace s' = trace t @ as"
      and pr: "probes (new_actions (handleNATSDeletion L nats) s) = reads"
      and new: "new_actions (handleNATSDeletion L nats) s = deletion_prelude @ reads @ as"
    have in_as: "AUpdateNATS n e \<in> set as"
      using mem probes_not_destructive [OF r] unfolding new
      by (auto simp: deletion_prelude_def list_all_iff)
    then have "\<not> (v = CustomerStreamFound \<or> v = SapConsumerFound)"
      using blocked_not_destructive [OF _ c as] by (force simp: list_all_iff)
    then have "run_state (deletePVCsAndRemoveFinalizer L (deleting nats)) t = (x, s')"
      using c by (cases v) (simp_all add: carry_out_def)
    from remove_run [OF this] show ?thesis
    proof (elim disjE exE conjE)
      fix items e'
      let ?cl = "case held of None \<Rightarrow> [] | Some c \<Rightarrow> [AConnClose c]"
      assume gone: "client_of s' (deleting nats) = None"
        and "trace s' = trace t @ AListPVCs (nNamespace (deleting nats)) (ParsedSelector (pvcSelector (deleting nats))) (Inr items) #
          map (\<lambda>p. ADeletePVC p None) (own_claims (deleting nats) items) @
          (case Option.bind (client_of t (deleting nats)) ncConn of None \<Rightarrow> [] | Some c \<Rightarrow> [AConnClose c]) @
          [AUpdateNATS (unfinalized L (deleting nats)) e']"
      then have as_eq: "as = AListPVCs (nNamespace nats) (ParsedSelector (pvcSelector nats)) (Inr items) #
          map (\<lambda>p. ADeletePVC p None) (own_claims nats items) @ ?cl @ [AUpdateNATS (unfinalized L (deleting nats)) e']"
        using as k by simp
      with in_as have ne: "n = unfinalized L (deleting nats)" "e = e'" by (auto split: option.splits)
      have "list_all (\<lambda>a. \<not> destructive a) (deletion_prelude @ reads)" "probes (deletion_prelude @ reads) = reads"
        using probes_not_destructive [OF r] probes_all [OF r] by (simp_all add: deletion_prelude_def probes_def)
      then show ?thesis
        unfolding new as_eq ne using i gone run
        by (intro exI [of _ "deletion_prelude @ reads"] exI [of _ items] exI [of _ v] exI [of _ held]) simp
    next
      fix err
      assume "run_state (DeletePVCsWithLabel L (pvcSelector (deleting nats)) (nName (deleting nats)) (nNamespace (deleting nats))) t = (Some err, s')"
      moreover have "state_io_rel (emits (\<lambda>a. \<forall>n e. a \<noteq> AUpdateNATS n e)) (DeletePVCsWithLabel L l p ns :: ('w, 'z, _) rec_m)" for l p ns
        unfolding DeletePVCsWithLabel_def clientListPVCs_def clientDeletePVC_def
        by (intro emit_frame.f_rules(1-10) emits_call) simp_all
      ultimately have "emits (\<lambda>a. \<forall>n e. a \<noteq> AUpdateNATS n e) t s'" by (blast dest: state_io_relD)
      with as in_as show ?thesis by (auto simp: emits_def list_all_iff)
    qed
  qed
qed


section \<open>Examples\<close>

definition demo_rec :: "demo_world reconciler" where
  "demo_rec = (NewReconciler demo_rend)\<lparr>controller_set := True, ctrlManager_set := True\<rparr>"

definition demo_deleted :: NATS where
  "demo_deleted = demo_nats\<lparr>nFinalizers := [NATSFinalizerName], nDeletionTimestamp := Some 5\<rparr>"

definition demo_with_streams :: "string list \<Rightarrow> demo_world reconciler" where
  "demo_with_streams xs = demo_rec\<lparr>world := (world demo_rec)\<lparr>dStreams := xs\<rparr>\<rparr>"

lemma demo_contains: "containsFinalizer (meta (demo_libs docs)) demo_deleted"
  by (simp add: containsFinalizer_def demo_libs_def ref_meta_def demo_deleted_def)

lemma demo_law: "ssc_law (meta (demo_libs docs))"
  by (simp add: demo_libs_def ref_ssc_law)

lemma demo_wf: "wf_status (nStatus demo_deleted)"
  by (simp add: wf_status_def demo_deleted_def demo_nats_def zeroStatus_def)


text \<open>The server answers: it has the \<^verbatim>\<open>sap\<close> stream with the given streams and consumers.\<close>

definition demo_with_consumers :: "string list \<Rightarrow> string list \<Rightarrow> demo_world reconciler" where
  "demo_with_consumers xs cs = demo_rec\<lparr>world := (world demo_rec)\<lparr>dStreams := xs, dConsumers := cs\<rparr>\<rparr>"

theorem deletion_follows_verdict_witness:
  "\<exists>reads v held t x. trace t = trace demo_rec @ deletion_prelude @ reads \<and>
    inquiry (client_for demo_rec demo_deleted) reads = Some (v, held) \<and>
    run_state (carry_out (demo_libs []) (deleting demo_deleted) v) t =
      (x, snd (run_state (handleNATSDeletion (demo_libs []) demo_deleted) demo_rec))"
  using deletion_follows_verdict [OF demo_contains prod.collapse [symmetric], where s = demo_rec] by blast


theorem data_deleted_only_when_safe_witness:
  "\<exists>reads rest v held. new_actions (handleNATSDeletion (demo_libs []) demo_deleted) demo_rec = deletion_prelude @ reads @ rest \<and>
    inquiry (client_for demo_rec demo_deleted) reads = Some (v, held) \<and> v \<notin> {CustomerStreamFound, SapConsumerFound}"
proof -
  have "list_ex destructive (new_actions (handleNATSDeletion (demo_libs []) demo_deleted) demo_rec)"
    by code_simp
  from data_deleted_only_when_safe [OF this] show ?thesis by blast
qed

fun updates :: "action \<Rightarrow> bool" where
  "updates (AUpdateNATS n e) = (e = None)"
| "updates _ = False"

lemma updates_ok: "updates a \<longleftrightarrow> (\<exists>n. a = AUpdateNATS n None)"
  by (cases a) auto

theorem finalizer_removed_last_witness:
  "\<exists>n pre items. new_actions (handleNATSDeletion (demo_libs []) demo_deleted) demo_rec =
      pre @ AListPVCs ''kyma-system'' (ParsedSelector (pvcSelector demo_deleted)) (Inr items) #
      map (\<lambda>p. ADeletePVC p None) (own_claims demo_deleted items) @ [AConnClose 1, AUpdateNATS n None]"
proof -
  let ?acts = "new_actions (handleNATSDeletion (demo_libs []) demo_deleted) demo_rec"
  have "list_ex updates ?acts" by code_simp
  then obtain n where "AUpdateNATS n None \<in> set ?acts"
    by (auto simp: updates_ok list_ex_iff)
  from finalizer_removed_last [OF this] obtain pre items v held where acts: "?acts =
      pre @ AListPVCs ''kyma-system'' (ParsedSelector (pvcSelector demo_deleted)) (Inr items) #
      map (\<lambda>p. ADeletePVC p None) (own_claims demo_deleted items) @
      (case held of None \<Rightarrow> [] | Some c \<Rightarrow> [AConnClose c]) @ [AUpdateNATS n None]"
    by (auto simp: demo_deleted_def demo_nats_def)
  have "last (butlast ?acts) = AConnClose 1" by code_simp
  then have "held = Some 1"
    unfolding acts by (cases held) (auto simp: butlast_append last_map split: if_splits)
  with acts show ?thesis by (intro exI [of _ n] exI [of _ pre] exI [of _ items]) simp
qed

section \<open>A late customer stream\<close>

text \<open>
  The streams are listed twice, and the second listing is only searched for \<^verbatim>\<open>sap\<close>: a customer stream that
  is created between the two listings does not stop the deletion.
\<close>

definition demo_growing :: "demo_world libs" where
  "demo_growing = (demo_libs [])\<lparr>nio := demo_nio\<lparr>nio_streams :=
     (\<lambda>j w. (dStreams w, w\<lparr>dStreams := dStreams w @ [''orders'']\<rparr>))\<rparr>\<rparr>"

lemma late_customer_stream_ignored:
  "let as = new_actions (handleNATSDeletion demo_growing demo_deleted) demo_rec
   in list_ex (\<lambda>a. a = AStreams 1 [''sap'', ''orders'']) as \<and> list_ex destructive as \<and>
     map_option fst (inquiry (client_for demo_rec demo_deleted) (probes as)) = Some NothingToLose"
  by code_simp

section \<open>A failed claim deletion\<close>

text \<open>
  C34. When the deletion of a volume claim fails with an error that \<^verbatim>\<open>client.IgnoreNotFound\<close> ignores (a
  claim of the stale cache is already gone), the reconciliation reports success and is not repeated, but
  the finalizer is still there: nothing retries the deletion.
\<close>

theorem claim_not_found_stalls_deletion:
  fixes s :: "('w, 'z) reconciler_scheme"
  assumes "run_state (DeletePVCsWithLabel L (pvcSelector nats) (nName nats) (nNamespace nats)) s = (Some err, s')"
    and "ignore_not_found (meta L) err = None"
  shows "run_state (deletePVCsAndRemoveFinalizer L nats) s = ((emptyResult, None), s') \<and>
    natsClients s' = natsClients s \<and> emits (\<lambda>a. \<forall>n e. a \<noteq> AUpdateNATS n e) s s'"
proof -
  have "state_io_rel (emits (\<lambda>a. \<forall>n e. a \<noteq> AUpdateNATS n e)) (DeletePVCsWithLabel L l p ns :: ('w, 'z, _) rec_m)"
    and "state_io_rel (keeps host.more) (DeletePVCsWithLabel L l p ns :: ('w, 'z, _) rec_m)" for l p ns
    unfolding DeletePVCsWithLabel_def clientListPVCs_def clientDeletePVC_def
    by (intro emit_frame.f_rules(1-10) emits_call keep_frame.f_rules(1-10) keeps_more; simp)+
  then have "emits (\<lambda>a. \<forall>n e. a \<noteq> AUpdateNATS n e) s s'" "keeps host.more s s'"
    using assms(1) by (blast dest: state_io_relD)+
  moreover have "natsClients s' = natsClients s"
    by (rule host_more_fields) (use calculation in \<open>simp add: keeps_def\<close>)
  moreover have "run_state (deletePVCsAndRemoveFinalizer L nats) s = ((emptyResult, None), s')"
    using assms by (simp add: deletePVCsAndRemoveFinalizer_def)
  ultimately show ?thesis by blast
qed

theorem claim_not_found_stalls_deletion_witness:
  "let s = demo_rec\<lparr>world := (world demo_rec)\<lparr>dPVCErr := Some not_found\<rparr>\<rparr> in
   fst (run_state (deletePVCsAndRemoveFinalizer (demo_libs []) demo_deleted) s) = (emptyResult, None)"
proof -
  let ?s = "demo_rec\<lparr>world := (world demo_rec)\<lparr>dPVCErr := Some not_found\<rparr>\<rparr>"
  let ?run = "run_state (DeletePVCsWithLabel (demo_libs []) (pvcSelector demo_deleted) (nName demo_deleted)
    (nNamespace demo_deleted)) ?s"
  have "fst ?run = Some not_found" by code_simp
  then have run: "?run = (Some not_found, snd ?run)" by (metis prod.collapse)
  have "ignore_not_found (meta (demo_libs [])) not_found = None" by code_simp
  from claim_not_found_stalls_deletion [OF run this] show ?thesis by (simp add: Let_def)
qed

end
