(* ===== verification/Provisioning.thy ===== *)
theory Provisioning
  imports Safety
begin

text \<open>
  \<^verbatim>\<open>internal/controller/nats/provisioner.go\<close> and \<^verbatim>\<open>status.go\<close>: the status a reconciliation writes. The table
  of \<^verbatim>\<open>handleNATSState\<close> is stated on the abstract status; the status methods reach it through their
  contract, \<open>status_method\<close>.
\<close>

section \<open>Weakest preconditions with a trace\<close>

lemma wp_emits:
  assumes "state_io_rel (emits P) m" "\<And>r t. emits P s t \<Longrightarrow> Q r t"
  shows "wp m Q s"
  using assms by (intro wpI) (blast dest: state_io_relD)

text \<open>The statuses written are well formed and have the abstract status \<open>a\<close>.\<close>

definition writes_abs :: "abs_status \<Rightarrow> action \<Rightarrow> bool" where
  "writes_abs a = writes_status (\<lambda>st. wf_status st \<and> abs_status st = a)"

lemma writes_abs_clock: "emits is_clock s s' \<Longrightarrow> emits (writes_abs a) s s'"
  by (erule clock_emits) (simp add: writes_abs_def)

lemma writes_abs_event:
  "state_io_rel (emits (writes_abs a)) (eventWarn L rn fmt args :: (('w, 'z) host_scheme, _) state)"
  "state_io_rel (emits (writes_abs a)) (eventNormal L rn fmt args :: (('w, 'z) host_scheme, _) state)"
  unfolding eventWarn_def eventNormal_def recorderEventf_def
  by (rule emits_do, simp add: writes_abs_def)+

lemma writes_abs_metric:
  "state_io_rel (emits (writes_abs a)) (RecordAvailabilityZonesUsedMetric L n :: (('w, 'z) host_scheme, _) state)"
  unfolding RecordAvailabilityZonesUsedMetric_def gaugeSet_def
  by (rule emits_do) (simp add: writes_abs_def)

text \<open>
  A list of calls ends with the resource holding a status: it was read with an equal one, or read and
  then written without an error.
\<close>

definition published :: "string \<Rightarrow> string \<Rightarrow> abs_status \<Rightarrow> action list \<Rightarrow> bool" where
  "published name ns a as \<longleftrightarrow> (\<exists>pre actual st. wf_status st \<and> abs_status st = a \<and>
     (as = pre @ [AGetNATS name ns (Inr actual)] \<and> IsEqual (nStatus actual) st \<or>
      as = pre @ [AGetNATS name ns (Inr actual), AUpdateStatus (actual\<lparr>nStatus := st\<rparr>) None]))"

lemma sync_wp:
  assumes "wf_status (nStatus nats)" "abs_status (nStatus nats) = a"
  shows "wp (syncNATSStatus L nats) (\<lambda>e t. emits (writes_abs a) s t \<and>
    (e = None \<longrightarrow> published (nName nats) (nNamespace nats) a (trace t))) s"
proof (rule wpI)
  fix e t assume run: "run_state (syncNATSStatus L nats) s = (e, t)"
  have "emits (\<lambda>c. status_action c \<and> writes_status (\<lambda>st. st = nStatus nats) c) s t"
    using sync_emits run by (rule state_io_relD)
  then have "emits (writes_abs a) s t"
    by (rule emits_mono) (auto simp: writes_abs_def assms elim!: writes_status_mono)
  moreover have "published (nName nats) (nNamespace nats) a (trace t)" if none: "e = None"
  proof -
    obtain r w where get: "api_get_nats (kapi L) (nName nats) (nNamespace nats) (world s) = (r, w)" by force
    obtain actual where r: "r = Inr actual"
      using run none get by (cases r) (auto simp: syncNATSStatus_def clientGetNATS_def)
    from run none get r have "IsEqual (nStatus actual) (nStatus nats) \<and>
        trace t = trace s @ [AGetNATS (nName nats) (nNamespace nats) (Inr actual)] \<or>
        trace t = trace s @ [AGetNATS (nName nats) (nNamespace nats) (Inr actual),
          AUpdateStatus (actual\<lparr>nStatus := nStatus nats\<rparr>) None]"
      by (auto simp: syncNATSStatus_def clientGetNATS_def updateStatus_def clientUpdateStatus_def
          split: prod.splits if_splits option.splits)
    then show ?thesis unfolding published_def using assms by blast
  qed
  ultimately show "emits (writes_abs a) s t \<and>
      (e = None \<longrightarrow> published (nName nats) (nNamespace nats) a (trace t))" by blast
qed

lemma is_sts_read_writes: "is_sts_read a \<Longrightarrow> writes_abs b a"
  by (cases a) (simp_all add: writes_abs_def)

lemma writes_abs_ready:
  "state_io_rel (emits (writes_abs a)) (IsNATSStatefulSetReady L inst :: (('w, 'z) host_scheme, _) state)"
  unfolding IsNATSStatefulSetReady_def Let_def
  by (intro emit_frame.f_if emit_frame.f_ret emits_weaken [OF sts_loop_emits] is_sts_read_writes)

text \<open>The zone count only reads pods and nodes.\<close>

fun is_zone_read :: "action \<Rightarrow> bool" where
  "is_zone_read (AListPods ns sel r) = True"
| "is_zone_read (AGetNode n r) = True"
| "is_zone_read _ = False"

lemma node_zone_emits: "state_io_rel (emits is_zone_read) (GetNodeZone L n :: (('w, 'z) kube_scheme, _) state)"
  unfolding GetNodeZone_def GetNode_def clientGetNode_def Let_def
  by (intro emit_frame.f_rules(1-9) emits_call emits_modify) simp_all

lemma zones_emits:
  "state_io_rel (emits is_zone_read) (GetNumberOfAvailabilityZonesUsedByPods L ns ls :: (('w, 'z) kube_scheme, _) state)"
proof -
  have "state_io_rel (emits is_zone_read) (pod_zones (GetNodeZone L :: _ \<Rightarrow> (('w, 'z) kube_scheme, _) state) acc pods)" for acc pods
    by (induction pods arbitrary: acc) (auto intro!: emit_frame.f_rules(1-9) node_zone_emits)
  then show ?thesis
    unfolding GetNumberOfAvailabilityZonesUsedByPods_def GetPodsByLabels_def clientListPods_def
    by (intro emit_frame.f_rules(1-9) emits_call) simp_all
qed

lemma writes_abs_zones:
  "state_io_rel (emits (writes_abs a)) (GetNumberOfAvailabilityZonesUsedByPods L ns ls :: (('w, 'z) kube_scheme, _) state)"
  by (rule emits_weaken [OF zones_emits]) (auto simp: writes_abs_def elim: is_zone_read.elims)

section \<open>The abstract table\<close>

text \<open>
  The status after a failure: the message of the StatefulSet condition is emptied and the error is told
  by the Available condition.
\<close>

definition failed_spec :: "go_error \<Rightarrow> abs_status \<Rightarrow> abs_status" where
  "failed_spec err a = a\<lparr>aState := StateError, aConds := (aConds a)
     (ConditionStatefulSet \<mapsto> (ConditionFalse, ConditionReasonSyncFailError, []),
      ConditionAvailable \<mapsto> (ConditionFalse, ConditionReasonProcessingError, error_text err))\<rparr>"

definition zones_spec :: "int \<Rightarrow> go_error + int \<Rightarrow> abs_status \<Rightarrow> abs_status" where
  "zones_spec cluster_size zones a =
     (case zones of
        Inl e \<Rightarrow> a\<lparr>aZones := 0,
          aState := (if errors_is e ErrNodeZoneLabelMissing then aState a else StateError),
          aConds := (aConds a)(ConditionAvailabilityZones \<mapsto>
            (ConditionFalse, ConditionReasonProcessingError, error_text e))\<rparr>
      | Inr n \<Rightarrow>
          if cluster_size < 3 then a\<lparr>aZones := n, aConds := (aConds a)(ConditionAvailabilityZones \<mapsto>
            (ConditionFalse, ConditionReasonNotConfigured,
             ''NATS is not configured to run in cluster mode (i.e. spec.cluster.size < 3).''))\<rparr>
          else if n = cluster_size then a\<lparr>aZones := n, aConds := (aConds a)(ConditionAvailabilityZones \<mapsto>
            (ConditionTrue, ConditionReasonDeployed, ''NATS is deployed in different availability zones.''))\<rparr>
          else a\<lparr>aZones := n, aState := StateWarning, aConds := (aConds a)(ConditionAvailabilityZones \<mapsto>
            (ConditionFalse, ConditionReasonUnknown,
             ''NATS is not currently using enough availability zones (Recommended: 3, current: '' @
             show_int n @ '').''))\<rparr>)"

definition deployed_spec :: "NATS \<Rightarrow> go_error + int \<Rightarrow> abs_status \<Rightarrow> abs_status" where
  "deployed_spec nats zones a = zones_spec (clusterSize (spCluster (nSpec nats))) zones
     ((spec_ready a)\<lparr>aURL := Format (nName nats) (nNamespace nats)\<rparr>)"

section \<open>The branches\<close>

lemma sync_err_wp:
  assumes law: "ssc_law (meta L)" and wf: "wf_status (nStatus nats)"
    and a: "a = failed_spec err (abs_status (nStatus nats))"
  shows "wp (syncNATSStatusWithErr L nats err) (\<lambda>e t. e \<noteq> None \<and> emits (writes_abs a) s t) s"
  unfolding syncNATSStatusWithErr_def
proof (subst wp_bind, rule err.wp_op [OF law wf])
  fix st s1
  assume wf1: "wf_status st" and abs1: "abs_status st = spec_error (abs_status (nStatus nats))"
    and e1: "emits is_clock s s1"
  show "wp (UpdateConditionAvailable L st ConditionFalse ConditionReasonProcessingError (error_text err) \<bind>
      (\<lambda>st. syncNATSStatus L (nats\<lparr>nStatus := st\<rparr>) \<bind> (\<lambda>e. ret (errors_join [Some err, e]))))
      (\<lambda>e t. e \<noteq> None \<and> emits (writes_abs a) s t) s1"
  proof (subst wp_bind, rule avail_cond.wp_op [OF law wf1])
    fix st2 s2
    assume wf2: "wf_status st2" and abs2: "abs_status st2 = set_cond ConditionAvailable ConditionFalse ConditionReasonProcessingError
        (error_text err) (abs_status st)" and e2: "emits is_clock s1 s2"
    have a2: "abs_status (nStatus (nats\<lparr>nStatus := st2\<rparr>)) = a"
      using abs1 abs2 by (simp add: a failed_spec_def spec_error_def set_cond_def)
    have e12: "emits (writes_abs a) s s2" using e1 e2 by (blast intro: emits_trans writes_abs_clock)
    show "wp (syncNATSStatus L (nats\<lparr>nStatus := st2\<rparr>) \<bind> (\<lambda>e. ret (errors_join [Some err, e])))
        (\<lambda>e t. e \<noteq> None \<and> emits (writes_abs a) s t) s2"
      by (subst wp_bind, rule wp_mono [OF sync_wp [OF _ a2]])
        (auto simp: wp_simps wf2 simp del: not_None_eq intro: emits_trans [OF e12])
  qed
qed

lemma zones_status_wp:
  assumes law: "ssc_law (meta L)" and wf: "wf_status st"
    and st: "abs_status st = a\<lparr>aZones := (case zones of Inl e \<Rightarrow> 0 | Inr n \<Rightarrow> n)\<rparr>"
  shows "wp (zones_status L nats st (err_of zones))
    (\<lambda>x t. wf_status (fst x) \<and> abs_status (fst x) = zones_spec (clusterSize (spCluster (nSpec nats))) zones a \<and>
       emits (writes_abs b) s t) s"
proof (cases zones)
  case (Inl e)
  then show ?thesis
    unfolding zones_status_def
    by (simp only: err_of.simps option.case, subst wp_bind, intro zones_cond.wp_op [OF law wf])
      (subst wp_bind, rule wp_emits [OF writes_abs_event(1)],
       auto simp: wp_simps st zones_spec_def set_cond_def intro: emits_trans writes_abs_clock)
next
  case (Inr n)
  have n: "stAvailabilityZonesUsed st = n" using arg_cong [OF st, of aZones] Inr by simp
  show ?thesis
  proof (cases "clusterSize (spCluster (nSpec nats)) < 3")
    case True
    with Inr show ?thesis
      unfolding zones_status_def MinClusterSize_def
      by (simp only: err_of.simps option.case if_True, subst wp_bind, intro zones_cond.wp_op [OF law wf])
        (auto simp: wp_simps st zones_spec_def set_cond_def intro: writes_abs_clock)
  next
    case False
    with Inr n show ?thesis
      unfolding zones_status_def MinClusterSize_def
      by (cases "n = clusterSize (spCluster (nSpec nats))";
          simp only: err_of.simps option.case if_True if_False bind_left_identity simp_thms;
          subst wp_bind, intro zones_cond.wp_op [OF law wf])
        (subst wp_bind, rule wp_emits [OF writes_abs_event(2)] wp_emits [OF writes_abs_event(1)],
         (auto simp: wp_simps st zones_spec_def set_cond_def intro: emits_trans writes_abs_clock) [1])+
  qed
qed

section \<open>The table\<close>

lemma failed_wp:
  assumes law: "ssc_law (meta L)" and wf: "wf_status (nStatus nats)"
  shows "wp (do {
      st \<leftarrow> UpdateConditionStatefulSet L (nStatus nats) ConditionFalse ConditionReasonSyncFailError msg;
      eventWarn L rn fmt args;
      e \<leftarrow> syncNATSStatusWithErr L (nats\<lparr>nStatus := st\<rparr>) err;
      ret (Returned (emptyResult, e)) })
    (\<lambda>out t. \<exists>e. out = Returned (emptyResult, Some e) \<and>
       emits (writes_abs (failed_spec err (abs_status (nStatus nats)))) s t) s"
proof (subst wp_bind, rule sts_cond.wp_op [OF law wf])
  fix st s1
  let ?P = "writes_abs (failed_spec err (abs_status (nStatus nats)))"
  assume wf1: "wf_status st" and e1: "emits is_clock s s1"
    and abs1: "abs_status st = set_cond ConditionStatefulSet ConditionFalse ConditionReasonSyncFailError msg
      (abs_status (nStatus nats))"
  have e1: "emits ?P s s1" using e1 by (rule writes_abs_clock)
  show "wp (eventWarn L rn fmt args \<bind> (\<lambda>_. syncNATSStatusWithErr L (nats\<lparr>nStatus := st\<rparr>) err \<bind>
      (\<lambda>e. ret (Returned (emptyResult, e)))))
    (\<lambda>out t. \<exists>e. out = Returned (emptyResult, Some e) \<and> emits ?P s t) s1"
  proof (subst wp_bind, rule wp_emits [OF writes_abs_event(1)], subst wp_bind)
    fix r t assume e2: "emits ?P s1 t"
    have "wp (syncNATSStatusWithErr L (nats\<lparr>nStatus := st\<rparr>) err) (\<lambda>e u. e \<noteq> None \<and> emits ?P t u) t"
      by (rule sync_err_wp [OF law]) (simp_all add: wf1 abs1 failed_spec_def set_cond_def)
    then show "wp (syncNATSStatusWithErr L (nats\<lparr>nStatus := st\<rparr>) err)
        (\<lambda>e. wp (ret (Returned (emptyResult, e)))
          (\<lambda>out t. \<exists>e. out = Returned (emptyResult, Some e) \<and> emits ?P s t)) t"
      by (rule wp_mono) (auto simp: wp_simps intro: emits_trans [OF emits_trans [OF e1 e2]])
  qed
qed

lemma waiting_wp:
  assumes law: "ssc_law (meta L)" and wf: "wf_status (nStatus nats)"
  shows "wp (do {
      st \<leftarrow> SetWaitingStateForStatefulSet L (nStatus nats);
      st \<leftarrow> ret (st\<lparr>stAvailabilityZonesUsed := 0\<rparr>);
      RecordAvailabilityZonesUsedMetric L (stAvailabilityZonesUsed st);
      eventNormal L rn fmt args;
      e \<leftarrow> syncNATSStatus L (nats\<lparr>nStatus := st\<rparr>);
      ret (Returned (res, e)) })
    (\<lambda>out t. \<exists>e. out = Returned (res, e) \<and>
       emits (writes_abs ((spec_waiting (abs_status (nStatus nats)))\<lparr>aZones := 0\<rparr>)) s t \<and>
       (e = None \<longrightarrow> published (nName nats) (nNamespace nats)
          ((spec_waiting (abs_status (nStatus nats)))\<lparr>aZones := 0\<rparr>) (trace t))) s"
proof (subst wp_bind, rule waiting.wp_op [OF law wf])
  fix st s1
  let ?a = "(spec_waiting (abs_status (nStatus nats)))\<lparr>aZones := 0\<rparr>"
  let ?n = "nats\<lparr>nStatus := st\<lparr>stAvailabilityZonesUsed := 0\<rparr>\<rparr>"
  assume wf1: "wf_status st" and abs1: "abs_status st = spec_waiting (abs_status (nStatus nats))"
    and e1: "emits is_clock s s1"
  have e1: "emits (writes_abs ?a) s s1" using e1 by (rule writes_abs_clock)
  have n: "wf_status (nStatus ?n)" "abs_status (nStatus ?n) = ?a" by (simp_all add: wf1 abs1)
  show "wp (ret (st\<lparr>stAvailabilityZonesUsed := 0\<rparr>) \<bind> (\<lambda>st.
      RecordAvailabilityZonesUsedMetric L (stAvailabilityZonesUsed st) \<bind> (\<lambda>_. eventNormal L rn fmt args \<bind>
      (\<lambda>_. syncNATSStatus L (nats\<lparr>nStatus := st\<rparr>) \<bind> (\<lambda>e. ret (Returned (res, e)))))))
    (\<lambda>out t. \<exists>e. out = Returned (res, e) \<and> emits (writes_abs ?a) s t \<and>
      (e = None \<longrightarrow> published (nName nats) (nNamespace nats) ?a (trace t))) s1"
    unfolding bind_left_identity
    by (subst wp_bind, rule wp_emits [OF writes_abs_metric], subst wp_bind, rule wp_emits [OF writes_abs_event(2)],
        subst wp_bind, rule wp_mono [OF sync_wp [OF n]])
      (auto simp: wp_ret intro: emits_trans [OF e1] emits_trans)
qed

text \<open>The zones that a run counts from a state in which the StatefulSets were found ready.\<close>

definition count_zones :: "'w libs \<Rightarrow> NATS \<Rightarrow> ('w, 'z) kube_scheme \<Rightarrow> go_error + int" where
  "count_zones L nats s = fst (run_state (do {
     st \<leftarrow> SetStateReady L (ClearURL (nStatus nats));
     eventNormal L ConditionReasonDeployed ''StatefulSet is ready and NATS is deployed.'' [];
     GetNumberOfAvailabilityZonesUsedByPods L (nNamespace nats) getNATSPodsMatchLabels
   }) s)"

lemma same_resource [simp]: "deployed_spec (nats\<lparr>nStatus := st\<rparr>) = deployed_spec nats"
  by (simp add: deployed_spec_def fun_eq_iff)

lemma report_zones_run:
  assumes law: "ssc_law (meta L)" and wf: "wf_status st"
    and p: "p = zones_spec (clusterSize (spCluster (nSpec nats))) zones (abs_status st)"
    and run: "run_state (report_zones L nats st zones) s = (x, s')"
  shows "fst x = emptyResult \<and> emits (writes_abs p) s s' \<and>
    (snd x = None \<longrightarrow> published (nName nats) (nNamespace nats) p (trace s'))"
proof -
  define n where "n = (case zones of Inl e \<Rightarrow> 0 | Inr n \<Rightarrow> n)"
  define st0 where "st0 = st\<lparr>stAvailabilityZonesUsed := n\<rparr>"
  have wf0: "wf_status st0" and st0: "abs_status st0 = (abs_status st)\<lparr>aZones := n\<rparr>"
    by (simp_all add: st0_def wf)
  let ?finish = "\<lambda>y. do { e \<leftarrow> syncNATSStatus L (nats\<lparr>nStatus := fst y\<rparr>);
      (case snd y of Some err \<Rightarrow> ret (emptyResult, errors_join [Some err, e]) | None \<Rightarrow> ret (emptyResult, e)) }"
  have "run_state (RecordAvailabilityZonesUsedMetric L n \<bind> (\<lambda>_.
      zones_status L nats st0 (err_of zones) \<bind> ?finish)) s = (x, s')"
    using run by (cases zones) (simp_all add: report_zones_def st0_def n_def case_prod_beta')
  then obtain u s1 where r1: "run_state (RecordAvailabilityZonesUsedMetric L n) s = (u, s1)"
    and "run_state (zones_status L nats st0 (err_of zones) \<bind> ?finish) s1 = (x, s')"
    by (rule run_bindE)
  then obtain y s2 where r2: "run_state (zones_status L nats st0 (err_of zones)) s1 = (y, s2)"
    and "run_state (?finish y) s2 = (x, s')"
    by - (erule run_bindE)
  then obtain e where r3: "run_state (syncNATSStatus L (nats\<lparr>nStatus := fst y\<rparr>)) s2 = (e, s')"
    and x: "fst x = emptyResult" "snd x = None \<longrightarrow> e = None"
    by - (erule run_bindE, auto split: option.splits)
  have e1: "emits (writes_abs p) s s1" using writes_abs_metric r1 by (rule state_io_relD)
  have y: "wf_status (nStatus (nats\<lparr>nStatus := fst y\<rparr>))" "abs_status (nStatus (nats\<lparr>nStatus := fst y\<rparr>)) = p"
    and e2: "emits (writes_abs p) s1 s2"
    using wpD [OF zones_status_wp [OF law wf0 st0 [unfolded n_def], where b = p] r2] by (simp_all add: p)
  from wpD [OF sync_wp [OF y] r3] have "emits (writes_abs p) s2 s'"
    "e = None \<longrightarrow> published (nName nats) (nNamespace nats) p (trace s')" by simp_all
  with e1 e2 x show ?thesis using emits_trans by blast
qed

lemma ready_run:
  assumes law: "ssc_law (meta L)" and wf: "wf_status (nStatus nats)"
    and run: "run_state (do {
      st \<leftarrow> SetStateReady L (nStatus nats);
      st \<leftarrow> ret (SetURL st (Format (nName nats) (nNamespace nats)));
      eventNormal L rn fmt args;
      zones \<leftarrow> GetNumberOfAvailabilityZonesUsedByPods L (nNamespace nats) getNATSPodsMatchLabels;
      report_zones L nats st zones }) s = (x, s')"
  shows "let zones = fst (run_state (do {
        st \<leftarrow> SetStateReady L (nStatus nats);
        eventNormal L rn fmt args;
        GetNumberOfAvailabilityZonesUsedByPods L (nNamespace nats) getNATSPodsMatchLabels }) s)
    in fst x = emptyResult \<and>
    emits (writes_abs (deployed_spec nats zones (abs_status (nStatus nats)))) s s' \<and>
    (snd x = None \<longrightarrow> published (nName nats) (nNamespace nats)
      (deployed_spec nats zones (abs_status (nStatus nats))) (trace s'))"
proof -
  let ?a = "abs_status (nStatus nats)" and ?url = "Format (nName nats) (nNamespace nats)"
  let ?count = "GetNumberOfAvailabilityZonesUsedByPods L (nNamespace nats) getNATSPodsMatchLabels"
  from run obtain st s1 where r1: "run_state (SetStateReady L (nStatus nats)) s = (st, s1)"
    and "run_state (eventNormal L rn fmt args \<bind> (\<lambda>_. ?count \<bind> report_zones L nats (SetURL st ?url))) s1 = (x, s')"
    by (rule run_bindE) simp
  then obtain u s2 where r2: "run_state (eventNormal L rn fmt args) s1 = (u, s2)"
    and "run_state (?count \<bind> report_zones L nats (SetURL st ?url)) s2 = (x, s')"
    by - (erule run_bindE)
  then obtain zones s3 where r3: "run_state ?count s2 = (zones, s3)"
    and r4: "run_state (report_zones L nats (SetURL st ?url) zones) s3 = (x, s')"
    by - (erule run_bindE)
  let ?P = "writes_abs (deployed_spec nats zones ?a)"
  have "wp (SetStateReady L (nStatus nats)) (\<lambda>st t. wf_status st \<and> abs_status st = spec_ready ?a \<and> emits is_clock s t) s"
    by (rule ready.wp_op [OF law wf]) simp
  then have wf1: "wf_status st" and abs1: "abs_status st = spec_ready ?a" and e1: "emits ?P s s1"
    using wpD [OF _ r1] writes_abs_clock by blast+
  have last: "fst x = emptyResult \<and> emits ?P s3 s' \<and> (snd x = None \<longrightarrow>
      published (nName nats) (nNamespace nats) (deployed_spec nats zones ?a) (trace s'))"
    by (rule report_zones_run [OF law _ _ r4]) (simp_all add: wf1 abs1 deployed_spec_def)
  moreover have "emits ?P s1 s2" using writes_abs_event(2) r2 by (rule state_io_relD)
  then have e2: "emits ?P s s2" using e1 emits_trans by blast
  moreover have "emits ?P s2 s3" using writes_abs_zones r3 by (rule state_io_relD)
  ultimately have e3: "emits ?P s s3" by (blast intro: emits_trans)
  have count: "fst (run_state (SetStateReady L (nStatus nats) \<bind> (\<lambda>st. eventNormal L rn fmt args \<bind> (\<lambda>_. ?count))) s) = zones"
    by (simp add: r1 r2 r3)
  have "emits ?P s s'" by (rule emits_trans [OF e3]) (use last in blast)
  with last show ?thesis unfolding count Let_def by blast
qed


text \<open>\<^verbatim>\<open>handleNATSState\<close> by what the check of the StatefulSets answers.\<close>

lemma state_outcome:
  assumes "ssc_law (meta L)" "wf_status (nStatus nats)"
    and ready: "run_state (IsNATSStatefulSetReady L inst) s = (Returned r, s1)"
    and run: "run_state (handleNATSState L nats inst) s = (out, s')"
  shows "\<exists>res err. out = Returned (res, err) \<and>
    (let a = (abs_status (nStatus nats))\<lparr>aURL := []\<rparr> in
     case r of
       Inl e \<Rightarrow> res = emptyResult \<and> err \<noteq> None \<and> emits (writes_abs (failed_spec e a)) s s'
     | Inr False \<Rightarrow> res = \<lparr>Requeue = False, RequeueAfter = 10000000000\<rparr> \<and>
         emits (writes_abs ((spec_waiting a)\<lparr>aZones := 0\<rparr>)) s s' \<and>
         (err = None \<longrightarrow> published (nName nats) (nNamespace nats) ((spec_waiting a)\<lparr>aZones := 0\<rparr>) (trace s'))
     | Inr True \<Rightarrow> res = emptyResult \<and> (let zones = count_zones L nats s1 in
         emits (writes_abs (deployed_spec nats zones a)) s s' \<and>
         (err = None \<longrightarrow> published (nName nats) (nNamespace nats) (deployed_spec nats zones a) (trace s'))))"
proof -
  let ?n = "nats\<lparr>nStatus := ClearURL (nStatus nats)\<rparr>"
  have wf: "wf_status (nStatus ?n)" and a: "abs_status (nStatus ?n) = (abs_status (nStatus nats))\<lparr>aURL := []\<rparr>"
    using assms(2) by simp_all
  have e1: "emits (writes_abs b) s s1" for b using writes_abs_ready ready by (rule state_io_relD)
  note rest = run [unfolded handleNATSState_def bind_left_identity, simplified, unfolded ready prod.case outcome.case]
  show ?thesis
  proof (cases r)
    case (Inl e)
    have "\<exists>e'. out = Returned (emptyResult, Some e') \<and> emits (writes_abs (failed_spec e (abs_status (nStatus ?n)))) s1 s'"
      by (rule wpD [OF failed_wp [OF assms(1) wf]]) (use rest Inl in simp)
    with Inl a e1 show ?thesis by (auto intro: emits_trans)
  next
    case (Inr b)
    show ?thesis
    proof (cases b)
      case False
      have "\<exists>e. out = Returned (emptyResult\<lparr>RequeueAfter := RequeueTimeForStatusCheck * time_Second\<rparr>, e) \<and>
          emits (writes_abs ((spec_waiting (abs_status (nStatus ?n)))\<lparr>aZones := 0\<rparr>)) s1 s' \<and>
          (e = None \<longrightarrow> published (nName ?n) (nNamespace ?n)
             ((spec_waiting (abs_status (nStatus ?n)))\<lparr>aZones := 0\<rparr>) (trace s'))"
        by (rule wpD [OF waiting_wp [OF assms(1) wf]]) (use rest Inr False in simp)
      with Inr False a e1 show ?thesis
        by (auto simp: emptyResult_def RequeueTimeForStatusCheck_def time_Second_def intro: emits_trans [OF e1])
    next
      case True
      obtain x where out: "out = Returned x" and "run_state (do {
          st \<leftarrow> SetStateReady L (nStatus ?n);
          st \<leftarrow> ret (SetURL st (Format (nName ?n) (nNamespace ?n)));
          eventNormal L ConditionReasonDeployed ''StatefulSet is ready and NATS is deployed.'' [];
          zones \<leftarrow> GetNumberOfAvailabilityZonesUsedByPods L (nNamespace ?n) getNATSPodsMatchLabels;
          report_zones L ?n st zones }) s1 = (x, s')"
        using rest Inr True by (auto split: prod.splits)
      from ready_run [OF assms(1) wf this(2)] have z: "fst x = emptyResult"
        "emits (writes_abs (deployed_spec ?n (count_zones L nats s1) (abs_status (nStatus ?n)))) s1 s'"
        "snd x = None \<longrightarrow> published (nName ?n) (nNamespace ?n)
          (deployed_spec ?n (count_zones L nats s1) (abs_status (nStatus ?n))) (trace s')"
        by (simp_all add: count_zones_def Let_def)
      have "emits (writes_abs (deployed_spec ?n (count_zones L nats s1) (abs_status (nStatus ?n)))) s s'"
        by (rule emits_trans [OF e1 z(2)])
      with Inr True out z(1,3) a show ?thesis by (cases x) (simp add: Let_def)
    qed
  qed
qed



definition demo_instance :: ReleaseInstance where
  "demo_instance = SetRenderedManifests (NewReleaseInstance ''eventing-nats'' ''kyma-system'' False [])
     \<lparr>mrItems = [demo_sts_doc], mrBlobs = []\<rparr>"


section \<open>When a status is written\<close>

lemma IsEqual_iff:
  assumes "distinct (map cType (stConditions new))" "[] \<notin> set (map cType (stConditions new))"
  shows "IsEqual old new \<longleftrightarrow> stState old = stState new \<and> stURL old = stURL new \<and>
    stAvailabilityZonesUsed old = stAvailabilityZonesUsed new \<and>
    mset (map cond_core (stConditions old)) = mset (map cond_core (stConditions new))"
proof -
  have fields: "old\<lparr>stConditions := []\<rparr> = new\<lparr>stConditions := []\<rparr> \<longleftrightarrow> stState old = stState new \<and>
      stURL old = stURL new \<and> stAvailabilityZonesUsed old = stAvailabilityZonesUsed new"
    by (cases old; cases new) simp
  have conds: "ConditionsEquals (stConditions old) (stConditions new) \<longleftrightarrow>
      mset (map cond_core (stConditions old)) = mset (map cond_core (stConditions new))"
    using ConditionsEquals_sound [OF _ assms] ConditionsEquals_complete [OF _ assms(1)] by blast
  show ?thesis unfolding IsEqual_def Let_def fields conds by blast
qed

text \<open>
  C25. The sync of a status reads the resource afresh and writes it exactly when the state, the URL, the
  number of zones or, up to their order, the conditions differ in more than transition times and
  observed generations; what it writes is the resource it read with the new status.
\<close>

theorem status_written_iff_changed:
  assumes "distinct (map cType (stConditions (nStatus nats)))" "[] \<notin> set (map cType (stConditions (nStatus nats)))"
    and get: "api_get_nats (kapi L) (nName nats) (nNamespace nats) (world s) = (Inr actual, w)"
    and run: "run_state (syncNATSStatus L nats) s = (e, s')"
  shows "let old = nStatus actual; new = nStatus nats;
      same = (stState old = stState new \<and> stURL old = stURL new \<and>
        stAvailabilityZonesUsed old = stAvailabilityZonesUsed new \<and>
        mset (map cond_core (stConditions old)) = mset (map cond_core (stConditions new)))
    in new_actions (syncNATSStatus L nats) s = AGetNATS (nName nats) (nNamespace nats) (Inr actual) #
        (if same then [] else [AUpdateStatus (actual\<lparr>nStatus := new\<rparr>) e]) \<and> (same \<longrightarrow> e = None)"
proof -
  note eq = IsEqual_iff [OF assms(1,2), of "nStatus actual"]
  show ?thesis
    using run unfolding Let_def eq [symmetric]
    by (auto simp: new_actions_def syncNATSStatus_def updateStatus_def clientGetNATS_def clientUpdateStatus_def
        get split: prod.splits option.splits)
qed

theorem status_written_iff_changed_witness:
  "new_actions (syncNATSStatus (demo_libs []) demo_nats) demo_rec =
     [AGetNATS ''eventing-nats'' ''kyma-system'' (Inr demo_nats)]"
proof -
  have get: "api_get_nats (kapi (demo_libs [])) (nName demo_nats) (nNamespace demo_nats) (world demo_rec) =
      (Inr demo_nats, demo_start)"
    by (simp add: demo_defs demo_rec_def NewReconciler_def demo_rend_def rend.defs demo_nats_def)
  have "distinct (map cType (stConditions (nStatus demo_nats)))" "[] \<notin> set (map cType (stConditions (nStatus demo_nats)))"
    by (simp_all add: demo_nats_def zeroStatus_def)
  from status_written_iff_changed [OF this get prod.collapse [symmetric]] show ?thesis
    by (simp add: Let_def demo_nats_def)
qed

section \<open>A resource that is not allowed, or not yet finalized\<close>

definition forbidden_status :: "NATS \<Rightarrow> NATSStatus \<Rightarrow> bool" where
  "forbidden_status allowed st \<longleftrightarrow> stState st = StateError \<and>
     cond_of st ConditionStatefulSet = Some (ConditionFalse, ConditionReasonForbidden, []) \<and>
     cond_of st ConditionAvailable = Some (ConditionFalse, ConditionReasonForbidden,
       CreationNotAllowedMsg (nName allowed) (nNamespace allowed))"

definition forbidden_spec :: "NATS \<Rightarrow> abs_status \<Rightarrow> abs_status" where
  "forbidden_spec allowed a =
     set_cond ConditionAvailable ConditionFalse ConditionReasonForbidden
       (CreationNotAllowedMsg (nName allowed) (nNamespace allowed))
     (set_cond ConditionStatefulSet ConditionFalse ConditionReasonForbidden [] (spec_error a))"

lemma forbidden_abs:
  assumes law: "ssc_law (meta L)" and wf: "wf_status (nStatus nats)"
    and other: "nName nats \<noteq> nName allowed \<or> nNamespace nats \<noteq> nNamespace allowed"
  shows "wp (handleNATSCRAllowedCheck L allowed nats)
    (\<lambda>x t. fst x = False \<and> emits (\<lambda>a. status_action a \<and>
       writes_status (\<lambda>st. wf_status st \<and> abs_status st = forbidden_spec allowed (abs_status (nStatus nats))) a) s t) s"
proof -
  let ?Q = "\<lambda>st. wf_status st \<and> abs_status st = forbidden_spec allowed (abs_status (nStatus nats))"
  let ?P = "\<lambda>a. status_action a \<and> writes_status ?Q a"
  have clock: "emits ?P u u'" if "emits is_clock u u'" for u u' :: "('a, 'b) host_scheme"
    using that by (rule clock_emits) simp
  have neq: "\<not> (nName nats = nName allowed \<and> nNamespace nats = nNamespace allowed)" using other by blast
  show ?thesis
    unfolding handleNATSCRAllowedCheck_def if_not_P [OF neq] bind_left_identity
  proof (subst wp_bind, rule err.wp_op [OF law wf], subst wp_bind, rule sts_cond.wp_op [OF law],
      simp, subst wp_bind, rule avail_cond.wp_op [OF law], simp)
    fix st1 s1 st2 s2 st3 s3
    assume wf3: "wf_status st3" and e: "emits is_clock s s1" "emits is_clock s1 s2" "emits is_clock s2 s3"
      and a1: "abs_status st1 = spec_error (abs_status (nStatus nats))"
      and a2: "abs_status st2 = set_cond ConditionStatefulSet ConditionFalse ConditionReasonForbidden [] (abs_status st1)"
      and a3: "abs_status st3 = set_cond ConditionAvailable ConditionFalse ConditionReasonForbidden
        (CreationNotAllowedMsg (nName allowed) (nNamespace allowed)) (abs_status st2)"
    have st: "?Q st3" using wf3 by (simp add: forbidden_spec_def a1 a2 a3)
    have "emits is_clock s s3" using e emits_trans by blast
    then have e3: "emits ?P s s3" by (rule clock)
    have ev: "state_io_rel (emits ?P) (eventWarn L ConditionReasonForbidden msg [] :: (('a, 'b) host_scheme, _) state)" for msg
      unfolding eventWarn_def recorderEventf_def by (rule emits_do) simp
    have sy: "state_io_rel (emits ?P) (syncNATSStatus L (nats\<lparr>nStatus := st3\<rparr>) :: (('a, 'b) host_scheme, _) state)"
      by (rule emits_weaken [OF sync_emits]) (use st in \<open>auto elim!: writes_status_mono\<close>)
    show "wp (eventWarn L ConditionReasonForbidden (CreationNotAllowedMsg (nName allowed) (nNamespace allowed)) [] \<bind>
        (\<lambda>_. syncNATSStatus L (nats\<lparr>nStatus := st3\<rparr>) \<bind> (\<lambda>err. ret (False, err))))
      (\<lambda>x t. fst x = False \<and> emits ?P s t) s3"
      by (subst wp_bind, rule wp_emits [OF ev], subst wp_bind, rule wp_emits [OF sy])
        (simp add: wp_ret, blast intro: emits_trans e3)
  qed
qed


lemma forbidden_wp:
  assumes "ssc_law (meta L)" "wf_status (nStatus nats)"
    and "nName nats \<noteq> nName allowed \<or> nNamespace nats \<noteq> nNamespace allowed"
  shows "wp (handleNATSCRAllowedCheck L allowed nats)
    (\<lambda>x t. fst x = False \<and> emits (\<lambda>a. status_action a \<and> writes_status (forbidden_status allowed) a) s t) s"
proof -
  have "forbidden_status allowed st" if "abs_status st = forbidden_spec allowed a" for st a
  proof -
    have "stState st = StateError"
      using arg_cong [OF that, of aState] by (simp add: forbidden_spec_def set_cond_def spec_error_def)
    then show ?thesis by (simp add: forbidden_status_def that forbidden_spec_def cond_of_def set_cond_def)
  qed
  then show ?thesis
    by (intro wp_mono [OF forbidden_abs [OF assms]]) (auto elim!: emits_mono writes_status_mono)
qed

text \<open>
  C7. When one resource is allowed and another, which is not in deletion, is reconciled, it gets nothing but
  an error status that names the allowed one: no object is applied or deleted, no finalizer is added, no
  server is asked; the request is not repeated unless the status could not be written. The check comes
  after the one for a deletion: a resource in deletion is handled as such, allowed or not.
\<close>

theorem forbidden_resource:
  fixes s :: "('w, 'z) reconciler_scheme"
  assumes "ssc_law (meta L)" and allowed: "allowedNATSCR C = Some allowed"
    and get: "api_get_nats (kapi L) name ns (world s) = (Inr nats, w)" and wf: "wf_status (nStatus nats)"
    and other: "nName nats \<noteq> nName allowed \<or> nNamespace nats \<noteq> nNamespace allowed"
  shows "if IsInDeletion (meta L) nats
    then run_state (Reconcile L C name ns) s = run_state (handleNATSDeletion L nats)
      (s\<lparr>world := w, trace := trace s @ [AGetNATS name ns (Inr nats)]\<rparr>)
    else (\<exists>err. fst (run_state (Reconcile L C name ns) s) = Returned (emptyResult, err)) \<and>
      list_all (\<lambda>a. status_action a \<and> writes_status (forbidden_status allowed) a)
        (new_actions (Reconcile L C name ns) s)"
proof (cases "IsInDeletion (meta L) nats")
  case True
  then show ?thesis by (simp add: Reconcile_def clientGetNATS_def get)
next
  case alive: False
  let ?s1 = "s\<lparr>world := w, trace := trace s @ [AGetNATS name ns (Inr nats)]\<rparr>"
  obtain x t where check: "run_state (handleNATSCRAllowedCheck L allowed nats) ?s1 = (x, t)" by (metis surj_pair)
  from wpD [OF forbidden_wp [OF assms(1) wf other] check] obtain as where x: "fst x = False"
    and t: "trace t = trace ?s1 @ as"
    and as: "list_all (\<lambda>a. status_action a \<and> writes_status (forbidden_status allowed) a) as"
    by (auto simp: emits_def)
  have run: "run_state (Reconcile L C name ns) s = (Returned (emptyResult, snd x), t)"
    using check alive x by (cases x) (simp add: Reconcile_def clientGetNATS_def get allowed)
  then have "new_actions (Reconcile L C name ns) s = AGetNATS name ns (Inr nats) # as"
    by (rule new_actions_eq) (simp add: t)
  with run as alive show ?thesis by simp
qed

definition demo_config :: "NATS option \<Rightarrow> reconciler_config" where
  "demo_config allowed = \<lparr>allowedNATSCR = allowed, fieldManager = ''nats-manager'', images = GetImageConfig zeroConfig\<rparr>"

theorem forbidden_resource_witness:
  "let C = demo_config (Some (demo_nats\<lparr>nName := ''nats''\<rparr>));
       s = demo_rec\<lparr>world := demo_start\<lparr>dNATS := Some demo_deleted\<rparr>\<rparr>
   in list_all status_action (new_actions (Reconcile (demo_libs []) C ''eventing-nats'' ''kyma-system'') demo_rec) \<and>
     run_state (Reconcile (demo_libs []) C ''eventing-nats'' ''kyma-system'') s =
       run_state (handleNATSDeletion (demo_libs []) demo_deleted)
         (s\<lparr>world := world s, trace := trace s @ [AGetNATS ''eventing-nats'' ''kyma-system'' (Inr demo_deleted)]\<rparr>)"
proof -
  let ?C = "demo_config (Some (demo_nats\<lparr>nName := ''nats''\<rparr>))"
  let ?s = "demo_rec\<lparr>world := demo_start\<lparr>dNATS := Some demo_deleted\<rparr>\<rparr>"
  have get: "api_get_nats (kapi (demo_libs [])) ''eventing-nats'' ''kyma-system'' (world demo_rec) = (Inr demo_nats, demo_start)"
    "api_get_nats (kapi (demo_libs [])) ''eventing-nats'' ''kyma-system'' (world ?s) = (Inr demo_deleted, world ?s)"
    by (simp_all add: demo_defs demo_rec_def NewReconciler_def demo_rend_def rend.defs demo_nats_def demo_deleted_def)
  have del: "\<not> IsInDeletion (meta (demo_libs [])) demo_nats" "IsInDeletion (meta (demo_libs [])) demo_deleted"
    by (simp_all add: IsInDeletion_def demo_libs_def ref_meta_def demo_nats_def demo_deleted_def)
  have wf: "wf_status (nStatus demo_nats)" by (simp add: wf_status_def demo_nats_def zeroStatus_def)
  have allowed: "allowedNATSCR ?C = Some (demo_nats\<lparr>nName := ''nats''\<rparr>)"
    by (simp add: demo_config_def)
  have other: "nName demo_nats \<noteq> nName (demo_nats\<lparr>nName := ''nats''\<rparr>) \<or>
      nNamespace demo_nats \<noteq> nNamespace (demo_nats\<lparr>nName := ''nats''\<rparr>)"
    "nName demo_deleted \<noteq> nName (demo_nats\<lparr>nName := ''nats''\<rparr>) \<or>
      nNamespace demo_deleted \<noteq> nNamespace (demo_nats\<lparr>nName := ''nats''\<rparr>)"
    by (simp_all add: demo_nats_def demo_deleted_def)
  from forbidden_resource [OF demo_law allowed get(1) wf other(1)]
    forbidden_resource [OF demo_law allowed get(2) demo_wf other(2)] show ?thesis
    using del unfolding Let_def by (auto elim: list.pred_mono_strong)
qed

text \<open>An action that changes the cluster beyond the status: applying, deleting or updating.\<close>

fun changes_cluster :: "action \<Rightarrow> bool" where
  "changes_cluster (APatchApply object force manager e) = True"
| "changes_cluster a = destructive a"

lemma quiet_status: "status_action a \<Longrightarrow> \<not> changes_cluster a"
  by (cases a) simp_all

lemma no_finalizer_provision:
  fixes s :: "('w, 'z) reconciler_scheme"
  assumes "\<not> containsFinalizer (meta L) nats"
  shows "\<exists>pre st e. new_actions (handleNATSReconcile L C nats) s = pre @ [AUpdateNATS (nats\<lparr>nStatus := st,
      nFinalizers := add_finalizer_to (meta L) (nFinalizers nats) NATSFinalizerName\<rparr>) e] \<and>
    list_all (\<lambda>a. \<not> changes_cluster a) pre \<and>
    fst (run_state (handleNATSReconcile L C nats) s) = Returned (emptyResult, e)"
proof -
  let ?head = "RecordClusterSizeMetric L (clusterSize (spCluster (nSpec nats))) \<bind> (\<lambda>_. syncCloudProvider L \<bind>
    (\<lambda>_. Initialize L (nStatus nats) \<bind> (\<lambda>st. eventNormal L ConditionReasonProcessing ''Initializing NATS resource.'' [] \<bind>
    (\<lambda>_. ret st)))) :: ('w, 'z, NATSStatus) rec_m"
  let ?P = "\<lambda>a. \<not> changes_cluster a"
  have head: "state_io_rel (emits ?P) ?head"
    by (intro emit_rec.fr emit_rec.metric_ops emit_rec.cloud_provider emit_rec.status_ops emit_rec.event_ops)
      simp_all
  obtain st t where r: "run_state ?head s = (st, t)" by force
  then have "emits ?P s t" using head by (blast dest: state_io_relD)
  then obtain pre where pre: "trace t = trace s @ pre" "list_all ?P pre" by (auto simp: emits_def)
  have eq: "handleNATSReconcile L C nats = ?head \<bind> (\<lambda>st. addFinalizer L (nats\<lparr>nStatus := st\<rparr>) \<bind> (\<lambda>r. ret (Returned r)))"
    using assms by (simp add: handleNATSReconcile_def containsFinalizer_def)
  have split: "run_state (handleNATSReconcile L C nats) s =
      run_state (addFinalizer L (nats\<lparr>nStatus := st\<rparr>) \<bind> (\<lambda>r. ret (Returned r))) t"
    unfolding eq by (rule run_bind [OF r])
  obtain e w where e: "api_update_nats (kapi L) (nats\<lparr>nStatus := st, nFinalizers :=
      add_finalizer_to (meta L) (nFinalizers nats) NATSFinalizerName\<rparr>) (world t) = (e, w)" by force
  show ?thesis
    by (rule exI [of _ pre], rule exI [of _ st], rule exI [of _ e])
      (use pre e in \<open>cases e; simp add: new_actions_def split addFinalizer_def clientUpdateNATS_def\<close>)
qed

text \<open>
  When the configuration map with the cloud provider cannot be read for a reason other than its absence,
  the run goes on as if there were no provider: the minimum and the default of Alibaba Cloud do not apply
  to the file storage that this run deploys.
\<close>

lemma unread_provider_is_none:
  assumes "cloudProvider s = None" "\<not> is_not_found (meta L) e"
    and "api_get_configmap (kapi L) shootInfoConfigMapName shootInfoConfigMapNamespace (world s) = (Inl e, w)"
  defines "t \<equiv> snd (run_state (syncCloudProvider L) s)"
  shows "cloudProvider t = None \<and>
    resolveFileStorageSize M spec (case cloudProvider t of None \<Rightarrow> [] | Some p \<Rightarrow> p) =
      Inr (if qty_is_zero M (fsSize (jsFileStorage (spJetStream spec))) then QuantityOf defaultFileSizeDefault
        else fsSize (jsFileStorage (spJetStream spec)))"
  using assms
  by (simp add: syncCloudProvider_def GetConfigMap_def clientGetConfigMap_def resolveFileStorageSize_def const_defs Let_def)

end
