(* ===== verification/Startup.thy ===== *)
theory Startup
  imports Provisioning
begin

text \<open>
  \<^verbatim>\<open>cmd/main.go\<close>: the process up to \<^verbatim>\<open>mgr.Start\<close>. The calls of third-party packages are a record of
  parameters; the result is the configuration and the initial state of the reconciler.
\<close>

section \<open>Start-up\<close>

text \<open>The command line with the defaults of the source.\<close>

record cli_flags =
  metricsAddr :: string
  probeAddr :: string
  enableLeaderElection :: bool
  leaderElectionID :: string
  metricsPort :: int

definition defaultMetricsPort :: int where "defaultMetricsPort = 9443"

definition default_flags :: cli_flags where
  "default_flags = \<lparr>metricsAddr = '':8080'', probeAddr = '':8081'', enableLeaderElection = False,
     leaderElectionID = ''26479083.kyma-project.io'', metricsPort = defaultMetricsPort\<rparr>"

record manager_options =
  moHealthProbe :: string
  moLeaderElection :: bool
  moLeaderElectionID :: string
  moMetrics :: string
  moWebhookPort :: int
  moNewCache :: "cache_options \<Rightarrow> cache_options"

definition manager_options_of :: "cli_flags \<Rightarrow> manager_options" where
  "manager_options_of f = \<lparr>moHealthProbe = probeAddr f, moLeaderElection = enableLeaderElection f,
     moLeaderElectionID = leaderElectionID f, moMetrics = metricsAddr f, moWebhookPort = metricsPort f,
     moNewCache = applySelectors\<rparr>"

text \<open>The third-party calls of \<^verbatim>\<open>main\<close>.\<close>

record boot_lib =
  bl_process :: "Config \<Rightarrow> go_error option \<times> Config"
  bl_parse_level :: "string \<Rightarrow> go_error option"
  bl_parse_flags :: "cli_flags \<Rightarrow> cli_flags"
  bl_build_logger :: "go_error option"
  bl_new_manager :: "manager_options \<Rightarrow> go_error option"
  bl_stat :: "string \<Rightarrow> bool option \<times> bool option"
  bl_clientset :: "go_error option"
  bl_build :: "controller_spec \<Rightarrow> go_error option"
  bl_healthz :: "go_error option"
  bl_readyz :: "go_error option"

text \<open>
  \<^verbatim>\<open>main\<close> up to \<^verbatim>\<open>mgr.Start\<close>. Each error is logged with a message and ends the process (\<open>Inl\<close>); otherwise
  the result is the reconciler's configuration and its initial state.
\<close>

definition zeroSpec :: NATSSpec where
  "zeroSpec = \<lparr>spCluster = \<lparr>clusterSize = 0\<rparr>,
     spJetStream = \<lparr>jsMemStorage = \<lparr>memEnabled = False, memSize = QuantityZero\<rparr>,
       jsFileStorage = \<lparr>fsStorageClassName = [], fsSize = QuantityZero\<rparr>\<rparr>,
     spLogging = \<lparr>logDebug = False, logTrace = False\<rparr>,
     spResources = \<lparr>resLimits = [], resRequests = []\<rparr>, spAnnotations = [], spLabels = []\<rparr>"

definition allowed_from_env :: "Config \<Rightarrow> NATS" where
  "allowed_from_env env = \<lparr>nAPIVersion = [], nKind = [], nName = NATSCRName env,
     nNamespace = NATSCRNamespace env, nUID = [], nResourceVersion = [], nFinalizers = [],
     nDeletionTimestamp = None, nSpec = zeroSpec, nStatus = zeroStatus\<rparr>"

definition main_setup ::
  "'w libs \<Rightarrow> boot_lib \<Rightarrow> 'w \<Rightarrow> (string \<times> go_error) + (reconciler_config \<times> 'w reconciler)" where
  "main_setup L B w =
     (case GetConfig (bl_process B) of (envConfigs, err) \<Rightarrow>
      case err of Some e \<Rightarrow> Inl (''unable to get configs from env'', e) | None \<Rightarrow>
      case bl_parse_level B (LogLevel envConfigs) of Some e \<Rightarrow> Inl (''unable to parse log level'', e) | None \<Rightarrow>
      (let flags = bl_parse_flags B default_flags in
      case bl_build_logger B of Some e \<Rightarrow> Inl (''unable to setup logger'', e) | None \<Rightarrow>
      case bl_new_manager B (manager_options_of flags) of Some e \<Rightarrow> Inl (''unable to start manager'', e) | None \<Rightarrow>
      case run_state (NewHelmRenderer L (bl_stat B) (NATSChartDir envConfigs))
        \<lparr>world = w, trace = []\<rparr> of (r, s) \<Rightarrow>
      case snd r of Some e \<Rightarrow> Inl (''failed to create new helm client'', e) | None \<Rightarrow>
      case bl_clientset B of Some e \<Rightarrow> Inl (''failed to create new k8s clientset'', e) | None \<Rightarrow>
      (let vals = (case fst r of None \<Rightarrow> [] | Some v \<Rightarrow> v);
           C = \<lparr>allowedNATSCR = Some (allowed_from_env envConfigs), fieldManager = ''nats-manager'',
             images = GetImageConfig envConfigs\<rparr>;
           s = snd (run_state (RegisterMetrics L) s);
           natsReconciler = NewReconciler (kube.extend (NewKubeClient s) \<lparr>helmValues = vals\<rparr>) in
      case run_state (SetupWithManager L (bl_build B)) natsReconciler of (err, s) \<Rightarrow>
      case err of Some e \<Rightarrow> Inl (''unable to create controller'', e) | None \<Rightarrow>
      case bl_healthz B of Some e \<Rightarrow> Inl (''unable to set up health check'', e) | None \<Rightarrow>
      case bl_readyz B of Some e \<Rightarrow> Inl (''unable to set up ready check'', e) | None \<Rightarrow>
      Inr (C, s))))"

text \<open>\<^verbatim>\<open>errors.Wrap\<close> is nil exactly for a nil error.\<close>

definition wrap_law :: "'w helm_lib \<Rightarrow> bool" where
  "wrap_law H \<longleftrightarrow> (\<forall>e msg. hl_wrap H (Some e) msg \<noteq> None \<and> hl_wrap H None msg = None)"

lemma wrap_lawD: "wrap_law H \<Longrightarrow> hl_wrap H (Some e) msg = None \<longleftrightarrow> False"
  by (simp add: wrap_law_def)

lemma NewHelmRenderer_ok:
  assumes "wrap_law (helm L)" "run_state (NewHelmRenderer L stat path) s = ((v, None), s')"
  obtains vals w where "v = Some vals" "s' = s\<lparr>world := w, trace := trace s @ [AHelmLoad path (Inr vals)]\<rparr>"
  using assms(2)
  by (auto simp: NewHelmRenderer_def wrap_lawD [OF assms(1)] split: if_splits prod.splits sum.splits)

lemma SetupWithManager_ok:
  assumes "run_state (SetupWithManager L build) s = (None, s')"
  shows "s' = s\<lparr>ctrlManager_set := True, controller_set := True\<rparr> \<and> build natsControllerSpec = None \<and>
    label_selector_as_selector (meta L) getNATSPodsMatchLabels = None"
  using assms by (auto simp: SetupWithManager_def split: option.splits)

lemma main_setup_ready:
  assumes law: "wrap_law (helm L)" and ok: "main_setup L B w = Inr (C, s)"
  shows "\<exists>env allowed vals. bl_process B zeroConfig = (None, env) \<and>
    allowedNATSCR C = Some allowed \<and> nName allowed = NATSCRName env \<and> nNamespace allowed = NATSCRNamespace env \<and>
    fieldManager C = ''nats-manager'' \<and> images C = (if FIPSModeEnabled env
       then \<lparr>imgNATS = NATSImageFIPS env, imgPrometheusExporter = PrometheusExporterImageFIPS env,
         imgNATSConfigReloader = NATSSrvCfgReloaderImageFIPS env\<rparr>
       else \<lparr>imgNATS = NATSImage env, imgPrometheusExporter = PrometheusExporterImage env,
         imgNATSConfigReloader = NATSSrvCfgReloaderImage env\<rparr>) \<and>
    bl_parse_level B (LogLevel env) = None \<and> bl_build_logger B = None \<and> bl_clientset B = None \<and>
    bl_new_manager B (manager_options_of (bl_parse_flags B default_flags)) = None \<and>
    bl_build B natsControllerSpec = None \<and> bl_healthz B = None \<and> bl_readyz B = None \<and>
    controller_set s \<and> ctrlManager_set s \<and> \<not> destinationRuleWatchStarted s \<and>
    natsClients s = Map.empty \<and> nodesZoneCache s = Map.empty \<and> cloudProvider s = None \<and>
    helmValues s = vals \<and>
    trace s = [AHelmLoad (NATSChartDir env) (Inr vals),
      AGaugeRegister GaugeAvailabilityZonesUsed, AGaugeRegister GaugeClusterSize]"
proof -
  obtain env where env: "bl_process B zeroConfig = (None, env)"
    using ok by (auto simp: main_setup_def GetConfig_def split: prod.splits option.splits)
  obtain v e s1 where r: "run_state (NewHelmRenderer L (bl_stat B) (NATSChartDir env)) \<lparr>world = w, trace = []\<rparr> = ((v, e), s1)"
    by (metis prod.exhaust)
  have e: "e = None"
    using ok by (auto simp: main_setup_def GetConfig_def env r Let_def split: option.splits)
  note r = r [unfolded e]
  from NewHelmRenderer_ok [OF law r] obtain vals w1 where v: "v = Some vals"
    and s1: "s1 = \<lparr>world = w1, trace = [AHelmLoad (NATSChartDir env) (Inr vals)]\<rparr>" by auto
  have "(case run_state (SetupWithManager L (bl_build B)) (NewReconciler
      (kube.extend (NewKubeClient (snd (run_state (RegisterMetrics L) s1))) \<lparr>helmValues = vals\<rparr>)) of (err, t) \<Rightarrow> err = None \<and> t = s)"
    and C: "C = \<lparr>allowedNATSCR = Some (allowed_from_env env), fieldManager = ''nats-manager'', images = GetImageConfig env\<rparr>"
    using ok by (auto simp: main_setup_def GetConfig_def env r v Let_def split: prod.splits option.splits)
  then have "s = (NewReconciler (kube.extend (NewKubeClient (snd (run_state (RegisterMetrics L) s1))) \<lparr>helmValues = vals\<rparr>))
      \<lparr>ctrlManager_set := True, controller_set := True\<rparr>"
    by (auto dest!: SetupWithManager_ok)
  moreover have "bl_parse_level B (LogLevel env) = None" "bl_build_logger B = None" "bl_clientset B = None"
    "bl_new_manager B (manager_options_of (bl_parse_flags B default_flags)) = None"
    "bl_build B natsControllerSpec = None" "bl_healthz B = None" "bl_readyz B = None"
    using ok by (auto simp: main_setup_def GetConfig_def env r v Let_def split: prod.splits option.splits dest!: SetupWithManager_ok)
  ultimately show ?thesis
    by (simp add: C env s1 GetImageConfig_def RegisterMetrics_def gauge_defs NewReconciler_def NewKubeClient_def host.defs
        kube.defs rend.defs allowed_from_env_def)
qed


text \<open>
  C33. A start-up succeeds only when every step of it does, from the log level to the health checks. It
  leaves a reconciler that may use its manager and its controller, allows exactly the resource the
  environment names, uses the FIPS images of the environment in FIPS mode and the others otherwise, has
  registered both metrics, and has empty caches and no client.
\<close>

theorem startup_establishes:
  assumes law: "wrap_law (helm L)" and ok: "main_setup L B w = Inr (C, s)"
  shows "\<exists>env allowed vals. bl_process B zeroConfig = (None, env) \<and>
    allowedNATSCR C = Some allowed \<and> nName allowed = NATSCRName env \<and> nNamespace allowed = NATSCRNamespace env \<and>
    fieldManager C = ''nats-manager'' \<and> images C = (if FIPSModeEnabled env
       then \<lparr>imgNATS = NATSImageFIPS env, imgPrometheusExporter = PrometheusExporterImageFIPS env,
         imgNATSConfigReloader = NATSSrvCfgReloaderImageFIPS env\<rparr>
       else \<lparr>imgNATS = NATSImage env, imgPrometheusExporter = PrometheusExporterImage env,
         imgNATSConfigReloader = NATSSrvCfgReloaderImage env\<rparr>) \<and>
    bl_parse_level B (LogLevel env) = None \<and> bl_build_logger B = None \<and> bl_clientset B = None \<and>
    bl_new_manager B (manager_options_of (bl_parse_flags B default_flags)) = None \<and>
    bl_build B natsControllerSpec = None \<and> bl_healthz B = None \<and> bl_readyz B = None \<and>
    controller_set s \<and> ctrlManager_set s \<and> \<not> destinationRuleWatchStarted s \<and>
    natsClients s = Map.empty \<and> nodesZoneCache s = Map.empty \<and> cloudProvider s = None \<and>
    helmValues s = vals \<and>
    trace s = [AHelmLoad (NATSChartDir env) (Inr vals),
      AGaugeRegister GaugeAvailabilityZonesUsed, AGaugeRegister GaugeClusterSize]"
  by (rule main_setup_ready [OF assms])

definition demo_env :: Config where
  "demo_env = zeroConfig\<lparr>LogLevel := ''info'', NATSChartDir := ''/chart'', NATSCRName := ''eventing-nats'',
     NATSCRNamespace := ''kyma-system'', NATSImage := ''nats:2'', FIPSModeEnabled := True,
     NATSImageFIPS := ''nats-fips:2'', PrometheusExporterImageFIPS := ''exporter-fips:1''\<rparr>"

definition demo_boot :: boot_lib where
  "demo_boot = \<lparr>bl_process = (\<lambda>c. (None, demo_env)), bl_parse_level = (\<lambda>l. None), bl_parse_flags = (\<lambda>f. f),
     bl_build_logger = None, bl_new_manager = (\<lambda>opt. None), bl_stat = (\<lambda>path. (Some True, None)),
     bl_clientset = None, bl_build = (\<lambda>spec. None), bl_healthz = None, bl_readyz = None\<rparr>"

lemma demo_wrap_law: "wrap_law (helm (demo_libs docs))"
  by (simp add: wrap_law_def demo_defs)

definition demo_booted :: "reconciler_config \<times> demo_world reconciler" where
  "demo_booted = (case main_setup (demo_libs []) demo_boot demo_start of Inr x \<Rightarrow> x
     | Inl e \<Rightarrow> (demo_config None, demo_rec))"

lemma demo_boots: "main_setup (demo_libs []) demo_boot demo_start = Inr (fst demo_booted, snd demo_booted)"
proof -
  have "(case main_setup (demo_libs []) demo_boot demo_start of Inr x \<Rightarrow> True | Inl e \<Rightarrow> False)" by code_simp
  then show ?thesis by (auto simp: demo_booted_def split: sum.splits)
qed

theorem startup_establishes_witness:
  "controller_set (snd demo_booted) \<and> map_option nName (allowedNATSCR (fst demo_booted)) = Some ''eventing-nats'' \<and>
   imgNATS (images (fst demo_booted)) = ''nats-fips:2'' \<and>
   imgPrometheusExporter (images (fst demo_booted)) = ''exporter-fips:1''"
  using startup_establishes [OF demo_wrap_law demo_boots]
  by (auto simp: demo_boot_def demo_env_def zeroConfig_def)

end
