(* ===== verification/Lifecycle.thy ===== *)
theory Lifecycle
  imports Startup
begin

text \<open>
  The life of the manager process: the runs that follow a start-up, as a step relation in which the
  outside world changes at will between reconciliations of any request. The reconciliations of one
  controller do not overlap (controller-runtime runs one worker unless told otherwise, which the source
  does not do). The invariants are instances of the frame of a reconciliation.
\<close>

section \<open>Steps and runs\<close>

inductive step :: "'w libs \<Rightarrow> reconciler_config \<Rightarrow> 'w reconciler \<Rightarrow> 'w reconciler \<Rightarrow> bool"
  for L :: "'w libs" and C :: reconciler_config where
  environment: "step L C s (s\<lparr>world := w\<rparr>)"
| reconciled: "run_state (Reconcile L C name ns) s = (out, s') \<Longrightarrow> step L C s s'"

inductive_cases stepE: "step L C s s'"

definition steps :: "'w libs \<Rightarrow> reconciler_config \<Rightarrow> 'w reconciler \<Rightarrow> 'w reconciler \<Rightarrow> bool" where
  "steps L C = (step L C)\<^sup>*\<^sup>*"

lemma steps_refl [simp, intro]: "steps L C s s"
  by (simp add: steps_def)

lemma steps_step: "steps L C s t \<Longrightarrow> step L C t u \<Longrightarrow> steps L C s u"
  by (simp add: steps_def)

text \<open>A relation that a change of the world and a reconciliation respect holds along every run.\<close>

lemma steps_frame:
  assumes "frame_rel R" and "\<And>s w. R s (s\<lparr>world := w\<rparr>)"
    and "\<And>name ns. state_io_rel R (Reconcile L C name ns)" and "steps L C s t"
  shows "R s t"
  using assms(4) unfolding steps_def
proof (induction rule: rtranclp_induct)
  case base
  show ?case by (rule frame_rel.frame_refl [OF assms(1)])
next
  case (step t u)
  from step.hyps(2) have "R t u"
    by (cases rule: step.cases) (auto intro: assms(2) dest: state_io_relD [OF assms(3)])
  with step.IH show ?case by (rule frame_rel.frame_trans [OF assms(1)])
qed

section \<open>What a process never loses\<close>

text \<open>
  The set-up flags, the zones in the cache and the cloud provider: once they are there, they stay.
\<close>

definition process_grows :: "('w, 'z) reconciler_scheme \<Rightarrow> ('w, 'z) reconciler_scheme \<Rightarrow> bool" where
  "process_grows s s' \<longleftrightarrow> controller_set s' = controller_set s \<and> ctrlManager_set s' = ctrlManager_set s \<and>
     (\<forall>n z. known_zone s n = Some z \<longrightarrow> known_zone s' n = Some z) \<and>
     (\<forall>p. cloudProvider s = Some p \<longrightarrow> cloudProvider s' = Some p)"

lemma sync_more: "state_io_rel (keeps host.more) (syncNATSStatus L nats :: ('w, 'z, _) rec_m)"
  unfolding syncNATSStatus_def updateStatus_def clientGetNATS_def clientUpdateStatus_def Let_def
  by (intro keep_frame.f_rules(1-7) keeps_more)

lemma more_frame:
  assumes "\<And>s s' :: ('w, 'z) reconciler_scheme. host.more s' = host.more s \<Longrightarrow> R s s'"
    and "state_io_rel (keeps host.more) m"
  shows "state_io_rel R m"
  using assms by (auto simp: state_io_rel_def keeps_def)

lemma known_zone_cong:
  "nodesZoneCache s' = nodesZoneCache s \<Longrightarrow> known_zone s' = known_zone s"
  by (simp add: known_zone_def fun_eq_iff)

lemma known_zone_set:
  "z \<noteq> [] \<Longrightarrow> known_zone (s\<lparr>nodesZoneCache := (nodesZoneCache s)(n \<mapsto> z)\<rparr>) = (known_zone s)(n \<mapsto> z)"
  by (simp add: known_zone_def fun_eq_iff)

lemma process_growsI:
  "controller_set s' = controller_set s \<Longrightarrow> ctrlManager_set s' = ctrlManager_set s \<Longrightarrow>
   nodesZoneCache s' = nodesZoneCache s \<Longrightarrow> cloudProvider s' = cloudProvider s \<Longrightarrow> process_grows s s'"
  unfolding process_grows_def by (simp add: known_zone_def)

interpretation process_rec: rec_frame "process_grows :: ('w, 'z) reconciler_scheme \<Rightarrow> _" L "\<lambda>_. True" "\<lambda>_. True" True
  for L :: "'w libs"
proof
  show "state_io_rel process_grows (syncNATSStatus L nats :: ('w, 'z, _) rec_m)" for nats
    by (rule more_frame [OF _ sync_more], rule process_growsI) (erule host_more_fields)+
  show "process_grows s (s\<lparr>nodesZoneCache := (nodesZoneCache s)(n \<mapsto> z)\<rparr>)"
    if "known_zone s n = None" "z \<noteq> []" for s :: "('w, 'z) reconciler_scheme" and n z
    using that by (simp add: process_grows_def known_zone_set)
  show "process_grows s (s\<lparr>cloudProvider := Some p\<rparr>)"
    if "cloudProvider s = None" for s :: "('w, 'z) reconciler_scheme" and p
    using that by (simp add: process_grows_def known_zone_def)
qed (simp_all add: process_growsI, simp add: process_grows_def)

lemma process_steps: "steps L C s t \<Longrightarrow> process_grows s t"
  by (rule steps_frame [OF process_rec.frame_rel_axioms _ process_rec.reconcile])
    (simp_all add: process_grows_def known_zone_def)


section \<open>The watch is started once\<close>

fun started_watch :: "action \<Rightarrow> bool" where
  "started_watch (AWatch kind version sel err) = (err = None)"
| "started_watch _ = False"

definition watch_inv :: "('w, 'z) reconciler_scheme \<Rightarrow> bool" where
  "watch_inv s \<longleftrightarrow> length (filter started_watch (trace s)) = (if destinationRuleWatchStarted s then 1 else 0)"

text \<open>An invariant as a frame: who starts in it stays in it.\<close>

definition preserves :: "('s \<Rightarrow> bool) \<Rightarrow> 's \<Rightarrow> 's \<Rightarrow> bool" where
  "preserves I s s' \<longleftrightarrow> (I s \<longrightarrow> I s')"

lemma preserves_frame: "frame_rel (preserves I)"
  by unfold_locales (simp_all add: preserves_def)

lemma status_no_watch: "status_action a \<Longrightarrow> \<not> started_watch a"
  by (cases a) simp_all

lemma sync_watch: "state_io_rel (preserves watch_inv) (syncNATSStatus L nats :: ('w, 'z, _) rec_m)"
proof (rule state_io_relI)
  fix s s' :: "('w, 'z) reconciler_scheme" and r
  assume run: "run_state (syncNATSStatus L nats) s = (r, s')"
  have "emits (\<lambda>a. status_action a \<and> writes_status (\<lambda>st. st = nStatus nats) a) s s'"
    using sync_emits run by (rule state_io_relD)
  then obtain as where as: "trace s' = trace s @ as" "list_all status_action as"
    by (auto simp: emits_def list_all_iff)
  have "filter started_watch as = []"
    using as(2) status_no_watch by (auto simp: filter_empty_conv list_all_iff)
  moreover have "destinationRuleWatchStarted s' = destinationRuleWatchStarted s"
    by (rule host_more_fields(4) [OF state_io_relD [OF sync_more run, unfolded keeps_def]])
  ultimately show "preserves watch_inv s s'"
    using as(1) by (simp add: preserves_def watch_inv_def)
qed

interpretation watch_rec: rec_frame "preserves watch_inv :: ('w, 'z) reconciler_scheme \<Rightarrow> _" L
  "\<lambda>a. \<not> started_watch a" "\<lambda>_. True" True for L :: "'w libs"
  by (rule rec_frame.intro [OF preserves_frame], unfold_locales)
    (simp_all add: sync_watch, simp_all add: preserves_def watch_inv_def)

lemma watch_reconcile: "state_io_rel (preserves watch_inv) (Reconcile L C name ns :: ('w, 'z, _) rec_m)"
proof (rule watch_rec.reconcile)
  show "\<not> started_watch a" if "provision_action L (fieldManager C) nats a" "\<not> guarded_action a" for nats a
    using that by (cases a) simp_all
  show "\<not> started_watch a" if "deprovision_action L nats a" "\<not> guarded_action a" for nats a
    using that by (cases a) simp_all
qed simp_all

section \<open>The clients belong to their servers\<close>

definition clients_inv :: "('w, 'z) reconciler_scheme \<Rightarrow> bool" where
  "clients_inv s \<longleftrightarrow> (\<forall>k c. natsClients s k = Some (Some c) \<longrightarrow>
     (\<exists>n. k = crKey n \<and> ncConfig c = \<lparr>ccURL = Format (nName n) (nNamespace n), ccTimeout = 0\<rparr>))"

lemma clients_inv_cong: "natsClients s' = natsClients s \<Longrightarrow> clients_inv s \<Longrightarrow> clients_inv s'"
  by (simp add: clients_inv_def)

interpretation clients_rec: rec_frame "preserves clients_inv :: ('w, 'z) reconciler_scheme \<Rightarrow> _" L
  "\<lambda>_. True" "\<lambda>_. True" True for L :: "'w libs"
proof (rule rec_frame.intro [OF preserves_frame], unfold_locales)
  show "state_io_rel (preserves clients_inv) (syncNATSStatus L nats :: ('w, 'z, _) rec_m)" for nats
    by (rule more_frame [OF _ sync_more]) (auto simp: preserves_def intro: clients_inv_cong host_more_fields(1))
  fix s :: "('w, 'z) reconciler_scheme" and x :: "natsClient option" and n1 :: NATS
  assume x: "\<And>c. x = Some c \<Longrightarrow> ncConfig c = \<lparr>ccURL = Format (nName n1) (nNamespace n1), ccTimeout = 0\<rparr> \<or>
      (\<exists>c0. natsClients s (crKey n1) = Some (Some c0) \<and> ncConfig c = ncConfig c0)"
  show "preserves clients_inv s (s\<lparr>natsClients := (natsClients s)(crKey n1 \<mapsto> x)\<rparr>)"
    unfolding preserves_def clients_inv_def using x by auto
qed (simp_all add: preserves_def clients_inv_def)

text \<open>Keys without a second slash belong to one resource.\<close>

lemma crKey_inj:
  assumes key: "crKey n = crKey nats" and slash: "CHR ''/'' \<notin> set (nName nats)" "CHR ''/'' \<notin> set (nNamespace nats)"
  shows "nName n = nName nats \<and> nNamespace n = nNamespace nats"
proof -
  have key: "nNamespace n @ CHR ''/'' # nName n = nNamespace nats @ CHR ''/'' # nName nats"
    using key by (simp add: crKey_def)
  have "count_list (nNamespace n @ CHR ''/'' # nName n) (CHR ''/'') =
      count_list (nNamespace nats @ CHR ''/'' # nName nats) (CHR ''/'')" by (simp only: key)
  then have "count_list (nNamespace n) (CHR ''/'') = 0"
    using slash by (simp add: count_list_0_iff [THEN iffD2])
  then have n: "CHR ''/'' \<notin> set (nNamespace n)" by (simp add: count_list_0_iff)
  have "split_on (CHR ''/'') (nNamespace n @ CHR ''/'' # nName n) =
      split_on (CHR ''/'') (nNamespace nats @ CHR ''/'' # nName nats)" by (simp only: key)
  then have "nNamespace n = nNamespace nats" using n slash by (simp add: split_on_append)
  with key show ?thesis by simp
qed


section \<open>Status writes follow a fresh read\<close>

text \<open>
  In a list of calls every status update comes right after a read of the resource, rewrites only the
  status of what was read, and changes it in the sense of \<^verbatim>\<open>IsEqual\<close>.
\<close>

definition justified :: "action list \<Rightarrow> bool" where
  "justified as \<longleftrightarrow> (\<forall>pre n e post. as = pre @ AUpdateStatus n e # post \<longrightarrow>
     (\<exists>pre' name ns actual. pre = pre' @ [AGetNATS name ns (Inr actual)] \<and>
        n = actual\<lparr>nStatus := nStatus n\<rparr> \<and> \<not> IsEqual (nStatus actual) (nStatus n)))"

lemma justified_append:
  assumes "justified as" "justified bs"
  shows "justified (as @ bs)"
  unfolding justified_def
proof (intro allI impI)
  fix pre n e post
  assume "as @ bs = pre @ AUpdateStatus n e # post"
  then consider us where "as = pre @ AUpdateStatus n e # us" | us where "pre = as @ us" "bs = us @ AUpdateStatus n e # post"
    by (auto simp: append_eq_append_conv2 append_eq_Cons_conv Cons_eq_append_conv)
  then show "\<exists>pre' name ns actual. pre = pre' @ [AGetNATS name ns (Inr actual)] \<and>
      n = actual\<lparr>nStatus := nStatus n\<rparr> \<and> \<not> IsEqual (nStatus actual) (nStatus n)"
  proof cases
    case 1
    with assms(1) show ?thesis by (auto simp: justified_def)
  next
    case 2
    with assms(2) obtain pre' name ns actual where "us = pre' @ [AGetNATS name ns (Inr actual)]"
      "n = actual\<lparr>nStatus := nStatus n\<rparr>" "\<not> IsEqual (nStatus actual) (nStatus n)"
      unfolding justified_def by blast
    with 2(1) show ?thesis by (intro exI [of _ "as @ pre'"]) auto
  qed
qed

lemma justified_none: "\<forall>n e. AUpdateStatus n e \<notin> set as \<Longrightarrow> justified as"
  unfolding justified_def by (metis in_set_conv_decomp)

lemma justified_pair:
  "n = actual\<lparr>nStatus := nStatus n\<rparr> \<Longrightarrow> \<not> IsEqual (nStatus actual) (nStatus n) \<Longrightarrow>
   justified [AGetNATS name ns (Inr actual), AUpdateStatus n e]"
  by (auto simp: justified_def Cons_eq_append_conv)

definition adds_justified :: "('w, 'z) host_scheme \<Rightarrow> ('w, 'z) host_scheme \<Rightarrow> bool" where
  "adds_justified s s' \<longleftrightarrow> (\<exists>as. trace s' = trace s @ as \<and> justified as)"

lemma adds_one: "\<forall>n e. a \<noteq> AUpdateStatus n e \<Longrightarrow> trace s' = trace s @ [a] \<Longrightarrow> adds_justified s s'"
  unfolding adds_justified_def by (rule exI [of _ "[a]"]) (auto intro!: justified_none)

lemma adds_none: "trace s' = trace s \<Longrightarrow> adds_justified s s'"
  by (auto simp: adds_justified_def intro!: exI [of _ "[]"] justified_none)

lemma sync_justified: "state_io_rel adds_justified (syncNATSStatus L nats :: (('w, 'z) host_scheme, _) state)"
proof (rule state_io_relI)
  fix s s' :: "('w, 'z) host_scheme" and r
  assume run: "run_state (syncNATSStatus L nats) s = (r, s')"
  obtain x w where get: "api_get_nats (kapi L) (nName nats) (nNamespace nats) (world s) = (x, w)" by force
  let ?read = "AGetNATS (nName nats) (nNamespace nats) x"
  show "adds_justified s s'"
  proof (cases "\<exists>actual. x = Inr actual \<and> \<not> IsEqual (nStatus actual) (nStatus nats)")
    case True
    then obtain actual where x: "x = Inr actual" and ne: "\<not> IsEqual (nStatus actual) (nStatus nats)" by blast
    obtain e where "trace s' = trace s @ [?read, AUpdateStatus (actual\<lparr>nStatus := nStatus nats\<rparr>) e]"
      using run ne x get by (auto simp: syncNATSStatus_def updateStatus_def clientGetNATS_def
          clientUpdateStatus_def Let_def split: prod.splits option.splits)
    moreover have "justified [?read, AUpdateStatus (actual\<lparr>nStatus := nStatus nats\<rparr>) e]"
      unfolding x by (rule justified_pair) (simp_all add: ne)
    ultimately show ?thesis by (auto simp: adds_justified_def)
  next
    case False
    then have "trace s' = trace s @ [?read]"
      using run get by (cases x) (auto simp: syncNATSStatus_def updateStatus_def clientGetNATS_def Let_def)
    then show ?thesis by (rule adds_one [rotated]) simp
  qed
qed

interpretation justified_rec: rec_frame "adds_justified :: ('w, 'z) reconciler_scheme \<Rightarrow> _" L
  "\<lambda>a. \<forall>n e. a \<noteq> AUpdateStatus n e" "\<lambda>_. True" True for L :: "'w libs"
proof
  show "adds_justified s u" if "adds_justified s t" "adds_justified t u"
    for s t u :: "('w, 'z) reconciler_scheme"
    using that by (auto simp: adds_justified_def intro!: justified_append)
  show "adds_justified s (s\<lparr>world := w, trace := trace s @ [a]\<rparr>)" if "\<forall>n e. a \<noteq> AUpdateStatus n e"
    for s :: "('w, 'z) reconciler_scheme" and w a
    by (rule adds_one [where a = a]) (use that in simp_all)
  show "state_io_rel adds_justified (syncNATSStatus L nats :: ('w, 'z, _) rec_m)" for nats
    by (rule sync_justified)
  show "adds_justified s (s\<lparr>world := w, trace := trace s @
      [AWatch DestinationRuleKind DestinationRuleAPIVersion managed_by_selector None], destinationRuleWatchStarted := True\<rparr>)"
    for s :: "('w, 'z) reconciler_scheme" and w
    by (rule adds_one [where a = "AWatch DestinationRuleKind DestinationRuleAPIVersion managed_by_selector None"]) simp_all
qed (simp_all add: adds_none)

text \<open>
  C17. In a reconciliation of any request, whatever the API server answers, every write of a status comes
  right after a fresh read of the resource, changes nothing but its status (so that a concurrent edit of
  the specification is not overwritten), and really changes it.
\<close>

theorem status_writes_justified:
  fixes s :: "('w, 'z) reconciler_scheme"
  shows "justified (new_actions (Reconcile L C name ns) s)"
proof -
  have "state_io_rel adds_justified (Reconcile L C name ns :: ('w, 'z, _) rec_m)"
  proof (rule justified_rec.reconcile)
    show "\<forall>n e. a \<noteq> AUpdateStatus n e" if "provision_action L (fieldManager C) nats a" "\<not> guarded_action a" for nats a
      using that by (cases a) simp_all
    show "\<forall>n e. a \<noteq> AUpdateStatus n e" if "deprovision_action L nats a" "\<not> guarded_action a" for nats a
      using that by (cases a) simp_all
  qed simp_all
  then show ?thesis
    by (auto simp: state_io_rel_def adds_justified_def new_actions_def) (metis append_eq_conv_conj)
qed


section \<open>No reconciliation panics\<close>

text \<open>
  A panic of the reconciler could come from a missing controller or manager, from a missing client, or
  from a StatefulSet without a number of replicas (which the API server always fills in).
\<close>

definition set_up :: "('w, 'z) reconciler_scheme \<Rightarrow> bool" where
  "set_up s \<longleftrightarrow> controller_set s \<and> ctrlManager_set s"

definition never_panics :: "('s, 'a outcome) state \<Rightarrow> bool" where
  "never_panics m \<longleftrightarrow> (\<forall>s. fst (run_state m s) \<noteq> Panicked)"

lemma never_panics_ret [intro]: "never_panics (ret (Returned x))"
  by (simp add: never_panics_def)

lemma never_panics_bind [intro]: "(\<And>x. never_panics (f x)) \<Longrightarrow> never_panics (m \<bind> f)"
  by (simp add: never_panics_def split: prod.splits)

lemma handleNATSState_returns:
  assumes "replicas_set L"
  shows "never_panics (handleNATSState L nats inst :: (('w, 'z) kube_scheme, _) state)"
  unfolding never_panics_def
proof
  fix s :: "('w, 'z) kube_scheme"
  obtain r t where ready: "run_state (IsNATSStatefulSetReady L inst) s = (r, t)" by force
  then have "r \<noteq> Panicked" using IsNATSStatefulSetReady_no_panic [OF assms, of inst s] by simp
  then show "fst (run_state (handleNATSState L nats inst) s) \<noteq> Panicked"
    by (cases r) (simp_all add: handleNATSState_def ready split: sum.splits prod.splits)
qed

lemma wp_set_up:
  assumes "state_io_rel process_grows m" "set_up s" "\<And>x t. set_up t \<Longrightarrow> wp (f x) Q t"
  shows "wp (m \<bind> f) Q s"
  unfolding wp_bind
proof (rule wpI)
  fix x t assume "run_state m s = (x, t)"
  with assms(1) have "process_grows s t" by (rule state_io_relD)
  then show "wp (f x) Q t" using assms(2,3) by (simp add: process_grows_def set_up_def)
qed

abbreviation returned :: "'a outcome \<Rightarrow> 's \<Rightarrow> bool" where
  "returned r t \<equiv> r \<noteq> Panicked"

lemma wp_never: "never_panics m \<Longrightarrow> wp m returned s"
  by (simp add: never_panics_def wp_def split: prod.splits) (metis fst_conv)

lemma fail_returns: "never_panics (fail_provisioning L nats fmt err)"
  unfolding fail_provisioning_def by blast

lemma watch_returns:
  assumes "set_up s"
  shows "wp (startDestinationRuleWatch L inst) returned s"
  using assms by (auto simp: startDestinationRuleWatch_def watchDestinationRule_def controllerWatch_def
      set_up_def wp_simps split: option.splits prod.splits)

lemma handleNATSReconcile_returns:
  assumes rep: "replicas_set L" and s: "set_up s"
  shows "wp (handleNATSReconcile L C nats) returned s"
proof -
  have deploy: "wp (startDestinationRuleWatch L inst \<bind> (\<lambda>w. case w of Panicked \<Rightarrow> ret Panicked
      | Returned err \<Rightarrow> (case err of Some err \<Rightarrow> fail_provisioning L n fmt err
          | None \<Rightarrow> handleNATSState L n inst))) returned t" if "set_up t"
    for inst n fmt and t :: "('a, 'b) reconciler_scheme"
    unfolding wp_bind
    by (rule wp_mono [OF watch_returns [OF that]])
      (auto simp: wp_never fail_returns handleNATSState_returns [OF rep] split: outcome.splits option.splits)
  note grows = process_rec.metric_ops process_rec.cloud_provider process_rec.status_ops process_rec.event_ops
    process_rec.init_instance process_rec.deploy
  have fin: "wp (addFinalizer L n \<bind> (\<lambda>r. ret (Returned r))) returned t" for n and t :: "('a, 'b) reconciler_scheme"
    by (rule wp_never) blast
  have inst: "wp (initNATSInstance L C n \<bind> g) returned t"
    if "set_up t" "\<And>x u. set_up u \<Longrightarrow> wp (g x) returned u" for n g and t :: "('a, 'b) reconciler_scheme"
    by (rule wp_set_up [OF process_rec.init_instance that]) simp
  have dep: "wp (DeployInstance L fm i \<bind> g) returned t"
    if "set_up t" "\<And>x u. set_up u \<Longrightarrow> wp (g x) returned u" for fm i g and t :: "('a, 'b) reconciler_scheme"
    by (rule wp_set_up [OF process_rec.deploy that]) simp
  show ?thesis
    unfolding handleNATSReconcile_def bind_left_identity
    apply (rule wp_set_up [OF process_rec.metric_ops(2) s], simp)
    apply (rule wp_set_up [OF process_rec.cloud_provider], simp, assumption)
    apply (rule wp_set_up [OF process_rec.status_ops(8)], simp, assumption)
    apply (rule wp_set_up [OF process_rec.event_ops(2)], simp, assumption)
    apply (simp only: wp_if fin if_True if_False split: if_splits)
    apply (intro conjI impI inst; simp add: wp_case_sum wp_never fail_returns split: sum.splits)
    apply (intro allI impI dep, assumption)
    apply (simp add: wp_case_option wp_never fail_returns deploy split: option.splits)
    done
qed


lemma handleNATSDeletion_returns:
  "wp (handleNATSDeletion L nats) returned (s :: ('w, 'z) reconciler_scheme)"
proof (rule wpI)
  fix r s' assume run: "run_state (handleNATSDeletion L nats) s = (r, s')"
  show "r \<noteq> Panicked"
  proof (cases "containsFinalizer (meta L) nats")
    case True
    then show ?thesis using run by (rule deletion_run) simp
  next
    case False
    with run no_finalizer_run(1) [OF False, of s] show ?thesis by simp
  qed
qed

lemma Reconcile_returns:
  assumes rep: "replicas_set L" and s: "set_up s"
  shows "wp (Reconcile L C name ns) returned s"
proof -
  have read: "state_io_rel process_grows (clientGetNATS L name ns :: ('a, 'b, _) rec_m)"
    unfolding clientGetNATS_def by (rule process_rec.call) simp
  have check: "state_io_rel process_grows (handleNATSCRAllowedCheck L a n :: ('a, 'b, _) rec_m)" for a n
    unfolding handleNATSCRAllowedCheck_def bind_left_identity
    by (intro process_rec.fr process_rec.status_ops process_rec.event_ops process_rec.sync_status; simp)
  have allowed: "wp (case allowedNATSCR C of None \<Rightarrow> handleNATSReconcile L C n
      | Some a \<Rightarrow> handleNATSCRAllowedCheck L a n \<bind> (\<lambda>(result, err).
          if \<not> result \<or> err \<noteq> None then ret (Returned (emptyResult, err)) else handleNATSReconcile L C n))
      returned t" if "set_up t" for n and t :: "('a, 'b) reconciler_scheme"
    using that by (auto simp: wp_ret handleNATSReconcile_returns [OF rep]
        intro!: wp_set_up [OF check] split: option.splits)
  show ?thesis
    unfolding Reconcile_def
    by (rule wp_set_up [OF read s])
      (auto simp: wp_ret handleNATSDeletion_returns allowed split: sum.splits)
qed

section \<open>The process\<close>

text \<open>
  C12. From a successful start-up on, whatever happens in the cluster and whichever requests were served
  before, every reconciliation returns instead of panicking, provided the API server fills in the
  replicas of a StatefulSet.
\<close>

theorem process_never_panics:
  assumes "wrap_law (helm L)" "replicas_set L" and boot: "main_setup L B w = Inr (C, s0)"
    and run: "steps L C s0 s"
  shows "\<exists>result err s'. run_state (Reconcile L C name ns) s = (Returned (result, err), s')"
proof -
  have "controller_set s0 \<and> ctrlManager_set s0" using main_setup_ready [OF assms(1) boot] by auto
  then have "set_up s" using process_steps [OF run] by (simp add: process_grows_def set_up_def)
  obtain r s' where r: "run_state (Reconcile L C name ns) s = (r, s')" by force
  with Reconcile_returns [OF assms(2) \<open>set_up s\<close>, of C name ns] have "r \<noteq> Panicked" by (simp add: wp_def)
  with r show ?thesis by (cases r) auto
qed

text \<open>
  C18. In a process the watch on destination rules is started at most once, and exactly when the flag says
  so, however many reconciliations there were and however many attempts failed.
\<close>

theorem watch_started_once:
  assumes "wrap_law (helm L)" and boot: "main_setup L B w = Inr (C, s0)" and run: "steps L C s0 s"
  shows "length (filter started_watch (trace s)) = (if destinationRuleWatchStarted s then 1 else 0)"
proof -
  have "watch_inv s0" using main_setup_ready [OF assms(1) boot] by (auto simp: watch_inv_def)
  moreover have "preserves watch_inv s0 s"
    by (rule steps_frame [OF preserves_frame _ watch_reconcile run]) (simp add: preserves_def watch_inv_def)
  ultimately show ?thesis by (simp add: preserves_def watch_inv_def)
qed

text \<open>
  C19. In a process the client kept for a resource is always one for the URL of that resource's server:
  no deletion ever looks at the streams of another resource.
\<close>

theorem clients_match_servers:
  assumes "wrap_law (helm L)" and boot: "main_setup L B w = Inr (C, s0)" and run: "steps L C s0 s"
    and names: "CHR ''/'' \<notin> set (nName nats)" "CHR ''/'' \<notin> set (nNamespace nats)"
    and c: "client_of s nats = Some c"
  shows "ncConfig c = \<lparr>ccURL = Format (nName nats) (nNamespace nats), ccTimeout = 0\<rparr>"
proof -
  have "clients_inv s0" using main_setup_ready [OF assms(1) boot] by (auto simp: clients_inv_def)
  moreover have "preserves clients_inv s0 s"
    by (rule steps_frame [OF preserves_frame _ clients_rec.reconcile run])
      (simp_all add: preserves_def clients_inv_def)
  ultimately have inv: "clients_inv s" by (simp add: preserves_def)
  have "natsClients s (crKey nats) = Some (Some c)" using c by (auto simp: client_of_def split: option.splits)
  with inv obtain n where "crKey nats = crKey n"
    "ncConfig c = \<lparr>ccURL = Format (nName n) (nNamespace n), ccTimeout = 0\<rparr>" unfolding clients_inv_def by blast
  then show ?thesis using crKey_inj [OF _ names, of n] by simp
qed

text \<open>
  The zone of a node that is in the cache, and the cloud provider once resolved, are the same in every
  later state of the process: neither is ever read again or forgotten.
\<close>

lemma caches_never_expire:
  assumes "steps L C s t"
  shows "(\<forall>n z. known_zone s n = Some z \<longrightarrow> known_zone t n = Some z \<and>
      run_state (GetNodeZone L n) t = (Inr z, t)) \<and>
    (\<forall>p. cloudProvider s = Some p \<longrightarrow> cloudProvider t = Some p \<and> run_state (syncCloudProvider L) t = ((), t))"
  using process_steps [OF assms] by (auto simp: process_grows_def GetNodeZone_hit syncCloudProvider_def)


section \<open>Which resource is provisioned\<close>

lemma Reconcile_run:
  assumes run: "run_state (Reconcile L C name ns) s = (out, s')"
  obtains (absent) err where "new_actions (Reconcile L C name ns) s = [AGetNATS name ns (Inl err)]"
      "out = Returned (emptyResult, ignore_not_found (meta L) err)" "fst (api_get_nats (kapi L) name ns (world s)) = Inl err"
    | (found) nats w s1 where "api_get_nats (kapi L) name ns (world s) = (Inr nats, w)"
      "s1 = s\<lparr>world := w, trace := trace s @ [AGetNATS name ns (Inr nats)]\<rparr>"
      "(if IsInDeletion (meta L) nats then run_state (handleNATSDeletion L nats) s1 = (out, s')
        else if \<exists>a. allowedNATSCR C = Some a \<and> (nName nats \<noteq> nName a \<or> nNamespace nats \<noteq> nNamespace a)
        then emits status_action s1 s' \<and> (\<exists>a x. run_state (handleNATSCRAllowedCheck L a nats) s1 = (x, s'))
        else run_state (handleNATSReconcile L C nats) s1 = (out, s'))"
proof -
  obtain r w where get: "api_get_nats (kapi L) name ns (world s) = (r, w)" by force
  let ?s1 = "s\<lparr>world := w, trace := trace s @ [AGetNATS name ns r]\<rparr>"
  show thesis
  proof (cases r)
    case (Inl err)
    then show thesis
      using run get by (intro absent [of err]) (auto simp: Reconcile_def clientGetNATS_def new_actions_def)
  next
    case (Inr nats)
    have check: "state_io_rel (emits status_action) (handleNATSCRAllowedCheck L a nats :: ('a, 'b, _) rec_m)" for a
      unfolding handleNATSCRAllowedCheck_def bind_left_identity
      by (intro emit_rec.fr emit_rec.status_ops emit_rec.event_ops emit_rec.sync_status; simp)
    have other: "emits status_action ?s1 s' \<and> (\<exists>a x. run_state (handleNATSCRAllowedCheck L a nats) ?s1 = (x, s'))" if "\<not> IsInDeletion (meta L) nats" "allowedNATSCR C = Some a"
      "nName nats \<noteq> nName a \<or> nNamespace nats \<noteq> nNamespace a" for a
    proof -
      obtain x t where c: "run_state (handleNATSCRAllowedCheck L a nats) ?s1 = (x, t)" by (metis surj_pair)
      have "fst x = False" using c that(3)
        by (auto simp: handleNATSCRAllowedCheck_def split: prod.splits)
      then have "s' = t" using run get Inr that c by (cases x) (simp add: Reconcile_def clientGetNATS_def)
      with state_io_relD [OF check c] c show ?thesis by blast
    qed
    have same: "run_state (handleNATSReconcile L C nats) ?s1 = (out, s')"
      if "\<not> IsInDeletion (meta L) nats"
        "\<not> (\<exists>a. allowedNATSCR C = Some a \<and> (nName nats \<noteq> nName a \<or> nNamespace nats \<noteq> nNamespace a))"
      using run get Inr that
      by (cases "allowedNATSCR C") (auto simp: Reconcile_def clientGetNATS_def handleNATSCRAllowedCheck_def)
    show thesis
      by (rule found [of nats w ?s1])
        (use run get Inr other same in \<open>auto simp: Reconcile_def clientGetNATS_def\<close>)
  qed
qed

lemma new_after:
  assumes "run_state m s = (r, s')" "trace t = trace s @ [a]" "emits P t s'"
  obtains as where "new_actions m s = a # as" "list_all P as" "trace s' = trace t @ as"
proof -
  obtain as where "trace s' = trace t @ as" "list_all P as" using assms(3) by (auto simp: emits_def)
  moreover have "new_actions m s = a # as"
    by (rule new_actions_eq [OF assms(1)]) (simp add: assms(2) calculation)
  ultimately show thesis using that by blast
qed

lemma provision_no_apply:
  assumes "\<not> containsFinalizer (meta L) nats"
  shows "APatchApply object force fm e \<notin> set (new_actions (handleNATSReconcile L C nats) s)"
  using no_finalizer_provision [OF assms, of C s] by (fastforce simp: list_all_iff)

text \<open>
  C20. An object is applied only in the reconciliation of the allowed resource, read in that reconciliation
  as its first call, alive and with the finalizer; and it is applied with force under the manager's name.
\<close>

theorem only_allowed_provisioned:
  fixes s :: "('w, 'z) reconciler_scheme"
  assumes allowed: "allowedNATSCR C = Some a"
    and mem: "APatchApply object force fm e \<in> set (new_actions (Reconcile L C name ns) s)"
  shows "\<exists>nats as. new_actions (Reconcile L C name ns) s = AGetNATS name ns (Inr nats) # as \<and>
    nName nats = nName a \<and> nNamespace nats = nNamespace a \<and> \<not> IsInDeletion (meta L) nats \<and>
    containsFinalizer (meta L) nats \<and> force \<and> fm = fieldManager C"
proof -
  obtain out s' where run: "run_state (Reconcile L C name ns) s = (out, s')" by force
  then show ?thesis
  proof (cases rule: Reconcile_run)
    case (absent err)
    with mem show ?thesis by simp
  next
    case (found nats w s1)
    have t1: "trace s1 = trace s @ [AGetNATS name ns (Inr nats)]" using found(2) by simp
    consider (del) "IsInDeletion (meta L) nats" "run_state (handleNATSDeletion L nats) s1 = (out, s')"
      | (other) "emits status_action s1 s'"
      | (same) "\<not> IsInDeletion (meta L) nats" "nName nats = nName a" "nNamespace nats = nNamespace a"
        "run_state (handleNATSReconcile L C nats) s1 = (out, s')"
      using found(3) allowed by (auto split: if_splits)
    then show ?thesis
    proof cases
      case del
      have "emits (deprovision_action L nats) s1 s'"
        by (rule state_io_relD [OF emit_rec.handle_deletion del(2)]) (simp_all add: deprovision_action_def)
      from run t1 this obtain as where "new_actions (Reconcile L C name ns) s = AGetNATS name ns (Inr nats) # as"
        "list_all (deprovision_action L nats) as" by (rule new_after)
      with mem show ?thesis by (auto simp: list_all_iff deprovision_action_def remove_action_def)
    next
      case other
      from run t1 this obtain as where "new_actions (Reconcile L C name ns) s = AGetNATS name ns (Inr nats) # as"
        "list_all status_action as" by (rule new_after)
      with mem show ?thesis by (auto simp: list_all_iff)
    next
      case same
      have "emits (provision_action L (fieldManager C) nats) s1 s'"
        by (rule state_io_relD [OF emit_rec.handle_reconcile same(4)])
          (simp_all add: provision_action_def destination_rule_watch_def)
      from run t1 this obtain as where new: "new_actions (Reconcile L C name ns) s = AGetNATS name ns (Inr nats) # as"
        and as: "list_all (provision_action L (fieldManager C) nats) as" "trace s' = trace s1 @ as" by (rule new_after)
      have m: "APatchApply object force fm e \<in> set as" using mem new by simp
      have "new_actions (handleNATSReconcile L C nats) s1 = as" by (rule new_actions_eq [OF same(4) as(2)])
      then have "containsFinalizer (meta L) nats" using provision_no_apply m by metis
      moreover have "force \<and> fm = fieldManager C"
        using as(1) m by (auto simp: list_all_iff provision_action_def destination_rule_watch_def)
      ultimately show ?thesis using new same by blast
    qed
  qed
qed


section \<open>Examples\<close>

text \<open>The example cluster with an API server that always fills in the replicas.\<close>

definition demo_full :: "demo_world libs" where
  "demo_full = (demo_libs [demo_sts_doc])\<lparr>kapi := demo_api\<lparr>api_get_sts := (\<lambda>n ns w. (Inr
     \<lparr>stsReplicas = Some 3, stsCurrentReplicas = 3, stsUpdatedReplicas = 3, stsReadyReplicas = 3\<rparr>, w))\<rparr>\<rparr>"

definition demo_process :: "reconciler_config \<times> demo_world reconciler" where
  "demo_process = (case main_setup demo_full demo_boot demo_start of Inr x \<Rightarrow> x
     | Inl e \<Rightarrow> (demo_config None, demo_rec))"

lemma demo_starts: "main_setup demo_full demo_boot demo_start = Inr (fst demo_process, snd demo_process)"
proof -
  have "(case main_setup demo_full demo_boot demo_start of Inr x \<Rightarrow> True | Inl e \<Rightarrow> False)" by code_simp
  then show ?thesis by (auto simp: demo_process_def split: sum.splits)
qed

lemma demo_full_law: "wrap_law (helm demo_full)"
  using demo_wrap_law by (simp add: demo_full_def)

lemma demo_full_replicas: "replicas_set demo_full"
  by (auto simp: replicas_set_def demo_full_def)

lemma after_reconcile: "steps L C s (snd (run_state (Reconcile L C name ns) s))"
  by (rule steps_step [OF steps_refl], rule reconciled) (rule prod.collapse [symmetric])

text \<open>The state after one reconciliation of the example's resource.\<close>

definition demo_later :: "demo_world reconciler" where
  "demo_later = snd (run_state (Reconcile demo_full (fst demo_process) ''eventing-nats'' ''kyma-system'') (snd demo_process))"

lemma demo_later_steps: "steps demo_full (fst demo_process) (snd demo_process) demo_later"
  unfolding demo_later_def by (rule after_reconcile)

theorem process_never_panics_witness:
  "\<exists>result err s'. run_state (Reconcile demo_full (fst demo_process) ''eventing-nats'' ''kyma-system'') demo_later =
     (Returned (result, err), s')"
  by (rule process_never_panics [OF demo_full_law demo_full_replicas demo_starts demo_later_steps])

theorem watch_started_once_witness:
  "length (filter started_watch (trace demo_later)) = (if destinationRuleWatchStarted demo_later then 1 else 0)"
  by (rule watch_started_once [OF demo_full_law demo_starts demo_later_steps])

text \<open>The example's resource is being deleted: the client is created, used, and kept or closed.\<close>

definition demo_deleting_world :: "demo_world reconciler" where
  "demo_deleting_world = (snd demo_process)\<lparr>world := demo_start\<lparr>dNATS := Some demo_deleted, dStreams := [''orders'']\<rparr>\<rparr>"

definition demo_blocked :: "demo_world reconciler" where
  "demo_blocked = snd (run_state (Reconcile demo_full (fst demo_process) ''eventing-nats'' ''kyma-system'') demo_deleting_world)"

lemma demo_blocked_steps: "steps demo_full (fst demo_process) (snd demo_process) demo_blocked"
  unfolding demo_blocked_def demo_deleting_world_def
  by (rule steps_step [OF steps_step [OF steps_refl environment]], rule reconciled) (rule prod.collapse [symmetric])

theorem clients_match_servers_witness:
  "map_option (\<lambda>c. ccURL (ncConfig c)) (client_of demo_blocked demo_nats) = Some (Format ''eventing-nats'' ''kyma-system'')"
proof -
  have "client_of demo_blocked demo_nats \<noteq> None" by code_simp
  then obtain c where c: "client_of demo_blocked demo_nats = Some c" by auto
  have "CHR ''/'' \<notin> set (nName demo_nats)" "CHR ''/'' \<notin> set (nNamespace demo_nats)"
    by (simp_all add: demo_nats_def)
  from clients_match_servers [OF demo_full_law demo_starts demo_blocked_steps this c] show ?thesis
    unfolding c by (simp add: demo_nats_def)
qed

text \<open>The steps of a provisioning run before the resources are rendered.\<close>

definition provision_head :: "'w libs \<Rightarrow> NATS \<Rightarrow> ('w, 'z, NATSStatus) rec_m" where
  "provision_head L nats = do {
     RecordClusterSizeMetric L (clusterSize (spCluster (nSpec nats)));
     syncCloudProvider L;
     st \<leftarrow> Initialize L (nStatus nats);
     eventNormal L ConditionReasonProcessing ''Initializing NATS resource.'' [];
     ret st
   }"

lemma later_trace:
  assumes "state_io_rel (emits (\<lambda>_. True)) m" "a \<in> set (trace s)"
  shows "a \<in> set (trace (snd (run_state m s)))"
  using state_io_relD [OF assms(1) prod.collapse [symmetric], of s] assms(2) by (auto simp: emits_def)

lemma reconcile_split:
  assumes "containsFinalizer (meta L) nats"
  shows "(handleNATSReconcile L C nats :: ('w, 'z, _) rec_m) = provision_head L nats \<bind> (\<lambda>st.
      initNATSInstance L C (nats\<lparr>nStatus := st\<rparr>) \<bind> (\<lambda>r. case r of
        Inl err \<Rightarrow> fail_provisioning L (nats\<lparr>nStatus := st\<rparr>) ''Error while NATS resources were being initialized: %s'' err
      | Inr i \<Rightarrow> DeployInstance L (fieldManager C) i \<bind> (\<lambda>err. case err of
          Some err \<Rightarrow> fail_provisioning L (nats\<lparr>nStatus := st\<rparr>) ''Error while NATS resources were deployed: %s'' err
        | None \<Rightarrow> startDestinationRuleWatch L i \<bind> (\<lambda>w. case w of Panicked \<Rightarrow> ret Panicked
            | Returned (Some err) \<Rightarrow> fail_provisioning L (nats\<lparr>nStatus := st\<rparr>) ''Error while NATS resources were watched: %s'' err
            | Returned None \<Rightarrow> handleNATSState L (nats\<lparr>nStatus := st\<rparr>) i))))"
  using assms by (simp add: handleNATSReconcile_def provision_head_def containsFinalizer_def)

lemma provision_applies:
  fixes s :: "('w, 'z) reconciler_scheme"
  assumes fin: "containsFinalizer (meta L) nats" and head: "run_state (provision_head L nats) s = (st, t)"
    and init: "run_state (initNATSInstance L C (nats\<lparr>nStatus := st\<rparr>)) t = (Inr i, u)"
    and items: "mrItems (riRenderedManifests i) = ob # obs"
  shows "\<exists>e. APatchApply ob True (fieldManager C) e \<in> set (trace (snd (run_state (handleNATSReconcile L C nats) s)))"
proof -
  let ?n = "nats\<lparr>nStatus := st\<rparr>"
  let ?rest = "\<lambda>err. case err of
      Some err \<Rightarrow> fail_provisioning L ?n ''Error while NATS resources were deployed: %s'' err
    | None \<Rightarrow> startDestinationRuleWatch L i \<bind> (\<lambda>w. case w of Panicked \<Rightarrow> ret Panicked
        | Returned (Some err) \<Rightarrow> fail_provisioning L ?n ''Error while NATS resources were watched: %s'' err
        | Returned None \<Rightarrow> handleNATSState L ?n i)"
  obtain d v where dep: "run_state (DeployInstance L (fieldManager C) i) u = (d, v)" by force
  have "run_state (handleNATSReconcile L C nats) s = run_state (?rest d) v"
    unfolding reconcile_split [OF fin]
    by (simp only: run_bind [OF head] run_bind [OF init] sum.case run_bind [OF dep])
  moreover have "\<exists>e. APatchApply ob True (fieldManager C) e \<in> set (trace v)"
  proof -
    obtain e w where e: "api_patch_apply (kapi L) ob True (fieldManager C) (world u) = (e, w)" by force
    let ?u1 = "u\<lparr>world := w, trace := trace u @ [APatchApply ob True (fieldManager C) e]\<rparr>"
    have "run_state (case e of None \<Rightarrow> for_each_err (PatchApply L (fieldManager C)) obs | Some err \<Rightarrow> ret (Some err)) ?u1 = (d, v)"
    proof (cases e)
      case None
      then show ?thesis using dep e items by (simp add: DeployInstance_def PatchApply_def [abs_def] clientPatchApply_def)
    next
      case (Some x)
      then show ?thesis using dep e items by (auto simp add: DeployInstance_def PatchApply_def [abs_def] clientPatchApply_def)
    qed
    moreover have "state_io_rel (emits (\<lambda>_. True)) ((case e of None \<Rightarrow> for_each_err (PatchApply L (fieldManager C)) obs
        | Some err \<Rightarrow> ret (Some err)) :: ('w, 'z, _) rec_m)"
      unfolding PatchApply_def clientPatchApply_def by (intro emit_frame.f_rules emits_call; simp)
    ultimately show ?thesis using later_trace [of _ "APatchApply ob True (fieldManager C) e" ?u1] by fastforce
  qed
  moreover have "state_io_rel (emits (\<lambda>_. True)) (?rest d :: ('w, 'z, _) rec_m)"
    by (intro emit_rec.fr emit_rec.start_watch emit_rec.fail_provisioning emit_rec.handle_state; simp)
  ultimately show ?thesis using later_trace by metis
qed

text \<open>
  A cluster in which every call of a provisioning run has one answer, and the manifest one object. The
  resource holds the status of its deployed cluster already, whose three pods run in three zones.
\<close>

definition demo_condition :: "string \<Rightarrow> string \<Rightarrow> string \<Rightarrow> string \<Rightarrow> Condition" where
  "demo_condition ty st rn msg = \<lparr>cType = ty, cStatus = st, cObservedGeneration = 0, cLastTransitionTime = 7,
     cReason = rn, cMessage = msg\<rparr>"

definition demo_settled :: NATSStatus where
  "demo_settled = \<lparr>stState = StateReady, stURL = Format ''eventing-nats'' ''kyma-system'', stAvailabilityZonesUsed = 3,
     stConditions = [
       demo_condition ConditionStatefulSet ConditionTrue ConditionReasonStatefulSetAvailable ''StatefulSet is ready'',
       demo_condition ConditionAvailable ConditionTrue ConditionReasonDeployed ''NATS is deployed'',
       demo_condition ConditionAvailabilityZones ConditionTrue ConditionReasonDeployed
         ''NATS is deployed in different availability zones.'']\<rparr>"

definition demo_finalized :: NATS where
  "demo_finalized = demo_nats\<lparr>nFinalizers := [NATSFinalizerName], nStatus := demo_settled,
     nSpec := demo_spec\<lparr>spJetStream := \<lparr>jsMemStorage = \<lparr>memEnabled = False, memSize = QuantityZero\<rparr>,
       jsFileStorage = \<lparr>fsStorageClassName = [], fsSize = QuantityZero\<rparr>\<rparr>\<rparr>\<rparr>"

definition demo_pods :: "Pod list" where
  "demo_pods = [\<lparr>podName = ''p1'', podNodeName = ''n1''\<rparr>, \<lparr>podName = ''p2'', podNodeName = ''n2''\<rparr>,
     \<lparr>podName = ''p3'', podNodeName = ''n3''\<rparr>]"

definition demo_lit :: "NATS \<Rightarrow> demo_world libs" where
  "demo_lit res = (demo_libs [])\<lparr>kapi := demo_api\<lparr>api_get_crd := (\<lambda>n w. (Inl not_found, w)),
       api_get_nats := (\<lambda>n ns w. (Inr res, w)), api_list_pods := (\<lambda>ns sel w. (Inr demo_pods, w)),
       api_get_secret := (\<lambda>n ns w. (Inl not_found, w)),
       api_get_sts := (\<lambda>n ns w. (Inr \<lparr>stsReplicas = Some 3, stsCurrentReplicas = 3, stsUpdatedReplicas = 3,
         stsReadyReplicas = 3\<rparr>, w))\<rparr>,
     helm := (demo_helm [])\<lparr>hl_run := (\<lambda>ia v c w. (((None, Some ''m''), v), w)), hl_merge := (\<lambda>d s. (None, [])),
       hl_yaml_docs := (\<lambda>m. ([''d''], Sentinel io_EOF)),
       hl_yaml_unmarshal := (\<lambda>d. (None, demo_sts_doc))\<rparr>\<rparr>"

abbreviation demo_light :: "demo_world libs" where
  "demo_light \<equiv> demo_lit demo_finalized"

lemma light_config: "GetConfiguration (helm (demo_lit res)) r = Inr []"
proof -
  have "config_loop (helm (demo_lit res)) [] cfg = Inr []" for cfg
    by (induction cfg) (auto simp: demo_lit_def convertToNestedMap_nest)
  then show ?thesis by (simp add: GetConfiguration_def)
qed

lemma light_overrides: "\<exists>ov. GenerateOverrides (meta (demo_lit res)) im (nSpec demo_finalized) istio rp cp = Inr ov"
  by (simp add: GenerateOverrides_def resolveFileStorageSize_def Let_def demo_lit_def demo_libs_def
      ref_meta_def demo_finalized_def)

lemma light_manifest: "ParseManifestStringToObjects (helm (demo_lit res)) m =
    Inr \<lparr>mrItems = [demo_sts_doc], mrBlobs = []\<rparr>"
proof -
  have "TrimSpace ''d'' = ''d''" by code_simp
  then show ?thesis
    by (simp add: ParseManifestStringToObjects_def demo_lit_def emptyManifests_def Let_def demo_sts_doc_def)
qed

lemma light_calls [simp]:
  "api_get_crd (kapi (demo_lit res)) n w = (Inl not_found, w)"
  "api_get_secret (kapi (demo_lit res)) n ns w = (Inl not_found, w)"
  "is_not_found (meta (demo_lit res)) not_found" "ignore_not_found (meta (demo_lit res)) not_found = None"
  "hl_init (helm (demo_lit res)) ns w = (None, w)" "hl_run (helm (demo_lit res)) ia v c w = (((None, Some ''m''), v), w)"
  "hl_merge (helm (demo_lit res)) d x = (None, [])" "api_patch_apply (kapi (demo_lit res)) ob force fm w = (None, w)"
  "api_get_sts (kapi (demo_lit res)) n ns w = (Inr \<lparr>stsReplicas = Some 3, stsCurrentReplicas = 3,
     stsUpdatedReplicas = 3, stsReadyReplicas = 3\<rparr>, w)"
  by (simp_all add: demo_lit_def demo_libs_def demo_helm_def ref_meta_def not_found_def demo_api_def)

lemma light_kind: "obj_kind (meta (demo_lit res)) = ref_obj_kind"
  by (simp add: demo_lit_def demo_libs_def ref_meta_def)

lemma light_init:
  assumes "\<And>im istio rp cp. \<exists>ov. GenerateOverrides (meta (demo_lit res)) im (nSpec nats) istio rp cp = Inr ov"
  shows "\<exists>i u ob. run_state (initNATSInstance (demo_lit res) C (nats\<lparr>nStatus := st\<rparr>)) t = (Inr i, u) \<and>
     mrItems (riRenderedManifests i) = [ob] \<and> obj_kind (meta (demo_lit res)) ob = ''StatefulSet'' \<and> \<not> riIstioEnabled i"
proof -
  obtain ov where ov: "GenerateOverrides (meta (demo_lit res)) (images C) (nSpec nats) False True
      (case cloudProvider t of None \<Rightarrow> [] | Some p \<Rightarrow> p) = Inr ov" using assms by blast
  show ?thesis
    by (auto simp: initNATSInstance_def DestinationRuleCRDExists_def GetCRD_def clientsetGetCRD_def GetSecret_def
        clientGetSecret_def Let_def ov generateNatsResources_def GenerateNATSResources_def
        RenderManifestAsUnstructured_def RenderManifest_def overrideChartConfiguration_def getChartConfiguration_def
        light_config newTemplatingAction_def newActionConfig_def helmRun_def light_manifest
        WithOwnerReference_def WithLabel_def with_key_def SetRenderedManifests_def NewReleaseInstance_def
        demo_sts_doc_def light_kind ref_obj_kind_def)
qed

text \<open>A controller that has looked the three nodes up before.\<close>

definition demo_zones :: "string \<rightharpoonup> string" where
  "demo_zones = [''n1'' \<mapsto> ''z1'', ''n2'' \<mapsto> ''z2'', ''n3'' \<mapsto> ''z3'']"

definition demo_read :: "demo_world reconciler" where
  "demo_read = demo_rec\<lparr>world := demo_start\<lparr>dNATS := Some demo_finalized\<rparr>, nodesZoneCache := demo_zones\<rparr>"

lemma lit_zones:
  assumes "process_grows s t" "nodesZoneCache s = demo_zones"
  shows "fst (run_state (GetNumberOfAvailabilityZonesUsedByPods (demo_lit res) ns ls) t) = Inr 3"
proof -
  have "known_zone s ''n1'' = Some ''z1''" "known_zone s ''n2'' = Some ''z2''" "known_zone s ''n3'' = Some ''z3''"
    using assms(2) by (simp_all add: known_zone_def demo_zones_def)
  with assms(1) have k: "known_zone t ''n1'' = Some ''z1''" "known_zone t ''n2'' = Some ''z2''" "known_zone t ''n3'' = Some ''z3''"
    by (simp_all add: process_grows_def)
  have api: "api_list_pods (kapi (demo_lit res)) ns sel w = (Inr demo_pods, w)" for ns sel w
    by (simp add: demo_lit_def)
  define t' where "t' = t\<lparr>world := world t, trace := trace t @ [AListPods ns (SetSelector ls) (Inr demo_pods)]\<rparr>"
  have "known_zone t' = known_zone t" unfolding t'_def by (rule known_zone_host)
  then have "run_state (pod_zones (GetNodeZone (demo_lit res)) [] demo_pods) t' =
      (Inr [(''z1'', True), (''z2'', True), (''z3'', True)], t')"
    by (simp add: demo_pods_def GetNodeZone_hit k)
  moreover have "run_state (GetPodsByLabels (demo_lit res) ns ls) t = (Inr demo_pods, t')"
    by (simp add: GetPodsByLabels_def clientListPods_def api t'_def)
  ultimately show ?thesis by (simp add: GetNumberOfAvailabilityZonesUsedByPods_def)
qed

lemma lit_counted:
  fixes s t :: "demo_world reconciler"
  assumes "process_grows s t" "nodesZoneCache s = demo_zones"
  shows "count_zones (demo_lit res) n t = Inr 3"
proof -
  obtain st t1 where 1: "run_state (SetStateReady (demo_lit res) (ClearURL (nStatus n))) t = (st, t1)" by force
  obtain u t2 where 2: "run_state (eventNormal (demo_lit res) ConditionReasonDeployed
      ''StatefulSet is ready and NATS is deployed.'' []) t1 = (u, t2)" by (rule prod.exhaust)
  have "process_grows t t1" "process_grows t1 t2"
    using state_io_relD [OF process_rec.status_ops(5) 1] state_io_relD [OF process_rec.event_ops(2) 2] by simp_all
  then have "process_grows s t2" using assms(1) process_rec.frame_trans by blast
  then show ?thesis using lit_zones [OF _ assms(2)] by (simp add: count_zones_def 1 2)
qed

lemma light_facts:
  "api_get_nats (kapi demo_light) n ns w = (Inr demo_finalized, w)"
  "\<not> IsInDeletion (meta demo_light) demo_finalized" "containsFinalizer (meta demo_light) demo_finalized"
  "trace demo_read = []" "nName demo_finalized = nName demo_nats" "nNamespace demo_finalized = nNamespace demo_nats"
  by (simp_all add: demo_lit_def demo_libs_def demo_api_def demo_get_nats_def demo_read_def demo_finalized_def
      demo_nats_def IsInDeletion_def ref_meta_def containsFinalizer_def demo_rec_def NewReconciler_def
      demo_rend_def rend.defs)

theorem only_allowed_provisioned_witness:
  "\<exists>nats as. new_actions (Reconcile demo_light (demo_config (Some demo_nats)) ''eventing-nats'' ''kyma-system'') demo_read =
     AGetNATS ''eventing-nats'' ''kyma-system'' (Inr nats) # as \<and> containsFinalizer (meta demo_light) nats"
proof -
  let ?C = "demo_config (Some demo_nats)"
  let ?m = "Reconcile demo_light ?C ''eventing-nats'' ''kyma-system'' :: (demo_world, unit, _) rec_m"
  let ?s1 = "demo_read\<lparr>trace := [AGetNATS ''eventing-nats'' ''kyma-system'' (Inr demo_finalized)]\<rparr>"
  obtain st t where head: "run_state (provision_head demo_light demo_finalized) ?s1 = (st, t)" by force
  obtain i u ob where init: "run_state (initNATSInstance demo_light ?C (demo_finalized\<lparr>nStatus := st\<rparr>)) t = (Inr i, u)"
    "mrItems (riRenderedManifests i) = [ob]" using light_init [OF light_overrides] by blast
  obtain e where e: "APatchApply ob True (fieldManager ?C) e \<in>
      set (trace (snd (run_state (handleNATSReconcile demo_light ?C demo_finalized) ?s1)))"
    using provision_applies [OF light_facts(3) head init] by blast
  have "run_state ?m demo_read = run_state (handleNATSReconcile demo_light ?C demo_finalized) ?s1"
    by (simp add: Reconcile_def clientGetNATS_def light_facts handleNATSCRAllowedCheck_def demo_config_def)
  with e have "APatchApply ob True (fieldManager ?C) e \<in> set (new_actions ?m demo_read)"
    by (simp add: new_actions_def light_facts(4))
  moreover have "allowedNATSCR ?C = Some demo_nats" by (simp add: demo_config_def)
  ultimately show ?thesis using only_allowed_provisioned by blast
qed

end
