(* ===== verification/Convergence.thy ===== *)
theory Convergence
  imports Lifecycle
begin

text \<open>
  Where reconciliations lead: a deletion that nothing blocks is completed in one reconciliation, a
  provisioning run whose calls succeed publishes the status of the deployed cluster, and once that
  status is published the next run leaves it alone, so that the controller does not trigger itself.
\<close>

section \<open>A deletion is completed\<close>

text \<open>The volume claims can be listed and deleted, and the resource can be updated.\<close>

definition removal_succeeds :: "'w libs \<Rightarrow> NATS \<Rightarrow> bool" where
  "removal_succeeds L nats \<longleftrightarrow> labels_parse (meta L) (pvcSelector nats) = None \<and>
     (\<forall>sel w. \<exists>items w'. api_list_pvcs (kapi L) (nNamespace nats) sel w = (Inr items, w')) \<and>
     (\<forall>pvc w. fst (api_delete_pvc (kapi L) pvc w) = None) \<and>
     (\<forall>n w. fst (api_update_nats (kapi L) n w) = None)"

lemma loop_none:
  assumes "\<And>x s. wp (f x) (\<lambda>r _. r = None) s"
  shows "wp (for_each_err f xs) (\<lambda>r _. r = None) s"
proof (induction xs arbitrary: s)
  case (Cons x xs)
  have "wp (f x) (\<lambda>r t. wp (case r of None \<Rightarrow> for_each_err f xs | Some e \<Rightarrow> ret (Some e)) (\<lambda>r _. r = None) t) s"
    by (rule wp_mono [OF assms]) (simp add: Cons.IH)
  then show ?case by (simp add: wp_bind)
qed (simp add: wp_ret)

lemma claims_deleted:
  assumes "removal_succeeds L nats"
  shows "wp (DeletePVCsWithLabel L (pvcSelector nats) pf (nNamespace nats)) (\<lambda>r _. r = None) s"
proof -
  obtain items w where list: "api_list_pvcs (kapi L) (nNamespace nats) (ParsedSelector (pvcSelector nats)) (world s) = (Inr items, w)"
    using assms unfolding removal_succeeds_def by blast
  have "wp (clientDeletePVC L pvc) (\<lambda>r _. r = None) t" for pvc and t :: "('a, 'b) host_scheme"
    using assms unfolding removal_succeeds_def clientDeletePVC_def
    by (auto simp: wp_ext_call split: prod.splits) (metis fst_conv option.distinct(1))
  then have "wp (for_each_err (\<lambda>pvc. if has_prefix (pvcName pvc) pf then clientDeletePVC L pvc else ret None) items)
      (\<lambda>r _. r = None) t" for t :: "('a, 'b) host_scheme"
    by (intro loop_none) (simp add: wp_ret)
  then show ?thesis
    using assms list by (simp add: DeletePVCsWithLabel_def clientListPVCs_def removal_succeeds_def wp_simps)
qed

lemma removal_run:
  fixes s :: "('w, 'z) reconciler_scheme"
  assumes ok: "removal_succeeds L nats" and run: "run_state (deletePVCsAndRemoveFinalizer L nats) s = (x, s')"
  shows "x = (emptyResult, None) \<and> client_of s' nats = None"
proof -
  obtain s1 where del: "run_state (DeletePVCsWithLabel L (pvcSelector nats) (nName nats) (nNamespace nats)) s = (None, s1)"
    using claims_deleted [OF ok, of "nName nats" s] by (force simp: wp_def)
  obtain s2 where close: "run_state (closeNatsClient L nats) s1 = ((), s2)" by (metis old.unit.exhaust surj_pair)
  have gone: "client_of s2 nats = None"
    using close by (auto simp: closeNatsClient_def getNatsClient_def setNatsClient_def client_of_def
        split: option.splits prod.splits)
  obtain w where upd: "api_update_nats (kapi L) (unfinalized L nats) (world s2) = (None, w)"
    using ok unfolding removal_succeeds_def by (metis prod.collapse)
  have "run_state (removeFinalizer L nats) s2 = (x, s')"
    using run del close by (simp add: deletePVCsAndRemoveFinalizer_def)
  then show ?thesis
    using gone upd by (auto simp: removeFinalizer_def clientUpdateNATS_def unfinalized_def client_of_def)
qed

lemma removal_succeeds_deleting [simp]: "removal_succeeds L (deleting nats) = removal_succeeds L nats"
  by (simp add: removal_succeeds_def)

text \<open>
  C13. A deletion that the NATS server gives no reason to block is completed by one reconciliation, provided
  the API server answers its calls: the claims are deleted, the connection is closed and forgotten, the
  finalizer is removed by the last call, and the request is not repeated.
\<close>

theorem deletion_completes:
  fixes s :: "('w, 'z) reconciler_scheme"
  assumes fin: "containsFinalizer (meta L) nats" and ok: "removal_succeeds L nats"
    and safe: "map_option fst (inquiry (client_for s nats) (probes (new_actions (handleNATSDeletion L nats) s))) \<notin>
      {Some CustomerStreamFound, Some SapConsumerFound}"
    and run: "run_state (handleNATSDeletion L nats) s = (out, s')"
  shows "out = Returned (emptyResult, None) \<and> client_of s' nats = None \<and>
    (\<exists>pre items held. new_actions (handleNATSDeletion L nats) s =
      pre @ AListPVCs (nNamespace nats) (ParsedSelector (pvcSelector nats)) (Inr items) #
      map (\<lambda>p. ADeletePVC p None) (own_claims nats items) @
      (case held of None \<Rightarrow> [] | Some c \<Rightarrow> [AConnClose c]) @ [AUpdateNATS (unfinalized L (deleting nats)) None] \<and>
      map_option snd (inquiry (client_for s nats) (probes pre)) = Some held)"
  using fin run
proof (rule deletion_run)
  fix reads v held k t x as
  assume r: "list_all probe_action reads" and act: "run_state (carry_out L (deleting nats) v) t = (x, s')"
    and i: "inquiry (client_for s nats) reads = Some (v, held)" and k: "client_of t nats = Some k" "ncConn k = held"
    and out: "out = Returned x" and as: "trace s' = trace t @ as"
    and pr: "probes (new_actions (handleNATSDeletion L nats) s) = reads"
    and new: "new_actions (handleNATSDeletion L nats) s = deletion_prelude @ reads @ as"
  have act: "run_state (deletePVCsAndRemoveFinalizer L (deleting nats)) t = (x, s')"
    using act safe i unfolding pr by (cases v) (simp_all add: carry_out_def)
  have x: "x = (emptyResult, None)" "client_of s' nats = None"
    using removal_run [OF _ act] ok by simp_all
  have "run_state (DeletePVCsWithLabel L l (nName nats) (nNamespace nats)) t \<noteq> (Some err, s')" if "l = pvcSelector nats" for l err
    using wpD [OF claims_deleted [OF ok, of "nName nats" t]] that by blast
  with remove_run [OF act] obtain items where eq: "as = AListPVCs (nNamespace nats) (ParsedSelector (pvcSelector nats)) (Inr items) #
      map (\<lambda>p. ADeletePVC p None) (own_claims nats items) @
      (case held of None \<Rightarrow> [] | Some c \<Rightarrow> [AConnClose c]) @ [AUpdateNATS (unfinalized L (deleting nats)) None]"
    using as x(1) k by auto
  have "probes (deletion_prelude @ reads) = reads" using probes_all [OF r] by (simp add: deletion_prelude_def probes_def)
  with x out new eq i show ?thesis
    by (intro conjI exI [of _ "deletion_prelude @ reads"] exI [of _ items] exI [of _ held]) simp_all
qed

text \<open>The example's cluster with an API server that deletes every claim.\<close>

definition demo_removing :: "demo_world libs" where
  "demo_removing = (demo_libs [])\<lparr>kapi := demo_api\<lparr>api_delete_pvc := (\<lambda>pvc w. (None, w))\<rparr>\<rparr>"

theorem deletion_completes_witness:
  "fst (run_state (handleNATSDeletion demo_removing demo_deleted) demo_rec) = Returned (emptyResult, None)"
proof -
  have v: "map_option fst (inquiry (client_for demo_rec demo_deleted)
      (probes (new_actions (handleNATSDeletion demo_removing demo_deleted) demo_rec))) = Some NothingToLose"
    by code_simp
  have "containsFinalizer (meta demo_removing) demo_deleted"
    using demo_contains [of "[]"] by (simp add: demo_removing_def)
  moreover have "removal_succeeds demo_removing demo_deleted"
    by (simp add: removal_succeeds_def demo_removing_def demo_libs_def ref_meta_def demo_api_def)
  moreover have "map_option fst (inquiry (client_for demo_rec demo_deleted)
      (probes (new_actions (handleNATSDeletion demo_removing demo_deleted) demo_rec))) \<notin>
      {Some CustomerStreamFound, Some SapConsumerFound}"
    unfolding v by simp
  ultimately show ?thesis
    using deletion_completes [OF _ _ _ prod.collapse [symmetric], of demo_removing demo_deleted demo_rec] by blast
qed

section \<open>A deployed cluster is reported\<close>

lemma head_status:
  fixes s :: "('w, 'z) reconciler_scheme"
  assumes "ssc_law (meta L)" "wf_status (nStatus nats)" and run: "run_state (provision_head L nats) s = (st, t)"
  shows "wf_status st \<and> abs_status st = spec_initialize (abs_status (nStatus nats))"
proof -
  obtain u v :: "('w, 'z) reconciler_scheme" where i: "run_state (Initialize L (nStatus nats)) u = (st, v)"
    using run by (auto simp: provision_head_def split: prod.splits)
  have "wp (Initialize L (nStatus nats)) (\<lambda>st _. wf_status st \<and> abs_status st = spec_initialize (abs_status (nStatus nats))) u"
    by (rule initialize.wp_op [OF assms(1,2)]) simp
  then show ?thesis using i by (rule wpD)
qed

text \<open>The calls of a provisioning run up to the check of the StatefulSets succeed.\<close>

definition provisioned ::
  "'w libs \<Rightarrow> reconciler_config \<Rightarrow> NATS \<Rightarrow> ('w, 'z) reconciler_scheme \<Rightarrow>
   NATSStatus \<Rightarrow> ReleaseInstance \<Rightarrow> ('w, 'z) reconciler_scheme \<Rightarrow> bool" where
  "provisioned L C nats s st i x \<longleftrightarrow> (\<exists>t u v.
     run_state (provision_head L nats) s = (st, t) \<and>
     run_state (initNATSInstance L C (nats\<lparr>nStatus := st\<rparr>)) t = (Inr i, u) \<and>
     run_state (DeployInstance L (fieldManager C) i) u = (None, v) \<and>
     run_state (startDestinationRuleWatch L i) v = (Returned None, x))"

lemma provisioned_run:
  assumes "containsFinalizer (meta L) nats" "provisioned L C nats s st i x"
  shows "run_state (handleNATSReconcile L C nats) s = run_state (handleNATSState L (nats\<lparr>nStatus := st\<rparr>) i) x"
  using assms(2) unfolding provisioned_def reconcile_split [OF assms(1)]
  by (elim exE conjE) (simp only: run_bind sum.case option.case outcome.case)

lemma deployed_outcome:
  fixes s :: "('w, 'z) reconciler_scheme"
  assumes law: "ssc_law (meta L)" "wf_status (nStatus nats)" and fin: "containsFinalizer (meta L) nats"
    and prov: "provisioned L C nats s st i x"
    and ready: "run_state (IsNATSStatefulSetReady L i) x = (Returned (Inr True), y)"
  shows "\<exists>err s'. run_state (handleNATSReconcile L C nats) s = (Returned (emptyResult, err), s') \<and>
    (let zones = count_zones L (nats\<lparr>nStatus := st\<rparr>) y;
         a = deployed_spec nats zones ((spec_initialize (abs_status (nStatus nats)))\<lparr>aURL := []\<rparr>);
         size = clusterSize (spCluster (nSpec nats)) in
     (err = None \<longrightarrow> published (nName nats) (nNamespace nats) a (trace s')) \<and>
     (\<forall>n. zones = Inr n \<and> (n = size \<or> size < 3) \<longrightarrow> aState a = StateReady))"
proof -
  let ?n = "nats\<lparr>nStatus := st\<rparr>"
  obtain t where "run_state (provision_head L nats) s = (st, t)" using prov by (auto simp: provisioned_def)
  from head_status [OF law this] have st: "wf_status (nStatus ?n)"
    "abs_status (nStatus ?n) = spec_initialize (abs_status (nStatus nats))" by simp_all
  obtain out s' where run: "run_state (handleNATSState L ?n i) x = (out, s')" by force
  let ?zones = "count_zones L ?n y"
  from state_outcome [OF law(1) st(1) ready run] obtain err where
    "out = Returned (emptyResult, err)"
    "err = None \<longrightarrow> published (nName ?n) (nNamespace ?n) (deployed_spec ?n ?zones ((abs_status (nStatus ?n))\<lparr>aURL := []\<rparr>)) (trace s')"
    by (auto simp: Let_def)
  moreover have "aState (deployed_spec nats (Inr n) b) = StateReady"
    if "n = clusterSize (spCluster (nSpec nats)) \<or> clusterSize (spCluster (nSpec nats)) < 3" for n b
    using that by (auto simp: deployed_spec_def zones_spec_def spec_ready_def)
  ultimately show ?thesis
    using run unfolding provisioned_run [OF fin prov] st(2)
    by (intro exI [of _ err] exI [of _ s']) (auto simp: Let_def)
qed

text \<open>
  C14. When the calls of a provisioning run succeed and the StatefulSets are ready, the run ends without an
  error only with the resource holding the status of a deployed cluster, which follows the zones counted
  in the run; and with as many zones as nodes (or fewer than three nodes) that status is \<^verbatim>\<open>Ready\<close>.
\<close>

theorem deployed_is_published:
  fixes s :: "('w, 'z) reconciler_scheme"
  assumes law: "ssc_law (meta L)" "wf_status (nStatus nats)" and fin: "containsFinalizer (meta L) nats"
    and prov: "provisioned L C nats s st i x"
    and ready: "run_state (IsNATSStatefulSetReady L i) x = (Returned (Inr True), y)"
  shows "\<exists>err s'. run_state (handleNATSReconcile L C nats) s = (Returned (emptyResult, err), s') \<and>
    (let zones = count_zones L (nats\<lparr>nStatus := st\<rparr>) y;
         a = deployed_spec nats zones ((spec_initialize (abs_status (nStatus nats)))\<lparr>aURL := []\<rparr>);
         size = clusterSize (spCluster (nSpec nats)) in
     (err = None \<longrightarrow> published (nName nats) (nNamespace nats) a (trace s')) \<and>
     (\<forall>n. zones = Inr n \<and> (n = size \<or> size < 3) \<longrightarrow> aState a = StateReady))"
  by (rule deployed_outcome [OF assms])

lemma light_instance:
  assumes "mrItems (riRenderedManifests i) = [ob]" "obj_kind (meta (demo_lit res)) ob = ''StatefulSet''"
    and "\<not> riIstioEnabled i"
  shows "fst (run_state (DeployInstance (demo_lit res) fm i) u) = None"
    and "run_state (startDestinationRuleWatch (demo_lit res) i) v = (Returned None, v)"
    and "fst (run_state (IsNATSStatefulSetReady (demo_lit res) i) x) = Returned (Inr True)"
  using assms by (simp_all add: DeployInstance_def PatchApply_def clientPatchApply_def startDestinationRuleWatch_def
      IsNATSStatefulSetReady_def GetStatefulSets_def IsStatefulSetObject_def GetStatefulSet_def clientGetStatefulSet_def)

lemma light_provisioned:
  assumes "\<And>im istio rp cp. \<exists>ov. GenerateOverrides (meta (demo_lit res)) im (nSpec nats) istio rp cp = Inr ov"
  shows "\<exists>st i x y. provisioned (demo_lit res) C nats s st i x \<and>
    run_state (IsNATSStatefulSetReady (demo_lit res) i) x = (Returned (Inr True), y)"
proof -
  obtain st t where head: "run_state (provision_head (demo_lit res) nats) s = (st, t)" by force
  obtain i u ob where init: "run_state (initNATSInstance (demo_lit res) C (nats\<lparr>nStatus := st\<rparr>)) t = (Inr i, u)"
    and i: "mrItems (riRenderedManifests i) = [ob]" "obj_kind (meta (demo_lit res)) ob = ''StatefulSet''" "\<not> riIstioEnabled i"
    using light_init [OF assms] by blast
  note run = light_instance [OF i]
  let ?v = "snd (run_state (DeployInstance (demo_lit res) (fieldManager C) i) u)"
  have "provisioned (demo_lit res) C nats s st i ?v"
    unfolding provisioned_def using head init run(1) [of "fieldManager C" u] run(2)
    by (intro exI [of _ t] exI [of _ u] exI [of _ ?v]) (simp add: prod_eq_iff)
  moreover have "run_state (IsNATSStatefulSetReady (demo_lit res) i) ?v =
      (Returned (Inr True), snd (run_state (IsNATSStatefulSetReady (demo_lit res) i) ?v))"
    using run(3) [of ?v] by (simp add: prod_eq_iff)
  ultimately show ?thesis by blast
qed

lemma light_law: "ssc_law (meta demo_light)" "wf_status (nStatus demo_finalized)"
  using demo_law [of "[]"]
  by (simp_all add: demo_lit_def wf_status_def demo_finalized_def demo_settled_def demo_condition_def)


text \<open>A provisioned run forgets no zone.\<close>

lemma provisioned_grows:
  fixes s :: "('w, 'z) reconciler_scheme"
  assumes "provisioned L C nats s st i x" "run_state (IsNATSStatefulSetReady L i) x = (r, y)"
  shows "process_grows s y"
proof -
  have "state_io_rel process_grows (provision_head L n :: ('w, 'z, _) rec_m)"
    "state_io_rel process_grows (initNATSInstance L C n :: ('w, 'z, _) rec_m)"
    "state_io_rel process_grows (DeployInstance L fm i :: ('w, 'z, _) rec_m)"
    "state_io_rel process_grows (startDestinationRuleWatch L i :: ('w, 'z, _) rec_m)"
    "state_io_rel process_grows (IsNATSStatefulSetReady L i :: ('w, 'z, _) rec_m)" for n fm i
    unfolding provision_head_def
    by (intro process_rec.fr process_rec.metric_ops process_rec.cloud_provider process_rec.status_ops process_rec.event_ops
        process_rec.init_instance process_rec.deploy process_rec.start_watch process_rec.statefulset_ready; simp)+
  note grows = this [THEN state_io_relD]
  show ?thesis
    using assms unfolding provisioned_def by (blast dest: grows intro: process_rec.frame_trans)
qed

theorem deployed_is_published_witness:
  "\<exists>err s'. run_state (handleNATSReconcile demo_light (demo_config (Some demo_nats)) demo_finalized) demo_read =
     (Returned (emptyResult, err), s') \<and>
   (let a = deployed_spec demo_finalized (Inr 3) ((spec_initialize (abs_status (nStatus demo_finalized)))\<lparr>aURL := []\<rparr>) in
     (err = None \<longrightarrow> published (nName demo_finalized) (nNamespace demo_finalized) a (trace s')) \<and> aState a = StateReady)"
proof -
  obtain st i x y where p: "provisioned demo_light (demo_config (Some demo_nats)) demo_finalized demo_read st i x"
    "run_state (IsNATSStatefulSetReady demo_light i) x = (Returned (Inr True), y)"
    using light_provisioned [OF light_overrides] by blast
  have zones: "count_zones demo_light n y = Inr 3" for n
    by (rule lit_counted [OF provisioned_grows [OF p]]) (simp add: demo_read_def)
  from deployed_is_published [OF light_law light_facts(3) p] show ?thesis
    unfolding zones Let_def by (auto simp: demo_finalized_def demo_spec_def demo_nats_def)
qed

section \<open>A settled resource is left alone\<close>

text \<open>The status of a deployed cluster is reached again from itself.\<close>

lemma deployed_idem:
  "deployed_spec nats zones ((spec_initialize (deployed_spec nats zones a))\<lparr>aURL := []\<rparr>) = deployed_spec nats zones a"
  by (auto simp: deployed_spec_def zones_spec_def spec_ready_def spec_initialize_def fun_eq_iff
      split: sum.splits)

lemma abs_IsEqual:
  assumes wf: "wf_status a" "wf_status b" and ab: "abs_status a = abs_status b"
    and ne: "[] \<notin> set (map cType (stConditions a))"
  shows "IsEqual a b"
proof -
  let ?xs = "map cond_core (stConditions a)" and ?ys = "map cond_core (stConditions b)"
  have d: "distinct (map fst ?xs)" "distinct (map fst ?ys)"
    using wf unfolding wf_status_def map_cType_core .
  have m: "map_of ?xs = map_of ?ys" using arg_cong [OF ab, of aConds] by (simp add: abs_status_def)
  have distinct: "distinct ?xs" "distinct ?ys" using d by (metis distinct_map)+
  have "set ?xs = set ?ys" using set_map_of_compr [OF d(1)] set_map_of_compr [OF d(2)] m by simp
  then have mset: "mset ?xs = mset ?ys"
    by (simp only: set_eq_iff_mset_eq_distinct [OF distinct])
  have "set (map cType (stConditions b)) = set (map cType (stConditions a))" using perm_types(2) [OF mset] by simp
  with ne have "[] \<notin> set (map cType (stConditions b))" by simp
  moreover have "stState a = stState b" "stURL a = stURL b" "stAvailabilityZonesUsed a = stAvailabilityZonesUsed b"
    using ab by (simp_all add: abs_status_def)
  ultimately show ?thesis using mset wf by (simp add: IsEqual_iff wf_status_def)
qed

text \<open>Statuses are written only where they differ from the one the API server returns.\<close>

fun changes_status :: "NATS \<Rightarrow> action \<Rightarrow> bool" where
  "changes_status actual (AUpdateStatus m e) = (\<not> IsEqual (nStatus actual) (nStatus m))"
| "changes_status actual _ = True"

definition reads_as :: "'w libs \<Rightarrow> NATS \<Rightarrow> NATS \<Rightarrow> bool" where
  "reads_as L actual n \<longleftrightarrow> (\<forall>w. fst (api_get_nats (kapi L) (nName n) (nNamespace n) w) = Inr actual)"

interpretation change_rec: rec_frame "emits (changes_status actual) :: ('w, 'z) reconciler_scheme \<Rightarrow> _" L
  "changes_status actual" "reads_as L actual" True for L :: "'w libs" and actual
proof
  fix n assume n: "reads_as L actual n"
  show "state_io_rel (emits (changes_status actual)) (syncNATSStatus L n :: ('w, 'z, _) rec_m)"
  proof (rule state_io_relI)
    fix s s' :: "('w, 'z) reconciler_scheme" and r
    assume run: "run_state (syncNATSStatus L n) s = (r, s')"
    obtain w where "api_get_nats (kapi L) (nName n) (nNamespace n) (world s) = (Inr actual, w)"
      using n unfolding reads_as_def by (metis prod.collapse)
    with run show "emits (changes_status actual) s s'"
      by (auto simp: syncNATSStatus_def clientGetNATS_def updateStatus_def clientUpdateStatus_def emits_def
          split: prod.splits if_splits option.splits)
  qed
qed (auto simp: emits_def)

text \<open>Up to the check of the StatefulSets no status is written.\<close>

abbreviation no_update :: "action \<Rightarrow> bool" where
  "no_update a \<equiv> \<forall>m e. a \<noteq> AUpdateStatus m e \<and> a \<noteq> AUpdateNATS m e"

lemma steps_quiet:
  "state_io_rel (emits no_update) (provision_head L nats :: ('w, 'z, _) rec_m)"
  "state_io_rel (emits no_update) (initNATSInstance L C nats :: ('w, 'z, _) rec_m)"
  "state_io_rel (emits no_update) (DeployInstance L fm i :: ('w, 'z, _) rec_m)"
  "state_io_rel (emits no_update) (startDestinationRuleWatch L i :: ('w, 'z, _) rec_m)"
proof -
  show "state_io_rel (emits no_update) (provision_head L nats :: ('w, 'z, _) rec_m)"
    unfolding provision_head_def
    by (intro emit_rec.fr emit_rec.metric_ops emit_rec.cloud_provider emit_rec.status_ops emit_rec.event_ops) simp_all
  show "state_io_rel (emits no_update) (initNATSInstance L C nats :: ('w, 'z, _) rec_m)"
    by (rule emit_rec.init_instance) auto
  show "state_io_rel (emits no_update) (DeployInstance L fm i :: ('w, 'z, _) rec_m)"
    by (rule emit_rec.deploy) simp
  show "state_io_rel (emits no_update) (startDestinationRuleWatch L i :: ('w, 'z, _) rec_m)"
    by (rule emit_rec.start_watch) simp_all
qed

lemma provisioned_quiet:
  fixes s :: "('w, 'z) reconciler_scheme"
  assumes "provisioned L C nats s st i x"
  shows "emits no_update s x"
  using assms unfolding provisioned_def
  by (blast dest: state_io_relD [OF steps_quiet(1)] state_io_relD [OF steps_quiet(2)]
      state_io_relD [OF steps_quiet(3)] state_io_relD [OF steps_quiet(4)] intro: emits_trans)

text \<open>
  C15. Once the resource holds the status of its deployed cluster for the zones that a further successful
  reconciliation counts, that reconciliation writes no status and changes nothing in the resource: the
  controller does not trigger itself.
\<close>

theorem settled_is_quiet:
  fixes s :: "('w, 'z) reconciler_scheme"
  assumes law: "ssc_law (meta L)" "wf_status (nStatus nats)" and fin: "containsFinalizer (meta L) nats"
    and types: "[] \<notin> set (map cType (stConditions (nStatus nats)))"
    and fresh: "reads_as L nats nats"
    and prov: "provisioned L C nats s st i x"
    and ready: "run_state (IsNATSStatefulSetReady L i) x = (Returned (Inr True), y)"
    and run: "run_state (handleNATSReconcile L C nats) s = (out, s')"
    and settled: "abs_status (nStatus nats) = deployed_spec nats (count_zones L (nats\<lparr>nStatus := st\<rparr>) y) b"
  shows "list_all (\<lambda>a. \<forall>m e. a \<noteq> AUpdateStatus m e \<and> a \<noteq> AUpdateNATS m e) (new_actions (handleNATSReconcile L C nats) s)"
proof -
  let ?n = "nats\<lparr>nStatus := st\<rparr>"
  let ?zones = "count_zones L ?n y"
  obtain t where "run_state (provision_head L nats) s = (st, t)" using prov by (auto simp: provisioned_def)
  from head_status [OF law this] have st: "wf_status (nStatus ?n)"
    "abs_status (nStatus ?n) = spec_initialize (abs_status (nStatus nats))" by simp_all
  have run_state: "run_state (handleNATSState L ?n i) x = (out, s')"
    using run unfolding provisioned_run [OF fin prov] .
  from state_outcome [OF law(1) st(1) ready this] have
    writes: "emits (writes_abs (deployed_spec nats ?zones ((spec_initialize (abs_status (nStatus nats)))\<lparr>aURL := []\<rparr>))) x s'"
    using st(2) by (auto simp: Let_def)
  have p: "deployed_spec nats ?zones ((spec_initialize (abs_status (nStatus nats)))\<lparr>aURL := []\<rparr>) = abs_status (nStatus nats)"
    unfolding settled by (rule deployed_idem)
  have "emits (changes_status nats) x s'"
    by (rule state_io_relD [OF change_rec.handle_state run_state])
      (use fresh in \<open>auto simp: reads_as_def elim: status_action.elims observe_action.elims\<close>)
  moreover have "emits (\<lambda>a. \<forall>m e. a \<noteq> AUpdateNATS m e) x s'"
    by (rule state_io_relD [OF emit_rec.handle_state run_state]) auto
  ultimately have "emits (\<lambda>a. \<forall>m e. a \<noteq> AUpdateStatus m e \<and> a \<noteq> AUpdateNATS m e) x s'"
    using writes [unfolded p] abs_IsEqual [OF law(2) _ _ types]
    by (fastforce simp: emits_def writes_abs_def list_all_iff)
  then have "emits (\<lambda>a. \<forall>m e. a \<noteq> AUpdateStatus m e \<and> a \<noteq> AUpdateNATS m e) s s'"
    by (rule emits_trans [OF provisioned_quiet [OF prov]])
  then show ?thesis
    using run by (auto simp: emits_def new_actions_def)
qed

lemma light_settled: "abs_status (nStatus demo_finalized) = deployed_spec demo_finalized (Inr 3) (abs_status zeroStatus)"
  by (simp add: abs_status_def deployed_spec_def zones_spec_def spec_ready_def demo_finalized_def demo_settled_def
      demo_condition_def cond_core_def cond_body_def demo_nats_def demo_spec_def zeroStatus_def
      fun_eq_iff)

theorem settled_is_quiet_witness:
  "list_all (\<lambda>a. \<forall>m e. a \<noteq> AUpdateStatus m e \<and> a \<noteq> AUpdateNATS m e)
     (new_actions (handleNATSReconcile demo_light (demo_config (Some demo_nats)) demo_finalized) demo_read) \<and>
   stState (nStatus demo_finalized) = StateReady \<and> stAvailabilityZonesUsed (nStatus demo_finalized) = 3"
proof -
  let ?C = "demo_config (Some demo_nats)"
  obtain st i x y where p: "provisioned demo_light ?C demo_finalized demo_read st i x"
    "run_state (IsNATSStatefulSetReady demo_light i) x = (Returned (Inr True), y)"
    using light_provisioned [OF light_overrides] by blast
  have zones: "count_zones demo_light n y = Inr 3" for n
    by (rule lit_counted [OF provisioned_grows [OF p]]) (simp add: demo_read_def)
  have "[] \<notin> set (map cType (stConditions (nStatus demo_finalized)))"
    by (simp add: demo_finalized_def demo_settled_def demo_condition_def const_defs)
  moreover have "reads_as demo_light demo_finalized demo_finalized" by (simp add: reads_as_def light_facts)
  ultimately have "list_all (\<lambda>a. \<forall>m e. a \<noteq> AUpdateStatus m e \<and> a \<noteq> AUpdateNATS m e)
     (new_actions (handleNATSReconcile demo_light ?C demo_finalized) demo_read)"
    using settled_is_quiet [OF light_law light_facts(3) _ _ p prod.collapse [symmetric]] zones light_settled by metis
  then show ?thesis by (simp add: demo_finalized_def demo_settled_def)
qed

end
