(* ===== verification/StatusTypes.thy ===== *)
theory StatusTypes
  imports Convergence
begin

text \<open>
  What kind of status the controller ever writes: the states and condition types are those the API
  documents, a condition type occurs once, and the URL is the one of the resource's own server, none, or
  the one that was read. The state \<^verbatim>\<open>Deleting\<close>, set at the start of every deletion, is never written.
\<close>

section \<open>Typed statuses\<close>

definition written_states :: "string set" where
  "written_states = {StateReady, StateProcessing, StateWarning, StateError}"

definition known_types :: "string set" where
  "known_types = {ConditionStatefulSet, ConditionAvailable, ConditionAvailabilityZones, ConditionDeleted}"

definition typed_status :: "NATS \<Rightarrow> NATSStatus \<Rightarrow> bool" where
  "typed_status nats st \<longleftrightarrow> distinct (map cType (stConditions st)) \<and> stState st \<in> written_states \<and>
     set (map cType (stConditions st)) \<subseteq> set (map cType (stConditions (nStatus nats))) \<union> known_types \<and>
     stURL st \<in> {stURL (nStatus nats), [], Format (nName nats) (nNamespace nats)}"

text \<open>The same of an abstract status.\<close>

definition typed_abs :: "NATS \<Rightarrow> abs_status \<Rightarrow> bool" where
  "typed_abs nats a \<longleftrightarrow> aState a \<in> written_states \<and>
     dom (aConds a) \<subseteq> dom (aConds (abs_status (nStatus nats))) \<union> known_types \<and>
     aURL a \<in> {stURL (nStatus nats), [], Format (nName nats) (nNamespace nats)}"

lemma dom_abs: "dom (aConds (abs_status st)) = set (map cType (stConditions st))"
  by (simp add: abs_status_def dom_map_of_conv_image_fst image_image cond_core_def)

lemma typed_status_abs: "typed_status nats st \<longleftrightarrow> wf_status st \<and> typed_abs nats (abs_status st)"
  by (simp add: typed_status_def typed_abs_def dom_abs wf_status_def)

lemma typed_writes: "writes_abs a x \<Longrightarrow> typed_abs nats a \<Longrightarrow> writes_status (typed_status nats) x"
  by (cases x) (simp_all add: writes_abs_def typed_status_abs)

lemma emits_typed: "emits (writes_abs a) s t \<Longrightarrow> typed_abs nats a \<Longrightarrow> emits (writes_status (typed_status nats)) s t"
  by (erule emits_mono) (rule typed_writes)

text \<open>The abstract statuses of the handlers are typed.\<close>

definition based_on :: "NATS \<Rightarrow> abs_status \<Rightarrow> bool" where
  "based_on nats a \<longleftrightarrow> dom (aConds a) \<subseteq> dom (aConds (abs_status (nStatus nats))) \<union> known_types \<and>
     aURL a \<in> {stURL (nStatus nats), []}"

lemma based_on_specs:
  "based_on nats (abs_status (nStatus nats))" "based_on nats a \<Longrightarrow> based_on nats (spec_initialize a)"
  "based_on nats a \<Longrightarrow> based_on nats (a\<lparr>aURL := []\<rparr>)"
  by (auto simp: based_on_def spec_initialize_def known_types_def)

lemma typed_specs:
  assumes "based_on nats a"
  shows "typed_abs nats (failed_spec err a)" "typed_abs nats ((spec_waiting a)\<lparr>aZones := 0\<rparr>)"
    "typed_abs nats (deployed_spec nats zones a)" "typed_abs nats (blocked_spec msg a)"
    "typed_abs nats (forbidden_spec allowed a)"
  using assms
  by (auto simp: typed_abs_def based_on_def failed_spec_def spec_waiting_def deployed_spec_def zones_spec_def
      spec_ready_def blocked_spec_def forbidden_spec_def spec_error_def set_cond_def known_types_def
      written_states_def split: sum.splits)

section \<open>The handlers\<close>

lemma quiet_typed:
  "emits (\<lambda>a. \<forall>m e. a \<noteq> AUpdateStatus m e) s t \<Longrightarrow> emits (writes_status P) s t"
  by (erule emits_mono) (metis writes_status.elims(3))

lemma handle_state_typed:
  assumes law: "ssc_law (meta L)" and wf: "wf_status st" and base: "based_on nats (abs_status st)"
    and run: "run_state (handleNATSState L (nats\<lparr>nStatus := st\<rparr>) i) s = (out, s')"
  shows "emits (writes_status (typed_status nats)) s s'"
proof -
  let ?n = "nats\<lparr>nStatus := st\<rparr>"
  obtain r s1 where ready: "run_state (IsNATSStatefulSetReady L i) s = (r, s1)" by force
  show ?thesis
  proof (cases r)
    case Panicked
    then have "s' = s1" using run ready by (simp add: handleNATSState_def)
    moreover have "emits (writes_abs a) s s1" for a using writes_abs_ready ready by (rule state_io_relD)
    ultimately show ?thesis using typed_specs(2) [OF base] by (blast intro: emits_typed)
  next
    case (Returned x)
    have base': "based_on nats ((abs_status st)\<lparr>aURL := []\<rparr>)" using base by (rule based_on_specs)
    have wf': "wf_status (nStatus ?n)" by (simp add: wf)
    note table = state_outcome [OF law wf' ready [unfolded Returned] run, simplified]
    consider e where "x = Inl e" | "x = Inr False" | "x = Inr True" by (metis sum.exhaust)
    then obtain b where "emits (writes_abs b) s s'" "typed_abs nats b"
      by cases (use table typed_specs [OF base'] in \<open>auto simp: Let_def\<close>)
    then show ?thesis by (rule emits_typed)
  qed
qed

lemma failed_typed:
  assumes law: "ssc_law (meta L)" and wf: "wf_status st" and base: "based_on nats (abs_status st)"
  shows "wp (fail_provisioning L (nats\<lparr>nStatus := st\<rparr>) fmt err) (\<lambda>_ t. emits (writes_status (typed_status nats)) s t) s"
proof -
  let ?n = "nats\<lparr>nStatus := st\<rparr>" and ?a = "failed_spec err (abs_status st)"
  have "wp (syncNATSStatusWithErr L ?n err) (\<lambda>e u. e \<noteq> None \<and> emits (writes_abs ?a) t u) t" for t
    by (rule sync_err_wp [OF law]) (simp_all add: wf)
  then have "wp (fail_provisioning L ?n fmt err) (\<lambda>_ t. emits (writes_abs ?a) s t) s"
    unfolding fail_provisioning_def
    by (subst wp_bind, intro wp_emits [OF writes_abs_event(1)])
      (subst wp_bind, rule wp_mono, assumption, auto simp: wp_ret intro: emits_trans)
  then show ?thesis by (rule wp_mono) (rule emits_typed [OF _ typed_specs(1) [OF base]])
qed

lemma quiet_step:
  assumes "state_io_rel (emits no_update) m" "run_state m s = (x, t)"
  shows "emits (writes_status P) s t"
  by (rule quiet_typed, rule emits_mono [OF state_io_relD [OF assms]]) blast

lemma provision_typed:
  fixes s :: "('w, 'z) reconciler_scheme"
  assumes law: "ssc_law (meta L)" and st: "wf_status st" "based_on nats (abs_status st)"
    and fin: "containsFinalizer (meta L) nats"
    and head: "run_state (provision_head L nats) s = (st, t)"
    and e1: "emits (writes_status (typed_status nats)) s t"
    and run: "run_state (handleNATSReconcile L C nats) s = (out, s')"
  shows "emits (writes_status (typed_status nats)) s s'" (is "emits ?P s s'")
proof -
  let ?n = "nats\<lparr>nStatus := st\<rparr>"
  have failed: "emits ?P s u'" if "run_state (fail_provisioning L ?n fmt err) u = (x, u')" "emits ?P s u" for fmt err u x u'
    using that(2) wpD [OF failed_typed [OF law st] that(1)] by (rule emits_trans)
  obtain r u where init: "run_state (initNATSInstance L C ?n) t = (r, u)" by force
  have e2: "emits ?P s u" by (rule emits_trans [OF e1 quiet_step [OF steps_quiet(2) init]])
  note run = run [unfolded reconcile_split [OF fin] run_bind [OF head] run_bind [OF init]]
  show ?thesis
  proof (cases r)
    case (Inl err)
    with run e2 show ?thesis by (simp add: failed)
  next
    case (Inr i)
    obtain d v where dep: "run_state (DeployInstance L (fieldManager C) i) u = (d, v)" by force
    have e3: "emits ?P s v" by (rule emits_trans [OF e2 quiet_step [OF steps_quiet(3) dep]])
    obtain w x where watch: "run_state (startDestinationRuleWatch L i) v = (w, x)" by force
    have e4: "emits ?P s x" by (rule emits_trans [OF e3 quiet_step [OF steps_quiet(4) watch]])
    note run = run [unfolded Inr sum.case run_bind [OF dep]]
    consider e where "d = Some e" | "d = None" "w = Panicked" | e where "d = None" "w = Returned (Some e)"
      | "d = None" "w = Returned None" by (metis not_None_eq outcome.exhaust)
    then show ?thesis
    proof cases
      case 4
      with run watch have "run_state (handleNATSState L ?n i) x = (out, s')" by simp
      then show ?thesis by (rule emits_trans [OF e4 handle_state_typed [OF law st]])
    qed (use run watch e3 e4 failed in auto)
  qed
qed

lemma reconcile_typed:
  fixes s :: "('w, 'z) reconciler_scheme"
  assumes law: "ssc_law (meta L)" and wf: "wf_status (nStatus nats)"
  shows "wp (handleNATSReconcile L C nats) (\<lambda>_ t. emits (writes_status (typed_status nats)) s t) s"
proof -
  let ?P = "writes_status (typed_status nats)"
  obtain st t where head: "run_state (provision_head L nats) s = (st, t)" by force
  have e1: "emits ?P s t" by (rule quiet_step [OF steps_quiet(1) head])
  have st: "wf_status st" "based_on nats (abs_status st)"
    using head_status [OF law wf head] based_on_specs(1,2) by simp_all
  show ?thesis
  proof (cases "containsFinalizer (meta L) nats")
    case False
    then have eq: "handleNATSReconcile L C nats = provision_head L nats \<bind>
        (\<lambda>st. addFinalizer L (nats\<lparr>nStatus := st\<rparr>) \<bind> (\<lambda>r. ret (Returned r)))"
      by (simp add: handleNATSReconcile_def provision_head_def containsFinalizer_def)
    have "state_io_rel (emits ?P) (addFinalizer L n :: ('w, 'z, _) rec_m)" for n
      by (rule emit_rec.add_finalizer) simp
    then have "wp (addFinalizer L (nats\<lparr>nStatus := st\<rparr>)) (\<lambda>_ u. emits ?P s u) t"
      by (rule wp_emits) (rule emits_trans [OF e1])
    then show ?thesis unfolding eq by (simp add: wp_def head split: prod.splits)
  next
    case True
    then show ?thesis by (intro wpI) (rule provision_typed [OF law st _ head e1])
  qed
qed

lemma deletion_typed:
  fixes s :: "('w, 'z) reconciler_scheme"
  assumes law: "ssc_law (meta L)" and wf: "wf_status (nStatus nats)"
  shows "wp (handleNATSDeletion L nats) (\<lambda>_ t. emits (writes_status (typed_status nats)) s t) s"
proof (rule wpI)
  let ?P = "writes_status (typed_status nats)"
  fix out s' assume run: "run_state (handleNATSDeletion L nats) s = (out, s')"
  show "emits ?P s s'"
  proof (cases "containsFinalizer (meta L) nats")
    case False
    have "trace s' = trace s @ [AGaugeReset GaugeAvailabilityZonesUsed, AGaugeReset GaugeClusterSize]"
      using run False by (auto simp: handleNATSDeletion_def ResetAvailabilityZonesUsedMetric_def
          ResetClusterSizeMetric_def gaugeReset_def ext_do_def)
    then show ?thesis by (simp add: emits_def)
  next
    case True
    then show ?thesis using run
    proof (rule deletion_run)
      fix reads v held k t x as
      assume t: "trace t = trace s @ deletion_prelude @ reads" and reads: "list_all probe_action reads"
        and act: "run_state (carry_out L (deleting nats) v) t = (x, s')"
      have "list_all ?P reads" using reads by (rule list.pred_mono_strong) (auto elim: probe_action.elims)
      then have e: "emits ?P s t" unfolding emits_def
        by (intro exI [of _ "deletion_prelude @ reads"]) (simp add: t deletion_prelude_def)
      have base: "based_on nats (abs_status (nStatus (deleting nats)))"
        by (simp add: deleting_def SetStateDeleting_def based_on_def)
      have block: "emits ?P t s'" if "run_state (block_deletion L (deleting nats) msg) t = (x, s')" for msg
      proof -
        have "wf_status (nStatus (deleting nats))" using wf by (simp add: deleting_def)
        from block_abs [OF law this that]
        have "emits (writes_abs (blocked_spec msg (abs_status (nStatus (deleting nats))))) t s'"
          unfolding writes_abs_def by (blast intro: emits_mono)
        then show ?thesis by (rule emits_typed) (rule typed_specs [OF base])
      qed
      have "state_io_rel (emits ?P) (deletePVCsAndRemoveFinalizer L (deleting nats) :: ('w, 'z, _) rec_m)"
        unfolding deleting_def by (rule emit_rec.remove_data) (auto simp: remove_action_def)
      then have "emits ?P t s'"
        using act block by (cases v) (auto simp: carry_out_def dest: state_io_relD)
      with e show "emits ?P s s'" by (rule emits_trans)
    qed
  qed
qed

lemma check_typed:
  assumes law: "ssc_law (meta L)" and wf: "wf_status (nStatus nats)"
  shows "wp (handleNATSCRAllowedCheck L allowed nats) (\<lambda>_ t. emits (writes_status (typed_status nats)) s t) s"
proof (cases "nName nats = nName allowed \<and> nNamespace nats = nNamespace allowed")
  case True
  then show ?thesis by (simp add: handleNATSCRAllowedCheck_def wp_ret emits_refl)
next
  case False
  show ?thesis
  proof (rule wp_mono [OF forbidden_abs [OF law wf]])
    fix x s'
    assume "fst x = False \<and> emits (\<lambda>a. status_action a \<and> writes_status (\<lambda>st. wf_status st \<and>
        abs_status st = forbidden_spec allowed (abs_status (nStatus nats))) a) s s'"
    then have "emits (writes_abs (forbidden_spec allowed (abs_status (nStatus nats)))) s s'"
      unfolding writes_abs_def by (blast intro: emits_mono)
    then show "emits (writes_status (typed_status nats)) s s'"
      by (rule emits_typed) (rule typed_specs [OF based_on_specs(1)])
  qed (use False in blast)
qed

lemma written_typed:
  fixes s :: "('w, 'z) reconciler_scheme"
  assumes law: "ssc_law (meta L)"
    and get: "api_get_nats (kapi L) name ns (world s) = (Inr nats, w)"
    and wf: "distinct (map cType (stConditions (nStatus nats)))"
  shows "list_all (writes_status (typed_status nats)) (new_actions (Reconcile L C name ns) s)"
proof -
  let ?P = "writes_status (typed_status nats)"
  let ?s1 = "s\<lparr>world := w, trace := trace s @ [AGetNATS name ns (Inr nats)]\<rparr>"
  have wf: "wf_status (nStatus nats)" using wf by (simp add: wf_status_def)
  have read: "emits ?P s ?s1" by (simp add: emits_def)
  obtain out s' where run: "run_state (Reconcile L C name ns) s = (out, s')" by force
  have "emits ?P ?s1 s'"
  proof (cases "IsInDeletion (meta L) nats")
    case True
    with run get have "run_state (handleNATSDeletion L nats) ?s1 = (out, s')"
      by (simp add: Reconcile_def clientGetNATS_def)
    with deletion_typed [OF law wf] show ?thesis by (rule wpD)
  next
    case alive: False
    show ?thesis
    proof (cases "allowedNATSCR C")
      case None
      with run get alive have "run_state (handleNATSReconcile L C nats) ?s1 = (out, s')"
        by (simp add: Reconcile_def clientGetNATS_def)
      with reconcile_typed [OF law wf] show ?thesis by (rule wpD)
    next
      case (Some allowed)
      obtain x t where check: "run_state (handleNATSCRAllowedCheck L allowed nats) ?s1 = (x, t)" by (metis surj_pair)
      have e: "emits ?P ?s1 t" using check_typed [OF law wf] check by (rule wpD)
      show ?thesis
      proof (cases "\<not> fst x \<or> snd x \<noteq> None")
        case True
        with run get alive Some check have "s' = t"
          by (cases x) (auto simp: Reconcile_def clientGetNATS_def split: if_splits)
        with e show ?thesis by simp
      next
        case False
        with run get alive Some check have "run_state (handleNATSReconcile L C nats) t = (out, s')"
          by (cases x) (auto simp: Reconcile_def clientGetNATS_def)
        with reconcile_typed [OF law wf] have "emits ?P t s'" by (rule wpD)
        with e show ?thesis by (rule emits_trans)
      qed
    qed
  qed
  with read have "emits ?P s s'" by (rule emits_trans)
  with run show ?thesis by (auto simp: emits_def new_actions_def)
qed

text \<open>
  C16. Every status a reconciliation writes is typed: if the condition types of the resource it read were
  distinct they still are, all new ones are documented, and the state is one of \<^verbatim>\<open>Ready\<close>, \<^verbatim>\<open>Processing\<close>,
  \<^verbatim>\<open>Warning\<close> and \<^verbatim>\<open>Error\<close> (never \<^verbatim>\<open>Deleting\<close>). The URL is the resource's own server's, none, or the
  unchanged one that was read; so a resource that shows its own server or none never shows a foreign one.
\<close>

theorem written_status_typed:
  fixes s :: "('w, 'z) reconciler_scheme"
  assumes "ssc_law (meta L)" and "api_get_nats (kapi L) name ns (world s) = (Inr nats, w)"
    and "distinct (map cType (stConditions (nStatus nats)))"
  shows "list_all (writes_status (typed_status nats)) (new_actions (Reconcile L C name ns) s) \<and>
    (stURL (nStatus nats) \<in> {[], Format (nName nats) (nNamespace nats)} \<longrightarrow>
      list_all (writes_status (\<lambda>st. stURL st \<in> {[], Format (nName nats) (nNamespace nats)}))
        (new_actions (Reconcile L C name ns) s))"
  using written_typed [OF assms, of C]
  by (auto elim!: list.pred_mono_strong writes_status_mono simp: typed_status_def)

text \<open>A deletion that a stream of a customer blocks.\<close>

definition demo_blocking :: "demo_world reconciler" where
  "demo_blocking = demo_rec\<lparr>world := demo_start\<lparr>dNATS := Some demo_deleted, dStreams := [''orders'']\<rparr>\<rparr>"

theorem written_status_typed_witness:
  "list_all (writes_status (\<lambda>st. stState st \<noteq> StateDeleting \<and>
       stURL st \<in> {[], Format ''eventing-nats'' ''kyma-system''})) (new_actions
     (Reconcile (demo_libs []) (demo_config None) ''eventing-nats'' ''kyma-system'') demo_blocking)"
proof -
  have get: "api_get_nats (kapi (demo_libs [])) ''eventing-nats'' ''kyma-system'' (world demo_blocking) =
      (Inr demo_deleted, world demo_blocking)"
    by (simp add: demo_defs demo_blocking_def demo_deleted_def demo_nats_def)
  have "distinct (map cType (stConditions (nStatus demo_deleted)))"
    by (simp add: demo_deleted_def demo_nats_def zeroStatus_def)
  from written_status_typed [OF demo_law get this, of "demo_config None"]
  have "list_all (writes_status (typed_status demo_deleted)) (new_actions
      (Reconcile (demo_libs []) (demo_config None) ''eventing-nats'' ''kyma-system'') demo_blocking)" by blast
  then show ?thesis
    by (rule list.pred_mono_strong)
      (auto elim!: writes_status_mono simp: typed_status_def written_states_def const_defs
        demo_deleted_def demo_nats_def zeroStatus_def)
qed

end
