(* ===== verification/Testutils.thy ===== *)
theory Testutils
  imports NatsManager
begin

text \<open>
  \<^verbatim>\<open>testutils/options.go\<close> and \<^verbatim>\<open>testutils/utils.go\<close>: the objects the repository's tests create. An option on
  an unstructured object is an assignment to one path of a nested map; an option on a NATS resource sets
  a part of it. \<^verbatim>\<open>log.Fatal\<close> ends the process, which is the result \<open>None\<close>.
\<close>

section \<open>Options on unstructured objects\<close>

text \<open>
  The body that the options share: make sure that the section of the object exists, assert that it is a
  map, and assign to one of its keys.
\<close>

definition set_in_section :: "string \<Rightarrow> sentinel \<Rightarrow> string \<Rightarrow> val \<Rightarrow> Option" where
  "set_in_section section_key err key v o1 =
     (let o1 = with_key section_key o1 in
      case map_of o1 section_key of
        Some (VMap m) \<Rightarrow> Inr (AList.update section_key (VMap (AList.update key v m)) o1)
      | _ \<Rightarrow> Inl (Sentinel err))"

definition WithName :: "string \<Rightarrow> Option" where
  "WithName name = set_in_section ''metadata'' TestErrFailedToConvertMetadataToMap ''name'' (VStr name)"

definition WithNamespace :: "string \<Rightarrow> Option" where
  "WithNamespace namespace =
     set_in_section ''metadata'' TestErrFailedToConvertMetadataToMap ''namespace'' (VStr namespace)"

definition WithLabels :: "str_map \<Rightarrow> Option" where
  "WithLabels labels =
     set_in_section ''metadata'' TestErrFailedToConvertMetadataToMap ''labels'' (VStrMap labels)"

definition WithSpecNodeName :: "string \<Rightarrow> Option" where
  "WithSpecNodeName node = set_in_section ''spec'' TestErrFailedToConvertSpecToMap ''nodeName'' (VStr node)"

definition WithSpecReplicas :: "int \<Rightarrow> Option" where
  "WithSpecReplicas replicas =
     set_in_section ''spec'' TestErrFailedToConvertSpecToMap ''replicas'' (VInt replicas)"

definition WithStatefulSetStatusCurrentReplicas :: "int \<Rightarrow> Option" where
  "WithStatefulSetStatusCurrentReplicas replicas =
     set_in_section ''status'' TestErrFailedToConvertStatusToMap ''currentReplicas'' (VInt replicas)"

definition WithStatefulSetStatusUpdatedReplicas :: "int \<Rightarrow> Option" where
  "WithStatefulSetStatusUpdatedReplicas replicas =
     set_in_section ''status'' TestErrFailedToConvertStatusToMap ''updatedReplicas'' (VInt replicas)"

definition WithStatefulSetStatusReadyReplicas :: "int \<Rightarrow> Option" where
  "WithStatefulSetStatusReadyReplicas replicas =
     set_in_section ''status'' TestErrFailedToConvertStatusToMap ''readyReplicas'' (VInt replicas)"

section \<open>Options on a NATS resource\<close>

text \<open>Initializing the status reads the clock, so an option runs in the host.\<close>

type_synonym ('w, 'z) nats_option = "NATS \<Rightarrow> (('w, 'z) host_scheme, go_error + NATS) state"

definition MustParse :: "string \<Rightarrow> quantity" where
  "MustParse s = QuantityOf s"

definition emptySpec :: NATSSpec where
  "emptySpec = \<lparr>spCluster = \<lparr>clusterSize = 0\<rparr>,
     spJetStream = \<lparr>jsMemStorage = \<lparr>memEnabled = False, memSize = QuantityZero\<rparr>,
       jsFileStorage = \<lparr>fsStorageClassName = [], fsSize = QuantityZero\<rparr>\<rparr>,
     spLogging = \<lparr>logDebug = False, logTrace = False\<rparr>,
     spResources = \<lparr>resLimits = [], resRequests = []\<rparr>, spAnnotations = [], spLabels = []\<rparr>"

definition WithNATSCRDefaults :: "('w, 'z) nats_option" where
  "WithNATSCRDefaults nats = ret (Inr (nats\<lparr>nSpec := emptySpec\<lparr>spCluster := \<lparr>clusterSize = 1\<rparr>,
     spJetStream := \<lparr>jsMemStorage = \<lparr>memEnabled = False, memSize = QuantityZero\<rparr>,
       jsFileStorage = \<lparr>fsStorageClassName = ''default'', fsSize = MustParse ''1Gi''\<rparr>\<rparr>\<rparr>\<rparr>))"

definition WithNATSCRFinalizer :: "meta_lib \<Rightarrow> string \<Rightarrow> ('w, 'z) nats_option" where
  "WithNATSCRFinalizer M finalizer nats =
     ret (Inr (nats\<lparr>nFinalizers := add_finalizer_to M (nFinalizers nats) finalizer\<rparr>))"

definition WithNATSCRStatusInitialized :: "'w libs \<Rightarrow> ('w, 'z) nats_option" where
  "WithNATSCRStatusInitialized L nats = do {
     st \<leftarrow> Initialize L (nStatus nats);
     ret (Inr (nats\<lparr>nStatus := st\<rparr>))
   }"

definition set_state :: "string \<Rightarrow> NATS \<Rightarrow> NATS" where
  "set_state st nats = nats\<lparr>nStatus := (nStatus nats)\<lparr>stState := st\<rparr>\<rparr>"

definition WithNATSStateReady :: "('w, 'z) nats_option" where
  "WithNATSStateReady nats = ret (Inr (set_state StateReady nats))"

definition WithNATSStateWarning :: "('w, 'z) nats_option" where
  "WithNATSStateWarning nats = ret (Inr (set_state StateWarning nats))"

definition WithNATSStateProcessing :: "('w, 'z) nats_option" where
  "WithNATSStateProcessing nats = ret (Inr (set_state StateProcessing nats))"

definition WithNATSStateError :: "('w, 'z) nats_option" where
  "WithNATSStateError nats = ret (Inr (set_state StateError nats))"

definition WithNATSCRName :: "string \<Rightarrow> ('w, 'z) nats_option" where
  "WithNATSCRName name nats = ret (Inr (nats\<lparr>nName := name\<rparr>))"

definition WithNATSCRNamespace :: "string \<Rightarrow> ('w, 'z) nats_option" where
  "WithNATSCRNamespace namespace nats = ret (Inr (nats\<lparr>nNamespace := namespace\<rparr>))"

definition WithNATSEmptySpec :: "('w, 'z) nats_option" where
  "WithNATSEmptySpec nats = ret (Inr (nats\<lparr>nSpec := emptySpec\<rparr>))"

definition WithNATSClusterSize :: "int \<Rightarrow> ('w, 'z) nats_option" where
  "WithNATSClusterSize size_n nats =
     ret (Inr (nats\<lparr>nSpec := (nSpec nats)\<lparr>spCluster := (spCluster (nSpec nats))\<lparr>clusterSize := size_n\<rparr>\<rparr>\<rparr>))"

definition WithNATSLogging :: "bool \<Rightarrow> bool \<Rightarrow> ('w, 'z) nats_option" where
  "WithNATSLogging debug trace_f nats =
     ret (Inr (nats\<lparr>nSpec := (nSpec nats)\<lparr>spLogging := (spLogging (nSpec nats))\<lparr>logDebug := debug, logTrace := trace_f\<rparr>\<rparr>\<rparr>))"

definition WithNATSMemStorage :: "MemStorage \<Rightarrow> ('w, 'z) nats_option" where
  "WithNATSMemStorage memStorage nats =
     ret (Inr (nats\<lparr>nSpec := (nSpec nats)\<lparr>spJetStream := (spJetStream (nSpec nats))\<lparr>jsMemStorage := memStorage\<rparr>\<rparr>\<rparr>))"

definition WithNATSFileStorage :: "FileStorage \<Rightarrow> ('w, 'z) nats_option" where
  "WithNATSFileStorage fileStorage nats =
     ret (Inr (nats\<lparr>nSpec := (nSpec nats)\<lparr>spJetStream := (spJetStream (nSpec nats))\<lparr>jsFileStorage := fileStorage\<rparr>\<rparr>\<rparr>))"

definition WithNATSCluster :: "Cluster \<Rightarrow> ('w, 'z) nats_option" where
  "WithNATSCluster cluster nats = ret (Inr (nats\<lparr>nSpec := (nSpec nats)\<lparr>spCluster := cluster\<rparr>\<rparr>))"

definition WithNATSLabels :: "str_map \<Rightarrow> ('w, 'z) nats_option" where
  "WithNATSLabels labels nats = ret (Inr (nats\<lparr>nSpec := (nSpec nats)\<lparr>spLabels := labels\<rparr>\<rparr>))"

definition WithNATSAnnotations :: "str_map \<Rightarrow> ('w, 'z) nats_option" where
  "WithNATSAnnotations annotations nats = ret (Inr (nats\<lparr>nSpec := (nSpec nats)\<lparr>spAnnotations := annotations\<rparr>\<rparr>))"

definition WithNATSResources :: "ResourceRequirements \<Rightarrow> ('w, 'z) nats_option" where
  "WithNATSResources resources nats = ret (Inr (nats\<lparr>nSpec := (nSpec nats)\<lparr>spResources := resources\<rparr>\<rparr>))"

section \<open>Names\<close>

definition charset :: string where
  [const_defs]: "charset = ''abcdefghijklmnopqrstuvwxyz0123456789''"

definition randomNameLen :: int where
  [const_defs]: "randomNameLen = 5"

text \<open>
  The seeded generator of \<^verbatim>\<open>math/rand\<close> is a part of the outside world: \<open>intn n\<close> draws the next number below
  \<open>n\<close>. Indexing outside the charset, and making a slice of negative length, panic.
\<close>

type_synonym 'w rng = "nat \<Rightarrow> 'w \<Rightarrow> nat \<times> 'w"

definition draw :: "'w rng \<Rightarrow> nat \<Rightarrow> (('w, 'z) host_scheme, nat) state" where
  "draw intn n = State (\<lambda>s. case intn n (world s) of (k, w) \<Rightarrow> (k, s\<lparr>world := w\<rparr>))"

fun rand_loop :: "'w rng \<Rightarrow> nat \<Rightarrow> (('w, 'z) host_scheme, string outcome) state" where
  "rand_loop intn 0 = ret (Returned [])"
| "rand_loop intn (Suc n) = do {
     k \<leftarrow> draw intn (length charset);
     (if length charset \<le> k then ret Panicked
      else do {
        r \<leftarrow> rand_loop intn n;
        ret (case r of Panicked \<Rightarrow> Panicked | Returned s \<Rightarrow> Returned ((charset ! k) # s))
      })
   }"

definition GetRandString :: "'w rng \<Rightarrow> int \<Rightarrow> (('w, 'z) host_scheme, string outcome) state" where
  "GetRandString intn len = (if len < 0 then ret Panicked else rand_loop intn (nat len))"

definition GetRandK8sName :: "'w rng \<Rightarrow> int \<Rightarrow> (('w, 'z) host_scheme, string outcome) state" where
  "GetRandK8sName intn len = do {
     r \<leftarrow> GetRandString intn len;
     ret (case r of Panicked \<Rightarrow> Panicked | Returned s \<Rightarrow> Returned (''name-'' @ s))
   }"

definition GetStatefulSetName :: "NATS \<Rightarrow> string" where "GetStatefulSetName nats = nName nats @ ''-nats''"
definition GetConfigMapName :: "NATS \<Rightarrow> string" where "GetConfigMapName nats = nName nats @ ''-nats-config''"
definition GetSecretName :: "NATS \<Rightarrow> string" where "GetSecretName nats = nName nats @ ''-nats-secret''"
definition GetServiceName :: "NATS \<Rightarrow> string" where "GetServiceName nats = nName nats @ ''-nats''"
definition GetPodDisruptionBudgetName :: "NATS \<Rightarrow> string" where
  "GetPodDisruptionBudgetName nats = nName nats @ ''-nats''"
definition GetDestinationRuleName :: "NATS \<Rightarrow> string" where
  "GetDestinationRuleName nats = nName nats @ ''-nats''"

section \<open>Unstructured objects\<close>

text \<open>The loop over the options, shared by the constructors; an error ends the process.\<close>

fun build_object :: "Option list \<Rightarrow> obj \<Rightarrow> obj option" where
  "build_object [] o1 = Some o1"
| "build_object (opt # opts) o1 =
     (case opt o1 of Inl err \<Rightarrow> None | Inr o1 \<Rightarrow> build_object opts o1)"

definition NewNATSStatefulSetUnStruct :: "Option list \<Rightarrow> obj option" where
  "NewNATSStatefulSetUnStruct opts = build_object opts
     [(''kind'', VStr ''StatefulSet''), (''apiVersion'', VStr ''apps/v1''),
      (''metadata'', VMap [(''name'', VStr ''test1''), (''namespace'', VStr ''test1'')])]"

definition NewSecretUnStruct :: "Option list \<Rightarrow> obj option" where
  "NewSecretUnStruct opts = build_object opts
     [(''kind'', VStr ''Secret''), (''apiVersion'', VStr ''v1''),
      (''metadata'', VMap [(''name'', VStr ''test1''), (''namespace'', VStr ''test1'')])]"

definition NewNodeUnStruct :: "Option list \<Rightarrow> obj option" where
  "NewNodeUnStruct opts = build_object opts
     [(''kind'', VStr ''Node''), (''apiVersion'', VStr ''v1''),
      (''metadata'', VMap [(''name'', VStr ''test1'')])]"

definition NewPodUnStruct :: "Option list \<Rightarrow> obj option" where
  "NewPodUnStruct opts = build_object opts
     [(''kind'', VStr ''Pod''), (''apiVersion'', VStr ''v1''),
      (''metadata'', VMap [(''name'', VStr ''test1''), (''namespace'', VStr ''test1'')]),
      (''spec'', VMap [(''containers'', VMapSlice [
        [(''name'', VStr ''test1''), (''image'', VStr ''test1''), (''imagePullPolicy'', VStr ''IfNotPresent'')]])])]"

text \<open>The typed secret comes from apimachinery's converter, a parameter.\<close>

definition NewSecret :: "(obj \<Rightarrow> go_error + Secret) \<Rightarrow> Option list \<Rightarrow> Secret option" where
  "NewSecret fromUnstructured opts =
     (case NewSecretUnStruct opts of
        None \<Rightarrow> None
      | Some content \<Rightarrow> (case fromUnstructured content of Inl err \<Rightarrow> None | Inr sampleSecret \<Rightarrow> Some sampleSecret))"

section \<open>Typed objects\<close>

fun apply_nats_options ::
  "('w, 'z) nats_option list \<Rightarrow> NATS \<Rightarrow> (('w, 'z) host_scheme, NATS option) state" where
  "apply_nats_options [] nats = ret (Some nats)"
| "apply_nats_options (opt # opts) nats = do {
     r \<leftarrow> opt nats;
     (case r of Inl err \<Rightarrow> ret None | Inr nats \<Rightarrow> apply_nats_options opts nats)
   }"

definition base_nats :: "string \<Rightarrow> string \<Rightarrow> NATS" where
  "base_nats name namespace = \<lparr>nAPIVersion = ''v1alpha1'', nKind = ''NATS'', nName = name, nNamespace = namespace,
     nUID = ''1234-5678-1234-5678'', nResourceVersion = [], nFinalizers = [], nDeletionTimestamp = None,
     nSpec = emptySpec, nStatus = zeroStatus\<rparr>"

definition NewNATSCR ::
  "'w rng \<Rightarrow> ('w, 'z) nats_option list \<Rightarrow> (('w, 'z) host_scheme, NATS option) state" where
  "NewNATSCR intn opts = do {
     a \<leftarrow> GetRandString intn randomNameLen;
     (case a of
        Panicked \<Rightarrow> ret None
      | Returned a \<Rightarrow> do {
          b \<leftarrow> GetRandString intn randomNameLen;
          (case b of
             Panicked \<Rightarrow> ret None
           | Returned b \<Rightarrow> apply_nats_options opts (base_nats (''name-'' @ a) (''namespace-'' @ b)))
        })
   }"

record Namespace =
  nsKind :: string
  nsAPIVersion :: string
  nsName :: string

definition NewNamespace :: "string \<Rightarrow> Namespace" where
  "NewNamespace name = \<lparr>nsKind = ''Namespace'', nsAPIVersion = ''v1'', nsName = name\<rparr>"

record crd_object = CRD +
  crdAPIVersion :: string
  crdKind :: string
  crdScope :: string
  crdPreserveUnknownFields :: bool

definition NewDestinationRuleCRD :: crd_object where
  "NewDestinationRuleCRD = \<lparr>crdName = ''destinationrules.networking.istio.io'',
     crdAPIVersion = ''apiextensions.k8s.io/v1'', crdKind = ''CustomResourceDefinition'',
     crdScope = ''Namespaced'', crdPreserveUnknownFields = False\<rparr>"

record 'c container =
  containerName :: string
  containerRest :: 'c

fun FindContainer :: "'c container list \<Rightarrow> string \<Rightarrow> 'c container option" where
  "FindContainer [] name = None"
| "FindContainer (c # cs) name = (if containerName c = name then Some c else FindContainer cs name)"

record gvr =
  gvrGroup :: string
  gvrVersion :: string
  gvrResource :: string

definition GetDestinationRuleGVR :: gvr where
  "GetDestinationRuleGVR = \<lparr>gvrGroup = ''networking.istio.io'', gvrVersion = ''v1alpha3'', gvrResource = ''destinationrules''\<rparr>"

record pvc_object = PVC +
  pvcLabels :: str_map
  pvcAccessModes :: "string list"
  pvcRequests :: resource_list

definition NewPVC :: "string \<Rightarrow> string \<Rightarrow> str_map \<Rightarrow> pvc_object" where
  "NewPVC name namespace labels = \<lparr>pvcName = name, pvcNamespace = namespace, pvcLabels = labels,
     pvcAccessModes = [''ReadWriteOnce''], pvcRequests = [(''storage'', MustParse ''1Gi'')]\<rparr>"

record sts_object =
  stsoName :: string
  stsoNamespace :: string
  stsoLabels :: str_map

definition NewStatefulSet :: "string \<Rightarrow> string \<Rightarrow> str_map \<Rightarrow> sts_object" where
  "NewStatefulSet name namespace labels = \<lparr>stsoName = name, stsoNamespace = namespace, stsoLabels = labels\<rparr>"

text \<open>\<^verbatim>\<open>setup_helpers.go\<close>: every failure before the listener is open is reported as the port -1 without an error.\<close>

record 'w net_lib =
  net_resolve :: "string \<Rightarrow> string \<Rightarrow> 'w \<Rightarrow> (go_error + string) \<times> 'w"
  net_listen :: "string \<Rightarrow> string \<Rightarrow> 'w \<Rightarrow> (go_error + int) \<times> 'w"
  net_close :: "int \<Rightarrow> 'w \<Rightarrow> go_error option \<times> 'w"

definition GetFreePort :: "'w net_lib \<Rightarrow> 'w \<Rightarrow> (int \<times> go_error option) \<times> 'w" where
  "GetFreePort N w =
     (case net_resolve N ''tcp'' ''localhost:0'' w of
        (Inr a, w) \<Rightarrow>
          (case net_listen N ''tcp'' a w of
             (Inr port, w) \<Rightarrow> (case net_close N port w of (err, w) \<Rightarrow> ((port, err), w))
           | (Inl err, w) \<Rightarrow> ((-1, None), w))
      | (Inl err, w) \<Rightarrow> ((-1, None), w))"

text \<open>A host without a network is given the port -1, and no error.\<close>

lemma free_port_hides_failure:
  "net_resolve N ''tcp'' ''localhost:0'' w = (Inl err, w') \<Longrightarrow> fst (GetFreePort N w) = (-1, None)"
  by (simp add: GetFreePort_def)

section \<open>What the options do\<close>

lemma set_in_section_writes: "writes (set_in_section sec err key v) [sec, key] v"
  unfolding writes_def
proof (intro allI impI conjI)
  fix o1 o2 assume run: "set_in_section sec err key v o1 = Inr o2"
  show "get_at (VMap o2) [sec, key] = Some v"
    using run by (auto simp: set_in_section_def Let_def update_conv' split: option.splits val.splits)
  fix q assume q: "unrelated [sec, key] q" "q \<noteq> []"
  then obtain k ks where k: "q = k # ks" by (cases q) auto
  show "get_at (VMap o2) q = get_at (VMap o1) q"
  proof (cases "k = sec")
    case True
    then obtain k' ks' where "ks = k' # ks'" "k' \<noteq> key"
      using q k by (cases ks) (auto simp: unrelated_def)
    with run k True show ?thesis
      by (cases "map_of o1 sec")
        (auto simp: set_in_section_def Let_def map_of_with_key update_conv' split: val.splits)
  next
    case False
    with run k show ?thesis
      by (auto simp: set_in_section_def Let_def map_of_with_key update_conv' split: option.splits val.splits)
  qed
qed

lemma set_in_section_fails:
  "set_in_section sec err key v o1 = Inl e \<longleftrightarrow> e = Sentinel err \<and> (\<exists>x. map_of o1 sec = Some x \<and> \<not> is_map x)"
  by (auto simp: set_in_section_def Let_def map_of_with_key split: option.splits val.splits)

lemma set_in_section_result:
  "(\<exists>o2. set_in_section sec err key v o1 = Inr o2) \<longleftrightarrow> (\<forall>x. map_of o1 sec = Some x \<longrightarrow> is_map x)"
  using set_in_section_fails [of sec err key v o1] by (cases "set_in_section sec err key v o1") auto

lemmas unstructured_option_defs = WithName_def WithNamespace_def WithLabels_def WithSpecNodeName_def
  WithSpecReplicas_def WithStatefulSetStatusCurrentReplicas_def WithStatefulSetStatusUpdatedReplicas_def
  WithStatefulSetStatusReadyReplicas_def

text \<open>Options at unrelated paths build an object that has them all.\<close>

lemma build_object_writes:
  assumes "build_object opts o1 = Some o2"
    and "list_all2 (\<lambda>opt (p, v). writes opt p v \<and> p \<noteq> []) opts pvs"
    and "\<forall>i j. i < length pvs \<longrightarrow> j < length pvs \<longrightarrow> i \<noteq> j \<longrightarrow> unrelated (fst (pvs ! i)) (fst (pvs ! j))"
  shows "(\<forall>(p, v) \<in> set pvs. get_at (VMap o2) p = Some v) \<and>
    (\<forall>q. q \<noteq> [] \<longrightarrow> (\<forall>(p, v) \<in> set pvs. unrelated p q) \<longrightarrow> get_at (VMap o2) q = get_at (VMap o1) q)"
  using assms
proof (induction opts arbitrary: o1 pvs)
  case Nil
  then show ?case by simp
next
  case (Cons opt opts)
  then obtain p v pvs' where pvs: "pvs = (p, v) # pvs'" and w: "writes opt p v" "p \<noteq> []"
    and rest: "list_all2 (\<lambda>opt (p, v). writes opt p v \<and> p \<noteq> []) opts pvs'"
    by (auto simp: list_all2_Cons1)
  obtain o' where o': "opt o1 = Inr o'" "build_object opts o' = Some o2"
    using Cons.prems(1) by (auto split: sum.splits)
  have apart: "unrelated p' p" "unrelated p p'" if m: "(p', v') \<in> set pvs'" for p' v'
  proof -
    from m obtain i where "i < length pvs'" "pvs' ! i = (p', v')" by (auto simp: in_set_conv_nth)
    with Cons.prems(3) [rule_format, of "Suc i" 0] Cons.prems(3) [rule_format, of 0 "Suc i"]
    show "unrelated p' p" "unrelated p p'" unfolding pvs by auto
  qed
  have "\<forall>i j. i < length pvs' \<longrightarrow> j < length pvs' \<longrightarrow> i \<noteq> j \<longrightarrow> unrelated (fst (pvs' ! i)) (fst (pvs' ! j))"
  proof (intro allI impI)
    fix i j assume "i < length pvs'" "j < length pvs'" "i \<noteq> j"
    then show "unrelated (fst (pvs' ! i)) (fst (pvs' ! j))"
      using Cons.prems(3) [rule_format, of "Suc i" "Suc j"] unfolding pvs by simp
  qed
  from Cons.IH [OF o'(2) rest this] have
    set_rest: "\<forall>(p, v) \<in> set pvs'. get_at (VMap o2) p = Some v" and
    keep: "\<And>q. q \<noteq> [] \<Longrightarrow> \<forall>(p, v) \<in> set pvs'. unrelated p q \<Longrightarrow> get_at (VMap o2) q = get_at (VMap o') q"
    by blast+
  have w': "get_at (VMap o') p = Some v"
    "\<And>q. unrelated p q \<Longrightarrow> q \<noteq> [] \<Longrightarrow> get_at (VMap o') q = get_at (VMap o1) q"
    using w(1) o'(1) unfolding writes_def by blast+
  have "get_at (VMap o2) p = get_at (VMap o') p" by (rule keep) (use w(2) apart in auto)
  then show ?case unfolding pvs using set_rest keep w' by auto
qed

lemma option_writes:
  "writes (WithName n) [''metadata'', ''name''] (VStr n)"
  "writes (WithNamespace n) [''metadata'', ''namespace''] (VStr n)"
  "writes (WithLabels ls) [''metadata'', ''labels''] (VStrMap ls)"
  "writes (WithSpecNodeName n) [''spec'', ''nodeName''] (VStr n)"
  "writes (WithSpecReplicas r) [''spec'', ''replicas''] (VInt r)"
  "writes (WithStatefulSetStatusCurrentReplicas r) [''status'', ''currentReplicas''] (VInt r)"
  "writes (WithStatefulSetStatusUpdatedReplicas r) [''status'', ''updatedReplicas''] (VInt r)"
  "writes (WithStatefulSetStatusReadyReplicas r) [''status'', ''readyReplicas''] (VInt r)"
  unfolding unstructured_option_defs by (rule set_in_section_writes)+

text \<open>On an object whose sections are maps an option succeeds, and they stay maps.\<close>

definition sections_ok :: "obj \<Rightarrow> bool" where
  "sections_ok o1 \<longleftrightarrow> (\<forall>sec \<in> {''metadata'', ''spec'', ''status''}. \<forall>x. map_of o1 sec = Some x \<longrightarrow> is_map x)"

lemma set_in_section_ok:
  assumes "sections_ok o1" "sec \<in> {''metadata'', ''spec'', ''status''}"
  shows "\<exists>o2. set_in_section sec err key v o1 = Inr o2 \<and> sections_ok o2"
proof -
  obtain o2 where o2: "set_in_section sec err key v o1 = Inr o2"
    using assms set_in_section_result unfolding sections_ok_def by blast
  then have "\<forall>s x. map_of o2 s = Some x \<longrightarrow> is_map x \<or> map_of o1 s = Some x"
    by (auto simp: set_in_section_def Let_def map_of_with_key update_conv' split: option.splits val.splits if_splits)
  with o2 assms show ?thesis unfolding sections_ok_def by blast
qed

definition test_options :: "Option set" where
  "test_options = range WithName \<union> range WithNamespace \<union> range WithLabels \<union> range WithSpecNodeName \<union>
     range WithSpecReplicas \<union> range WithStatefulSetStatusCurrentReplicas \<union>
     range WithStatefulSetStatusUpdatedReplicas \<union> range WithStatefulSetStatusReadyReplicas"

lemma test_option_ok: "opt \<in> test_options \<Longrightarrow> sections_ok o1 \<Longrightarrow> \<exists>o2. opt o1 = Inr o2 \<and> sections_ok o2"
  unfolding test_options_def unstructured_option_defs by (auto intro!: set_in_section_ok)

lemma build_object_total:
  "set opts \<subseteq> test_options \<Longrightarrow> sections_ok o1 \<Longrightarrow> \<exists>o2. build_object opts o1 = Some o2 \<and> sections_ok o2"
proof (induction opts arbitrary: o1)
  case (Cons opt opts)
  then have "opt \<in> test_options" by simp
  from test_option_ok [OF this Cons.prems(2)] obtain o2 where "opt o1 = Inr o2" "sections_ok o2" by blast
  with Cons show ?case by auto
qed simp

lemma build_object_append:
  "build_object (opts @ opts') o1 = (case build_object opts o1 of None \<Rightarrow> None | Some o2 \<Rightarrow> build_object opts' o2)"
  by (induction opts arbitrary: o1) (auto split: sum.splits)

text \<open>No option touches a key of the object outside the three sections.\<close>

lemma test_option_keeps:
  "opt \<in> test_options \<Longrightarrow> opt o1 = Inr o2 \<Longrightarrow> k \<notin> {''metadata'', ''spec'', ''status''} \<Longrightarrow> map_of o2 k = map_of o1 k"
  unfolding test_options_def unstructured_option_defs
  by (auto simp: set_in_section_def Let_def map_of_with_key update_conv' split: option.splits val.splits)

lemma build_object_keeps:
  "set opts \<subseteq> test_options \<Longrightarrow> build_object opts o1 = Some o2 \<Longrightarrow> k \<notin> {''metadata'', ''spec'', ''status''} \<Longrightarrow>
   map_of o2 k = map_of o1 k"
  by (induction opts arbitrary: o1) (auto split: sum.splits dest: test_option_keeps)

text \<open>The constructors with the kind of the object each one makes.\<close>

definition test_constructors :: "((Option list \<Rightarrow> obj option) \<times> string) set" where
  "test_constructors = {(NewNATSStatefulSetUnStruct, ''StatefulSet''), (NewSecretUnStruct, ''Secret''),
     (NewNodeUnStruct, ''Node''), (NewPodUnStruct, ''Pod'')}"

lemma constructor_base:
  assumes "(new, kind) \<in> test_constructors"
  obtains o1 where "\<And>opts. new opts = build_object opts o1" "sections_ok o1" "map_of o1 ''kind'' = Some (VStr kind)"
  using assms unfolding test_constructors_def
  by (elim insertE emptyE)
    (auto simp: NewNATSStatefulSetUnStruct_def NewSecretUnStruct_def NewNodeUnStruct_def NewPodUnStruct_def
      sections_ok_def intro!: that)

text \<open>
  The constructors of the tests never end the process on the package's own options: they return an
  object of their kind, in which the option applied last has its value at its path and every other
  path, of the sections or outside them, is as the options before it left it.
\<close>

theorem test_objects_built:
  assumes "(new, kind) \<in> test_constructors" and opts: "set opts \<subseteq> test_options" and opt: "opt \<in> test_options"
    and w: "writes opt p v"
  shows "\<exists>before obj. new opts = Some before \<and> new (opts @ [opt]) = Some obj \<and>
    map_of obj ''kind'' = Some (VStr kind) \<and> get_at (VMap obj) p = Some v \<and>
    (\<forall>q. q \<noteq> [] \<longrightarrow> unrelated p q \<longrightarrow> get_at (VMap obj) q = get_at (VMap before) q)"
proof -
  from assms(1) obtain o1 where new: "\<And>opts. new opts = build_object opts o1" and ok: "sections_ok o1"
    and kind: "map_of o1 ''kind'' = Some (VStr kind)" by (rule constructor_base) blast
  obtain o2 where o2: "build_object opts o1 = Some o2" "sections_ok o2"
    using build_object_total [OF opts ok] by blast
  obtain o3 where o3: "opt o2 = Inr o3" using test_option_ok [OF opt o2(2)] by blast
  have built: "build_object (opts @ [opt]) o1 = Some o3" using o2(1) o3 by (simp add: build_object_append)
  have "map_of o3 ''kind'' = Some (VStr kind)"
    using build_object_keeps [OF _ built, of "''kind''"] opts opt kind by simp
  with new built o2(1) w o3 show ?thesis unfolding writes_def by auto
qed

theorem test_objects_built_witness:
  "\<exists>obj. NewNATSStatefulSetUnStruct ([WithName ''nats'', WithSpecReplicas 1] @ [WithSpecReplicas 3]) = Some obj \<and>
     get_at (VMap obj) [''spec'', ''replicas''] = Some (VInt 3) \<and> map_of obj ''kind'' = Some (VStr ''StatefulSet'')"
proof -
  have "(NewNATSStatefulSetUnStruct, ''StatefulSet'') \<in> test_constructors" by (simp add: test_constructors_def)
  moreover have "set [WithName ''nats'', WithSpecReplicas 1] \<subseteq> test_options" "WithSpecReplicas 3 \<in> test_options"
    by (auto simp: test_options_def)
  ultimately show ?thesis using test_objects_built [OF _ _ _ option_writes(5)] by blast
qed

text \<open>
  The labels such an option sets are a string map, which the manager's own option cannot extend: it
  expects the labels to be a nested map, as the YAML decoder makes them.
\<close>

lemma labelled_unmarkable:
  assumes "WithLabels ls o1 = Inr o2"
  shows "WithLabel key value o2 = Inl (Sentinel ErrFailedToConvertLabelsToMap)"
proof -
  have "get_at (VMap o2) [''metadata'', ''labels''] = Some (VStrMap ls)"
    using option_writes(3) assms unfolding writes_def by blast
  then obtain m where "map_of o2 ''metadata'' = Some (VMap m)" "map_of m ''labels'' = Some (VStrMap ls)"
    by (auto split: option.splits elim!: get_at.elims)
  then show ?thesis by (simp add: WithLabel_def Let_def map_of_with_key)
qed

section \<open>Random names\<close>

lemma rand_loop_spec:
  assumes law: "\<And>n w. 0 < n \<Longrightarrow> fst (intn n w) < n"
  shows "wp (rand_loop intn n) (\<lambda>r _. \<exists>s. r = Returned s \<and> length s = n \<and> set s \<subseteq> set charset) u"
proof (induction n arbitrary: u)
  case (Suc n)
  have pos: "0 < length charset" by (simp add: charset_def)
  obtain k w where k: "intn (length charset) (world u) = (k, w)" by force
  then have "k < length charset" using law [OF pos, of "world u"] by simp
  moreover have "wp (rand_loop intn n) (\<lambda>r t. wp (ret (case r of Panicked \<Rightarrow> Panicked | Returned s \<Rightarrow> Returned ((charset ! k) # s)))
      (\<lambda>r _. \<exists>s. r = Returned s \<and> length s = Suc n \<and> set s \<subseteq> set charset) t) (u\<lparr>world := w\<rparr>)"
    by (rule wp_mono [OF Suc.IH]) (use \<open>k < length charset\<close> in \<open>auto simp: wp_ret\<close>)
  ultimately show ?case
    using k by (simp add: wp_bind draw_def) (auto simp: wp_def split: prod.splits)
qed (simp add: wp_ret)

text \<open>A random name has the asked length and only characters of the charset; a negative length panics.\<close>

lemma GetRandString_spec:
  assumes "\<And>n w. 0 < n \<Longrightarrow> fst (intn n w) < n" "0 \<le> len"
  shows "wp (GetRandString intn len) (\<lambda>r _. \<exists>s. r = Returned s \<and> int (length s) = len \<and> set s \<subseteq> set charset) u"
  unfolding GetRandString_def if_not_P [OF leD [OF assms(2)]]
  by (rule wp_mono [OF rand_loop_spec [OF assms(1)]]) (use assms(2) in auto)

end
