(* ===== verification/Matchers.thy ===== *)
theory Matchers
  imports StatusTypes Testutils
begin

text \<open>
  \<^verbatim>\<open>testutils/matchers/nats/matchers.go\<close>: what the repository's tests expect of a resource and of the events
  recorded for it, and the proof that the reconciler's statuses and events meet it. gomega is a record of
  parameters: a matcher is the set of values it accepts, and each combinator of the package has the law
  its documentation states, for the types the source uses it at.
\<close>

section \<open>gomega\<close>

record Event =
  evReason :: string
  evMessage :: string
  evType :: string

record gomega =
  g_equal_string :: "string \<Rightarrow> string \<Rightarrow> bool"
  g_equal_bool :: "bool \<Rightarrow> bool \<Rightarrow> bool"
  g_equal_int :: "int \<Rightarrow> int \<Rightarrow> bool"
  g_be_true :: "bool \<Rightarrow> bool"
  g_and :: "(NATS \<Rightarrow> bool) list \<Rightarrow> NATS \<Rightarrow> bool"
  g_on_string :: "(NATS \<Rightarrow> string) \<Rightarrow> (string \<Rightarrow> bool) \<Rightarrow> NATS \<Rightarrow> bool"
  g_on_bool :: "(NATS \<Rightarrow> bool) \<Rightarrow> (bool \<Rightarrow> bool) \<Rightarrow> NATS \<Rightarrow> bool"
  g_on_int :: "(NATS \<Rightarrow> int) \<Rightarrow> (int \<Rightarrow> bool) \<Rightarrow> NATS \<Rightarrow> bool"
  g_on_conditions :: "(NATS \<Rightarrow> Condition list) \<Rightarrow> (Condition list \<Rightarrow> bool) \<Rightarrow> NATS \<Rightarrow> bool"
  g_on_events :: "(Event list \<Rightarrow> Event list) \<Rightarrow> (Event list \<Rightarrow> bool) \<Rightarrow> Event list \<Rightarrow> bool"
  g_contain_condition :: "(Condition \<Rightarrow> bool) \<Rightarrow> Condition list \<Rightarrow> bool"
  g_contain_event :: "(Event \<Rightarrow> bool) \<Rightarrow> Event list \<Rightarrow> bool"
  g_condition_fields :: "(string \<times> (string \<Rightarrow> bool)) list \<Rightarrow> Condition \<Rightarrow> bool"
  g_event_fields :: "(string \<times> (string \<Rightarrow> bool)) list \<Rightarrow> Event \<Rightarrow> bool"
  g_qty_equal :: "quantity \<Rightarrow> quantity \<Rightarrow> bool"
  g_rl_storage :: "resource_list \<Rightarrow> quantity"
  g_rl_cpu :: "resource_list \<Rightarrow> quantity"

section \<open>The matchers\<close>

definition HaveSpecJetsStreamMemStorage :: "gomega \<Rightarrow> MemStorage \<Rightarrow> NATS \<Rightarrow> bool" where
  "HaveSpecJetsStreamMemStorage G ms = g_and G [
     g_on_bool G (\<lambda>n. memEnabled (jsMemStorage (spJetStream (nSpec n)))) (g_equal_bool G (memEnabled ms)),
     g_on_bool G (\<lambda>n. g_qty_equal G (memSize (jsMemStorage (spJetStream (nSpec n)))) (memSize ms)) (g_be_true G)]"

definition HaveSpecJetStreamFileStorage :: "gomega \<Rightarrow> FileStorage \<Rightarrow> NATS \<Rightarrow> bool" where
  "HaveSpecJetStreamFileStorage G fs = g_and G [
     g_on_string G (\<lambda>n. fsStorageClassName (jsFileStorage (spJetStream (nSpec n))))
       (g_equal_string G (fsStorageClassName fs)),
     g_on_bool G (\<lambda>n. g_qty_equal G (fsSize (jsFileStorage (spJetStream (nSpec n)))) (fsSize fs)) (g_be_true G)]"

definition HaveSpecCluster :: "gomega \<Rightarrow> Cluster \<Rightarrow> NATS \<Rightarrow> bool" where
  "HaveSpecCluster G cluster = g_on_bool G (\<lambda>n. spCluster (nSpec n) = cluster) (g_be_true G)"

definition HaveSpecClusterSize :: "gomega \<Rightarrow> int \<Rightarrow> NATS \<Rightarrow> bool" where
  "HaveSpecClusterSize G size_n = g_on_int G (\<lambda>n. clusterSize (spCluster (nSpec n))) (g_equal_int G size_n)"

definition HaveSpecLogging :: "gomega \<Rightarrow> Logging \<Rightarrow> NATS \<Rightarrow> bool" where
  "HaveSpecLogging G logging = g_and G [
     g_on_bool G (\<lambda>n. logDebug (spLogging (nSpec n))) (g_equal_bool G (logDebug logging)),
     g_on_bool G (\<lambda>n. logTrace (spLogging (nSpec n))) (g_equal_bool G (logTrace logging))]"

definition HaveSpecLoggingDebug :: "gomega \<Rightarrow> bool \<Rightarrow> NATS \<Rightarrow> bool" where
  "HaveSpecLoggingDebug G enabled = g_on_bool G (\<lambda>n. logDebug (spLogging (nSpec n))) (g_equal_bool G enabled)"

definition HaveSpecLoggingTrace :: "gomega \<Rightarrow> bool \<Rightarrow> NATS \<Rightarrow> bool" where
  "HaveSpecLoggingTrace G enabled = g_on_bool G (\<lambda>n. logTrace (spLogging (nSpec n))) (g_equal_bool G enabled)"

text \<open>The third matcher compares the limits with the requests, the fourth repeats the second.\<close>

definition HaveSpecResources :: "gomega \<Rightarrow> ResourceRequirements \<Rightarrow> NATS \<Rightarrow> bool" where
  "HaveSpecResources G res = g_and G [
     g_on_bool G (\<lambda>n. g_qty_equal G (g_rl_storage G (resRequests (spResources (nSpec n))))
       (g_rl_storage G (resRequests res))) (g_be_true G),
     g_on_bool G (\<lambda>n. g_qty_equal G (g_rl_cpu G (resRequests (spResources (nSpec n))))
       (g_rl_cpu G (resRequests res))) (g_be_true G),
     g_on_bool G (\<lambda>n. g_qty_equal G (g_rl_storage G (resLimits (spResources (nSpec n))))
       (g_rl_storage G (resRequests res))) (g_be_true G),
     g_on_bool G (\<lambda>n. g_qty_equal G (g_rl_cpu G (resRequests (spResources (nSpec n))))
       (g_rl_cpu G (resRequests res))) (g_be_true G)]"

definition HaveStatusReady :: "gomega \<Rightarrow> NATS \<Rightarrow> bool" where
  "HaveStatusReady G = g_on_string G (\<lambda>n. stState (nStatus n)) (g_equal_string G StateReady)"

definition HaveStatusProcessing :: "gomega \<Rightarrow> NATS \<Rightarrow> bool" where
  "HaveStatusProcessing G = g_on_string G (\<lambda>n. stState (nStatus n)) (g_equal_string G StateProcessing)"

definition HaveStatusError :: "gomega \<Rightarrow> NATS \<Rightarrow> bool" where
  "HaveStatusError G = g_on_string G (\<lambda>n. stState (nStatus n)) (g_equal_string G StateError)"

definition HaveStatusWarning :: "gomega \<Rightarrow> NATS \<Rightarrow> bool" where
  "HaveStatusWarning G = g_on_string G (\<lambda>n. stState (nStatus n)) (g_equal_string G StateWarning)"

definition HaveCondition :: "gomega \<Rightarrow> Condition \<Rightarrow> NATS \<Rightarrow> bool" where
  "HaveCondition G condition = g_on_conditions G (\<lambda>n. stConditions (nStatus n))
     (g_contain_condition G (g_condition_fields G [
        (''Type'', g_equal_string G (cType condition)),
        (''Reason'', g_equal_string G (cReason condition)),
        (''Message'', g_equal_string G (cMessage condition)),
        (''Status'', g_equal_string G (cStatus condition))]))"

definition HaveEvent :: "gomega \<Rightarrow> Event \<Rightarrow> Event list \<Rightarrow> bool" where
  "HaveEvent G event = g_on_events G (\<lambda>l. l) (g_contain_event G (g_event_fields G [
     (''Reason'', g_equal_string G (evReason event)),
     (''Message'', g_equal_string G (evMessage event)),
     (''Type'', g_equal_string G (evType event))]))"

definition HaveDeployedEvent :: "gomega \<Rightarrow> Event list \<Rightarrow> bool" where
  "HaveDeployedEvent G = HaveEvent G \<lparr>evReason = ConditionReasonDeployed,
     evMessage = ''StatefulSet is ready and NATS is deployed.'', evType = EventTypeNormal\<rparr>"

definition HaveDeployingEvent :: "gomega \<Rightarrow> Event list \<Rightarrow> bool" where
  "HaveDeployingEvent G = HaveEvent G \<lparr>evReason = ConditionReasonDeploying,
     evMessage = ''NATS is being deployed, waiting for StatefulSet to get ready.'', evType = EventTypeNormal\<rparr>"

definition HaveProcessingEvent :: "gomega \<Rightarrow> Event list \<Rightarrow> bool" where
  "HaveProcessingEvent G = HaveEvent G \<lparr>evReason = ConditionReasonProcessing,
     evMessage = ''Initializing NATS resource.'', evType = EventTypeNormal\<rparr>"

definition test_condition :: "string \<Rightarrow> string \<Rightarrow> string \<Rightarrow> string \<Rightarrow> Condition" where
  "test_condition ty st rn msg = zeroCondition\<lparr>cType := ty, cStatus := st, cReason := rn, cMessage := msg\<rparr>"

definition HaveReadyConditionStatefulSet :: "gomega \<Rightarrow> NATS \<Rightarrow> bool" where
  "HaveReadyConditionStatefulSet G = HaveCondition G
     (test_condition ConditionStatefulSet ConditionTrue ConditionReasonStatefulSetAvailable ''StatefulSet is ready'')"

definition HavePendingConditionStatefulSet :: "gomega \<Rightarrow> NATS \<Rightarrow> bool" where
  "HavePendingConditionStatefulSet G = HaveCondition G
     (test_condition ConditionStatefulSet ConditionFalse ConditionReasonStatefulSetPending [])"

definition HaveForbiddenConditionStatefulSet :: "gomega \<Rightarrow> NATS \<Rightarrow> bool" where
  "HaveForbiddenConditionStatefulSet G = HaveCondition G
     (test_condition ConditionStatefulSet ConditionFalse ConditionReasonForbidden [])"

definition HaveReadyConditionAvailable :: "gomega \<Rightarrow> NATS \<Rightarrow> bool" where
  "HaveReadyConditionAvailable G = HaveCondition G
     (test_condition ConditionAvailable ConditionTrue ConditionReasonDeployed ''NATS is deployed'')"

definition HaveDeployingConditionAvailable :: "gomega \<Rightarrow> NATS \<Rightarrow> bool" where
  "HaveDeployingConditionAvailable G = HaveCondition G
     (test_condition ConditionAvailable ConditionFalse ConditionReasonDeploying [])"

definition HaveForbiddenConditionAvailableWithMsg :: "gomega \<Rightarrow> string \<Rightarrow> NATS \<Rightarrow> bool" where
  "HaveForbiddenConditionAvailableWithMsg G msg = HaveCondition G
     (test_condition ConditionAvailable ConditionFalse ConditionReasonForbidden msg)"

section \<open>What gomega promises\<close>

definition gomega_law :: "gomega \<Rightarrow> bool" where
  "gomega_law G \<longleftrightarrow>
     (\<forall>x y. g_equal_string G x y = (x = y)) \<and> (\<forall>x y. g_equal_bool G x y = (x = y)) \<and>
     (\<forall>x y. g_equal_int G x y = (x = y)) \<and> (\<forall>b. g_be_true G b = b) \<and>
     (\<forall>ms n. g_and G ms n = list_all (\<lambda>m. m n) ms) \<and>
     (\<forall>f m n. g_on_string G f m n = m (f n)) \<and> (\<forall>f m n. g_on_bool G f m n = m (f n)) \<and>
     (\<forall>f m n. g_on_int G f m n = m (f n)) \<and> (\<forall>f m n. g_on_conditions G f m n = m (f n)) \<and>
     (\<forall>f m l. g_on_events G f m l = m (f l)) \<and>
     (\<forall>m cs. g_contain_condition G m cs = list_ex m cs) \<and> (\<forall>m es. g_contain_event G m es = list_ex m es) \<and>
     (\<forall>fs c. g_condition_fields G fs c = list_all (\<lambda>(f, m).
        m (if f = ''Type'' then cType c else if f = ''Reason'' then cReason c
           else if f = ''Message'' then cMessage c else cStatus c)) fs) \<and>
     (\<forall>fs e. g_event_fields G fs e = list_all (\<lambda>(f, m).
        m (if f = ''Reason'' then evReason e else if f = ''Message'' then evMessage e else evType e)) fs)"

text \<open>A concrete gomega that does this.\<close>

definition ref_gomega :: gomega where
  "ref_gomega = \<lparr>g_equal_string = (=), g_equal_bool = (=), g_equal_int = (=), g_be_true = (\<lambda>b. b),
     g_and = (\<lambda>ms n. list_all (\<lambda>m. m n) ms), g_on_string = (\<lambda>f m n. m (f n)), g_on_bool = (\<lambda>f m n. m (f n)),
     g_on_int = (\<lambda>f m n. m (f n)), g_on_conditions = (\<lambda>f m n. m (f n)), g_on_events = (\<lambda>f m l. m (f l)),
     g_contain_condition = list_ex, g_contain_event = list_ex,
     g_condition_fields = (\<lambda>fs c. list_all (\<lambda>(f, m).
        m (if f = ''Type'' then cType c else if f = ''Reason'' then cReason c
           else if f = ''Message'' then cMessage c else cStatus c)) fs),
     g_event_fields = (\<lambda>fs e. list_all (\<lambda>(f, m).
        m (if f = ''Reason'' then evReason e else if f = ''Message'' then evMessage e else evType e)) fs),
     g_qty_equal = (\<lambda>p q. ref_qty_value p = ref_qty_value q),
     g_rl_storage = (\<lambda>rl. case map_of rl ''storage'' of Some q \<Rightarrow> q | None \<Rightarrow> QuantityZero),
     g_rl_cpu = (\<lambda>rl. case map_of rl ''cpu'' of Some q \<Rightarrow> q | None \<Rightarrow> QuantityZero)\<rparr>"

lemma ref_gomega_law: "gomega_law ref_gomega"
  by (simp add: gomega_law_def ref_gomega_def)

lemma gomega_rules:
  assumes "gomega_law G"
  shows "g_equal_string G x y \<longleftrightarrow> x = y" and "g_equal_bool G b c \<longleftrightarrow> b = c" and "g_equal_int G i j \<longleftrightarrow> i = j"
    and "g_be_true G b \<longleftrightarrow> b" and "g_and G ms n \<longleftrightarrow> list_all (\<lambda>m. m n) ms"
    and "g_on_string G f ps n \<longleftrightarrow> ps (f n)" and "g_on_bool G fb pb n \<longleftrightarrow> pb (fb n)"
    and "g_on_int G fi pi n \<longleftrightarrow> pi (fi n)" and "g_on_conditions G fc pc n \<longleftrightarrow> pc (fc n)"
    and "g_on_events G fe pe l \<longleftrightarrow> pe (fe l)"
    and "g_contain_condition G mc cs \<longleftrightarrow> list_ex mc cs" and "g_contain_event G me es \<longleftrightarrow> list_ex me es"
    and "g_condition_fields G fs cd \<longleftrightarrow> list_all (\<lambda>(f, m).
        m (if f = ''Type'' then cType cd else if f = ''Reason'' then cReason cd
           else if f = ''Message'' then cMessage cd else cStatus cd)) fs"
    and "g_event_fields G fs ev \<longleftrightarrow> list_all (\<lambda>(f, m).
        m (if f = ''Reason'' then evReason ev else if f = ''Message'' then evMessage ev else evType ev)) fs"
  using assms by (simp_all add: gomega_law_def)

lemma have_state:
  assumes "gomega_law G"
  shows "HaveStatusReady G n \<longleftrightarrow> stState (nStatus n) = StateReady"
    and "HaveStatusProcessing G n \<longleftrightarrow> stState (nStatus n) = StateProcessing"
    and "HaveStatusError G n \<longleftrightarrow> stState (nStatus n) = StateError"
    and "HaveStatusWarning G n \<longleftrightarrow> stState (nStatus n) = StateWarning"
  by (auto simp: HaveStatusReady_def HaveStatusProcessing_def HaveStatusError_def HaveStatusWarning_def
      gomega_rules [OF assms])

lemma have_condition:
  assumes "gomega_law G" and "aConds (abs_status (nStatus n)) ty = Some (st, rn, msg)"
  shows "HaveCondition G (test_condition ty st rn msg) n"
proof -
  obtain c where "find_condition ty (stConditions (nStatus n)) = Some c" "cond_body c = (st, rn, msg)"
    using assms(2) by (auto simp: abs_status_def map_of_core)
  then have "c \<in> set (stConditions (nStatus n))" "cType c = ty" "cStatus c = st" "cReason c = rn" "cMessage c = msg"
    by (auto dest: find_condition_Some simp: cond_body_def)
  then show ?thesis
    by (auto simp: HaveCondition_def gomega_rules [OF assms(1)] list_ex_iff test_condition_def)
qed

text \<open>The events a run recorded whose message has no operands.\<close>

fun plain_event :: "action \<Rightarrow> Event option" where
  "plain_event (AEvent ty rn fmt []) = Some \<lparr>evReason = rn, evMessage = fmt, evType = ty\<rparr>"
| "plain_event _ = None"

lemma collect_member: "x \<in> set xs \<Longrightarrow> f x = Some y \<Longrightarrow> y \<in> set (collect f xs)"
  by (induction xs) (auto split: option.splits)

lemma have_event:
  assumes "gomega_law G" "AEvent ty rn fmt [] \<in> set as"
  shows "HaveEvent G \<lparr>evReason = rn, evMessage = fmt, evType = ty\<rparr> (collect plain_event as)"
proof -
  have "\<lparr>evReason = rn, evMessage = fmt, evType = ty\<rparr> \<in> set (collect plain_event as)"
    using assms(2) by (rule collect_member) simp
  then show ?thesis by (auto simp: HaveEvent_def gomega_rules [OF assms(1)] list_ex_iff intro!: bexI)
qed

section \<open>The reconciler passes\<close>

definition records :: "action \<Rightarrow> (('w, 'z) host_scheme, 'a) state \<Rightarrow> bool" where
  "records a m \<longleftrightarrow> (\<forall>s r s'. run_state m s = (r, s') \<longrightarrow> (\<exists>as. trace s' = trace s @ as \<and> a \<in> set as))"

lemma recordsI:
  "(\<And>s r s'. run_state m s = (r, s') \<Longrightarrow> \<exists>as. trace s' = trace s @ as \<and> a \<in> set as) \<Longrightarrow> records a m"
  by (simp add: records_def)

lemma recordsE:
  assumes "records a m" "run_state m s = (r, s')"
  obtains as where "trace s' = trace s @ as" "a \<in> set as"
  using assms unfolding records_def by blast

lemma records_left:
  assumes m: "records a m" and k: "\<And>x. state_io_rel (emits (\<lambda>_. True)) (k x)"
  shows "records a (m \<bind> k)"
proof (rule recordsI)
  fix s r s' assume "run_state (m \<bind> k) s = (r, s')"
  then obtain x t where 1: "run_state m s = (x, t)" and 2: "run_state (k x) t = (r, s')" by (rule run_bindE)
  obtain as where "trace t = trace s @ as" "a \<in> set as" by (rule recordsE [OF m 1])
  moreover obtain bs where "trace s' = trace t @ bs" using state_io_relD [OF k 2] by (auto simp: emits_def)
  ultimately show "\<exists>as. trace s' = trace s @ as \<and> a \<in> set as" by auto
qed

lemma records_right:
  assumes m: "state_io_rel (emits (\<lambda>_. True)) m" and k: "\<And>x. records a (k x)"
  shows "records a (m \<bind> k)"
proof (rule recordsI)
  fix s r s' assume "run_state (m \<bind> k) s = (r, s')"
  then obtain x t where 1: "run_state m s = (x, t)" and 2: "run_state (k x) t = (r, s')" by (rule run_bindE)
  obtain as where "trace s' = trace t @ as" "a \<in> set as" by (rule recordsE [OF k 2])
  moreover obtain bs where "trace t = trace s @ bs" using state_io_relD [OF m 1] by (auto simp: emits_def)
  ultimately show "\<exists>as. trace s' = trace s @ as \<and> a \<in> set as" by auto
qed

lemma records_event: "records (AEvent EventTypeNormal rn fmt args) (eventNormal L rn fmt args)"
  by (rule recordsI) (auto simp: eventNormal_def recorderEventf_def ext_do_def)

text \<open>The statuses a run writes, and the events it records, satisfy these matchers.\<close>

definition run_passes ::
  "(NATS \<Rightarrow> bool) list \<Rightarrow> (Event list \<Rightarrow> bool) \<Rightarrow> action list \<Rightarrow> bool" where
  "run_passes ms ev as \<longleftrightarrow> (\<forall>n e. AUpdateStatus n e \<in> set as \<longrightarrow> list_all (\<lambda>m. m n) ms) \<and> ev (collect plain_event as)"

lemma emits_member:
  "emits P s s' \<Longrightarrow> run_state m s = (r, s') \<Longrightarrow> a \<in> set (new_actions m s) \<Longrightarrow> P a"
  by (auto simp: emits_def new_actions_def list_all_iff)

lemma writes_abs_member:
  assumes "emits (writes_abs a) s s'" "run_state m s = (r, s')" "AUpdateStatus n e \<in> set (new_actions m s)"
  shows "abs_status (nStatus n) = a"
  using emits_member [OF assms] by (simp add: writes_abs_def)

lemma records_later:
  assumes "records a m" "run_state m t = (r, s')" "emits P s t"
  shows "\<exists>as. trace s' = trace s @ as \<and> a \<in> set as"
proof -
  obtain as where "trace s' = trace t @ as" "a \<in> set as" by (rule recordsE [OF assms(1,2)])
  with assms(3) show ?thesis by (auto simp: emits_def)
qed

lemma state_events:
  fixes s :: "('w, 'z) reconciler_scheme"
  assumes ready: "run_state (IsNATSStatefulSetReady L inst) s = (Returned (Inr b), s1)"
    and run: "run_state (handleNATSState L nats inst) s = (out, s')"
  shows "\<exists>as. trace s' = trace s @ as \<and>
    (if b then AEvent EventTypeNormal ConditionReasonDeployed ''StatefulSet is ready and NATS is deployed.'' []
      else AEvent EventTypeNormal ConditionReasonDeploying
        ''NATS is being deployed, waiting for StatefulSet to get ready.'' []) \<in> set as"
proof -
  note rest = run [unfolded handleNATSState_def bind_left_identity, unfolded run_bind [OF ready] outcome.case sum.case]
  have e1: "emits (writes_abs undefined) s s1" using writes_abs_ready ready by (rule state_io_relD)
  show ?thesis
  proof (cases b)
    case True
    note run_tail = rest [unfolded eqTrueI [OF True] not_True_eq_False if_False]
    have "\<exists>as. trace s' = trace s @ as \<and>
      AEvent EventTypeNormal ConditionReasonDeployed ''StatefulSet is ready and NATS is deployed.'' [] \<in> set as"
      by (rule records_later [OF records_right [OF _ records_left [OF records_event]] run_tail e1];
         (simp only: report_zones_def zones_status_def Let_def)?;
         intro emit_rec.fr emit_rec.status_ops emit_rec.zones_count emit_rec.metric_ops emit_rec.event_ops emit_rec.sync_status; simp)
    with True show ?thesis by simp
  next
    case False
    note run_tail = rest [unfolded if_P [OF False]]
    have "\<exists>as. trace s' = trace s @ as \<and> AEvent EventTypeNormal ConditionReasonDeploying
        ''NATS is being deployed, waiting for StatefulSet to get ready.'' [] \<in> set as"
      by (rule records_later [OF records_right [OF _ records_right [OF _ records_left [OF records_event]]] run_tail e1];
         intro emit_rec.fr emit_rec.status_ops emit_rec.metric_ops emit_rec.sync_status; simp)
    with False show ?thesis by simp
  qed
qed


lemma head_event:
  fixes s :: "('w, 'z) reconciler_scheme"
  assumes "provisioned L C nats s st i x"
  shows "\<exists>as. trace x = trace s @ as \<and>
    AEvent EventTypeNormal ConditionReasonProcessing ''Initializing NATS resource.'' [] \<in> set as"
proof -
  let ?ev = "AEvent EventTypeNormal ConditionReasonProcessing ''Initializing NATS resource.'' []"
  have "records ?ev (provision_head L nats :: ('w, 'z, _) rec_m)"
    unfolding provision_head_def
    by (rule records_right [OF _ records_right [OF _ records_right [OF _ records_left [OF records_event]]]];
        intro emit_rec.fr emit_rec.metric_ops emit_rec.cloud_provider emit_rec.status_ops; simp)
  moreover have "state_io_rel (emits (\<lambda>_. True)) (initNATSInstance L C n :: ('w, 'z, _) rec_m)" for n
    by (rule emit_rec.init_instance) simp
  moreover have "state_io_rel (emits (\<lambda>_. True)) (DeployInstance L fm j :: ('w, 'z, _) rec_m)" for fm j
    by (rule emit_rec.deploy) simp
  moreover have "state_io_rel (emits (\<lambda>_. True)) (startDestinationRuleWatch L j :: ('w, 'z, _) rec_m)" for j
    by (rule emit_rec.start_watch) simp_all
  ultimately show ?thesis
    using assms unfolding provisioned_def records_def
    by (fastforce dest: state_io_relD simp: emits_def)
qed

section \<open>The statuses the matchers accept\<close>

text \<open>The matcher of the resource requirements accepts whatever limits are expected.\<close>

lemma have_spec_resources_limits: "HaveSpecResources G (res\<lparr>resLimits := limits\<rparr>) n = HaveSpecResources G res n"
  by (simp add: HaveSpecResources_def)

lemma deployed_accepted:
  assumes g: "gomega_law G" and a: "abs_status (nStatus n) = deployed_spec nats zones a"
  shows "HaveReadyConditionStatefulSet G n" "HaveReadyConditionAvailable G n"
    and "zones = Inr (clusterSize (spCluster (nSpec nats))) \<Longrightarrow> HaveStatusReady G n"
proof -
  show "HaveReadyConditionStatefulSet G n" "HaveReadyConditionAvailable G n"
    unfolding HaveReadyConditionStatefulSet_def HaveReadyConditionAvailable_def
    by (rule have_condition [OF g], simp add: a deployed_spec_def zones_spec_def spec_ready_def const_defs
        split: sum.splits)+
  show "HaveStatusReady G n" if z: "zones = Inr (clusterSize (spCluster (nSpec nats)))"
    using arg_cong [OF a, of aState] z
    by (simp add: have_state [OF g] abs_status_def deployed_spec_def zones_spec_def spec_ready_def split: if_splits)
qed

lemma waiting_accepted:
  assumes g: "gomega_law G" and a: "abs_status (nStatus n) = (spec_waiting a)\<lparr>aZones := z\<rparr>"
  shows "HavePendingConditionStatefulSet G n" "HaveDeployingConditionAvailable G n" "HaveStatusProcessing G n"
proof -
  show "HavePendingConditionStatefulSet G n" "HaveDeployingConditionAvailable G n"
    unfolding HavePendingConditionStatefulSet_def HaveDeployingConditionAvailable_def
    by (rule have_condition [OF g], simp add: a spec_waiting_def const_defs)+
  show "HaveStatusProcessing G n"
    using arg_cong [OF a, of aState] by (simp add: have_state [OF g] abs_status_def spec_waiting_def)
qed

section \<open>The property\<close>

text \<open>What a run left of the resource: the last thing it did was to write it, or to read it.\<close>

definition left_with :: "string \<Rightarrow> string \<Rightarrow> NATS \<Rightarrow> action list \<Rightarrow> bool" where
  "left_with name ns n as \<longleftrightarrow> (\<exists>pre r. as = pre @ [AGetNATS name ns (Inr n)] \<or>
     as = pre @ [AGetNATS name ns (Inr r), AUpdateStatus n None])"

lemma IsEqual_abs:
  assumes wf: "wf_status b" and ne: "[] \<notin> dom (aConds (abs_status b))" and eq: "IsEqual a b"
  shows "abs_status a = abs_status b"
proof -
  have d: "distinct (map cType (stConditions b))" "[] \<notin> set (map cType (stConditions b))"
    using wf ne by (simp_all add: wf_status_def dom_abs)
  from eq IsEqual_iff [OF d, of a] have m: "stState a = stState b" "stURL a = stURL b"
    "stAvailabilityZonesUsed a = stAvailabilityZonesUsed b"
    "mset (map cond_core (stConditions a)) = mset (map cond_core (stConditions b))" by blast+
  have db: "distinct (map fst (map cond_core (stConditions b)))" using d(1) unfolding map_cType_core .
  have "mset (map fst (map cond_core (stConditions a))) = mset (map fst (map cond_core (stConditions b)))"
    unfolding mset_map [of fst] m(4) ..
  then have "distinct (map fst (map cond_core (stConditions a)))"
    using db mset_eq_imp_distinct_iff by blast
  from map_of_inject_set [OF this db] mset_eq_setD [OF m(4)]
  have "map_of (map cond_core (stConditions a)) = map_of (map cond_core (stConditions b))" by blast
  with m(1-3) show ?thesis by (simp add: abs_status_def)
qed

lemma published_left:
  assumes "published name ns a tr" "[] \<notin> dom (aConds a)"
  shows "\<exists>n. left_with name ns n tr \<and> abs_status (nStatus n) = a"
proof -
  obtain pre actual x where x: "wf_status x" "abs_status x = a"
    and cs: "tr = pre @ [AGetNATS name ns (Inr actual)] \<and> IsEqual (nStatus actual) x \<or>
      tr = pre @ [AGetNATS name ns (Inr actual), AUpdateStatus (actual\<lparr>nStatus := x\<rparr>) None]"
    using assms(1) unfolding published_def by blast
  from cs show ?thesis
  proof (elim disjE conjE)
    assume "tr = pre @ [AGetNATS name ns (Inr actual)]" "IsEqual (nStatus actual) x"
    then show ?thesis
      using IsEqual_abs [OF x(1)] x(2) assms(2) unfolding left_with_def by blast
  next
    assume "tr = pre @ [AGetNATS name ns (Inr actual), AUpdateStatus (actual\<lparr>nStatus := x\<rparr>) None]"
    then show ?thesis
      using x(2) unfolding left_with_def by (intro exI [of _ "actual\<lparr>nStatus := x\<rparr>"]) simp
  qed
qed

text \<open>
  C39. A provisioning run that deploys is what the repository's own matchers expect of it. It records the
  processing event, and the deployed event when the StatefulSets are ready, else the deploying event. When
  it returns no error it leaves the resource, as it wrote it or found it at its end, with a status the
  matchers accept, and so is every status it writes: while the StatefulSets are not ready by
  \<^verbatim>\<open>HaveStatusProcessing\<close>, \<^verbatim>\<open>HavePendingConditionStatefulSet\<close> and \<^verbatim>\<open>HaveDeployingConditionAvailable\<close>, else
  by \<^verbatim>\<open>HaveReadyConditionStatefulSet\<close> and \<^verbatim>\<open>HaveReadyConditionAvailable\<close>, and by \<^verbatim>\<open>HaveStatusReady\<close> if the run
  counts as many zones as the cluster has nodes.
\<close>

theorem run_meets_matchers:
  fixes s :: "('w, 'z) reconciler_scheme"
  assumes g: "gomega_law G" and law: "ssc_law (meta L)" "wf_status (nStatus nats)"
    and types: "[] \<notin> set (map cType (stConditions (nStatus nats)))"
    and fin: "containsFinalizer (meta L) nats" and prov: "provisioned L C nats s st i x"
    and ready: "run_state (IsNATSStatefulSetReady L i) x = (Returned (Inr b), y)"
    and run: "run_state (handleNATSReconcile L C nats) s = (out, s')"
  shows "let as = new_actions (handleNATSReconcile L C nats) s; es = collect plain_event as;
      zones = count_zones L (nats\<lparr>nStatus := st\<rparr>) y;
      accepted = (\<lambda>n. if b
        then HaveReadyConditionStatefulSet G n \<and> HaveReadyConditionAvailable G n \<and>
          (zones = Inr (clusterSize (spCluster (nSpec nats))) \<longrightarrow> HaveStatusReady G n)
        else HavePendingConditionStatefulSet G n \<and> HaveDeployingConditionAvailable G n \<and> HaveStatusProcessing G n)
    in HaveProcessingEvent G es \<and> (if b then HaveDeployedEvent G es else HaveDeployingEvent G es) \<and>
      (\<forall>n e. AUpdateStatus n e \<in> set as \<longrightarrow> accepted n) \<and>
      (\<exists>res err. out = Returned (res, err) \<and>
        (err = None \<longrightarrow> (\<exists>n. left_with (nName nats) (nNamespace nats) n (trace s') \<and> accepted n)))"
proof -
  let ?n = "nats\<lparr>nStatus := st\<rparr>"
  obtain t where "run_state (provision_head L nats) s = (st, t)" using prov by (auto simp: provisioned_def)
  from head_status [OF law this] have st: "wf_status (nStatus ?n)"
    "abs_status (nStatus ?n) = spec_initialize (abs_status (nStatus nats))" by simp_all
  let ?a = "(abs_status (nStatus ?n))\<lparr>aURL := []\<rparr>"
  have run_state: "run_state (handleNATSState L ?n i) x = (out, s')"
    using run unfolding provisioned_run [OF fin prov] .
  obtain as bs where as: "trace x = trace s @ as" and bs: "trace s' = trace x @ bs"
    and ev: "AEvent EventTypeNormal ConditionReasonProcessing ''Initializing NATS resource.'' [] \<in> set as"
      "(if b then AEvent EventTypeNormal ConditionReasonDeployed ''StatefulSet is ready and NATS is deployed.'' []
        else AEvent EventTypeNormal ConditionReasonDeploying
          ''NATS is being deployed, waiting for StatefulSet to get ready.'' []) \<in> set bs"
    using head_event [OF prov] state_events [OF ready run_state] by metis
  have new: "new_actions (handleNATSReconcile L C nats) s = as @ bs"
    using run as bs by (simp add: new_actions_def)
  have quiet: "AUpdateStatus n e \<notin> set as" for n e
    using provisioned_quiet [OF prov] as by (auto simp: emits_def list_all_iff)
  have written: "abs_status (nStatus n) = c" if "emits (writes_abs c) x s'" "AUpdateStatus n e \<in> set (as @ bs)" for c n e
    using that quiet bs by (auto simp: emits_def list_all_iff writes_abs_def)
  note events = have_event [OF g, of _ _ _ "as @ bs"]
  note table = state_outcome [OF law(1) st(1) ready run_state]
  have processing: "HaveProcessingEvent G (collect plain_event (as @ bs))"
    unfolding HaveProcessingEvent_def by (rule events) (simp add: ev)
  have based: "based_on nats ?a" unfolding st(2) by (intro based_on_specs)
  have named: "[] \<notin> dom (aConds c)" if "typed_abs nats c" for c
    using that types by (auto simp: typed_abs_def dom_abs known_types_def const_defs)
  show ?thesis
  proof (cases b)
    case True
    let ?zones = "count_zones L ?n y"
    let ?d = "deployed_spec nats ?zones ?a"
    let ?P = "\<lambda>n. HaveReadyConditionStatefulSet G n \<and> HaveReadyConditionAvailable G n \<and>
      (?zones = Inr (clusterSize (spCluster (nSpec nats))) \<longrightarrow> HaveStatusReady G n)"
    have event: "HaveDeployedEvent G (collect plain_event (as @ bs))"
      unfolding HaveDeployedEvent_def by (rule events) (use ev(2) True in simp)
    obtain err where out: "out = Returned (emptyResult, err)" and e: "emits (writes_abs ?d) x s'"
      and p: "err = None \<longrightarrow> published (nName nats) (nNamespace nats) ?d (trace s')"
      using table True by (auto simp: Let_def)
    have accepted: "?P n" if "abs_status (nStatus n) = ?d" for n
      using deployed_accepted [OF g that] by blast
    have w: "\<forall>n e. AUpdateStatus n e \<in> set (as @ bs) \<longrightarrow> ?P n"
      using accepted written [OF e] by blast
    have l: "err = None \<longrightarrow> (\<exists>n. left_with (nName nats) (nNamespace nats) n (trace s') \<and> ?P n)"
      using p published_left named [OF typed_specs(3) [OF based]] accepted by blast
    show ?thesis
      unfolding new Let_def if_P [OF True]
      by (intro conjI processing event w exI [of _ emptyResult] exI [of _ err] out l)
  next
    case False
    let ?d = "(spec_waiting ?a)\<lparr>aZones := 0\<rparr>"
    let ?P = "\<lambda>n. HavePendingConditionStatefulSet G n \<and> HaveDeployingConditionAvailable G n \<and> HaveStatusProcessing G n"
    have event: "HaveDeployingEvent G (collect plain_event (as @ bs))"
      unfolding HaveDeployingEvent_def by (rule events) (use ev(2) False in simp)
    obtain res err where out: "out = Returned (res, err)" and e: "emits (writes_abs ?d) x s'"
      and p: "err = None \<longrightarrow> published (nName nats) (nNamespace nats) ?d (trace s')"
      using table False by (auto simp: Let_def)
    have accepted: "?P n" if "abs_status (nStatus n) = ?d" for n
      using waiting_accepted [OF g that] by blast
    have w: "\<forall>n e. AUpdateStatus n e \<in> set (as @ bs) \<longrightarrow> ?P n"
      using accepted written [OF e] by blast
    have l: "err = None \<longrightarrow> (\<exists>n. left_with (nName nats) (nNamespace nats) n (trace s') \<and> ?P n)"
      using p published_left named [OF typed_specs(2) [OF based]] accepted by blast
    show ?thesis
      unfolding new Let_def if_not_P [OF False]
      by (intro conjI processing event w exI [of _ res] exI [of _ err] out l)
  qed
qed

text \<open>The example's cluster runs in three zones: the run leaves it \<^verbatim>\<open>Ready\<close>.\<close>

theorem run_meets_matchers_witness:
  "let m = handleNATSReconcile demo_light (demo_config (Some demo_nats)) demo_finalized;
       es = collect plain_event (new_actions m demo_read)
   in HaveProcessingEvent ref_gomega es \<and> HaveDeployedEvent ref_gomega es \<and>
     (\<exists>n res err. fst (run_state m demo_read) = Returned (res, err) \<and>
       (err = None \<longrightarrow> left_with ''eventing-nats'' ''kyma-system'' n (trace (snd (run_state m demo_read))) \<and>
         HaveReadyConditionStatefulSet ref_gomega n \<and> HaveReadyConditionAvailable ref_gomega n \<and> HaveStatusReady ref_gomega n))"
proof -
  obtain st i x y where p: "provisioned demo_light (demo_config (Some demo_nats)) demo_finalized demo_read st i x"
    "run_state (IsNATSStatefulSetReady demo_light i) x = (Returned (Inr True), y)"
    using light_provisioned [OF light_overrides] by blast
  have zones: "count_zones demo_light n y = Inr 3" for n
    by (rule lit_counted [OF provisioned_grows [OF p]]) (simp add: demo_read_def)
  have size: "clusterSize (spCluster (nSpec demo_finalized)) = 3" by (simp add: demo_finalized_def demo_nats_def demo_spec_def)
  have types: "[] \<notin> set (map cType (stConditions (nStatus demo_finalized)))"
    by (simp add: demo_finalized_def demo_settled_def demo_condition_def const_defs)
  have name: "nName demo_finalized = ''eventing-nats''" "nNamespace demo_finalized = ''kyma-system''"
    by (simp_all add: demo_finalized_def demo_nats_def)
  from run_meets_matchers [OF ref_gomega_law light_law types light_facts(3) p prod.collapse [symmetric]]
  show ?thesis unfolding Let_def zones size name if_True simp_thms by blast
qed

end
