(* ===== verification/TestEnv.thy ===== *)
theory TestEnv
  imports Matchers Startup
begin

text \<open>
  \<^verbatim>\<open>testutils/integration/integration.go\<close>: the environment of the integration tests. The client of the
  tests, the dynamic client, testify, retry-go and envtest are records of parameters. A check that calls
  \<^verbatim>\<open>require\<close> has the result \<open>True\<close> when the test goes on and \<open>False\<close> when it is failed. Inside a poll, a
  panic and \<^verbatim>\<open>FailNow\<close> are the outcome \<open>Panicked\<close>. Logging is left out.
\<close>

section \<open>Constants\<close>

definition test_NATSChartDir :: string where "test_NATSChartDir = ''resources/nats''"
definition testEnvStartDelay :: int where "testEnvStartDelay = 60 * time_Second"
definition testEnvStartAttempts :: nat where "testEnvStartAttempts = 10"
definition BigPollingInterval :: int where "BigPollingInterval = 3 * time_Second"
definition BigTimeOut :: int where "BigTimeOut = 40 * time_Second"
definition SmallTimeOut :: int where "SmallTimeOut = 5 * time_Second"
definition SmallPollingInterval :: int where "SmallPollingInterval = 1 * time_Second"
definition NATSContainerName :: string where "NATSContainerName = ''nats''"
definition NATSConfigFileName :: string where "NATSConfigFileName = ''nats.conf''"

section \<open>The cluster the tests see\<close>

record claim_template =
  ctStorageClassName :: "string option"
  ctStorage :: quantity

record TestStatefulSet =
  tsLabels :: str_map
  tsAnnotations :: str_map
  tsReplicas :: "int option"
  tsContainers :: "ResourceRequirements container list"
  tsClaimTemplates :: "claim_template list"

record TestPVC =
  tpName :: string
  tpDeletionTimestamp :: "mtime option"

text \<open>An object handed to the client: a whole one, or only the kind and the name of the one to delete.\<close>

datatype test_object =
    TNamespace Namespace
  | TNATS NATS
  | TStatefulSet TestStatefulSet
  | TUnstructured obj
  | TNamed string string string

record 'w test_api =
  tc_create :: "test_object \<Rightarrow> 'w \<Rightarrow> go_error option \<times> 'w"
  tc_update :: "test_object \<Rightarrow> 'w \<Rightarrow> go_error option \<times> 'w"
  tc_status_update :: "test_object \<Rightarrow> 'w \<Rightarrow> go_error option \<times> 'w"
  tc_delete :: "test_object \<Rightarrow> 'w \<Rightarrow> go_error option \<times> 'w"
  tc_get_nats :: "string \<Rightarrow> string \<Rightarrow> 'w \<Rightarrow> (go_error + NATS) \<times> 'w"
  tc_get_sts :: "string \<Rightarrow> string \<Rightarrow> 'w \<Rightarrow> (go_error + TestStatefulSet) \<times> 'w"
  tc_get_configmap :: "string \<Rightarrow> string \<Rightarrow> 'w \<Rightarrow> (go_error + ConfigMap) \<times> 'w"
  tc_get_secret :: "string \<Rightarrow> string \<Rightarrow> 'w \<Rightarrow> (go_error + Secret) \<times> 'w"
  tc_get_service :: "string \<Rightarrow> string \<Rightarrow> 'w \<Rightarrow> (go_error + obj) \<times> 'w"
  tc_get_pdb :: "string \<Rightarrow> string \<Rightarrow> 'w \<Rightarrow> (go_error + obj) \<times> 'w"
  tc_list_pvcs :: "string \<Rightarrow> selector \<Rightarrow> 'w \<Rightarrow> (go_error + TestPVC list) \<times> 'w"
  tc_list_nodes :: "'w \<Rightarrow> (Node list \<times> go_error option) \<times> 'w"
  tc_list_events :: "string \<Rightarrow> 'w \<Rightarrow> (go_error + Event list) \<times> 'w"
  dyn_get :: "gvr \<Rightarrow> string \<Rightarrow> string \<Rightarrow> 'w \<Rightarrow> (go_error + obj) \<times> 'w"
  dyn_delete :: "gvr \<Rightarrow> string \<Rightarrow> string \<Rightarrow> 'w \<Rightarrow> go_error option \<times> 'w"

text \<open>The environment, with \<^verbatim>\<open>reflect.DeepEqual\<close> on the type of Kubernetes it is used at.\<close>

record 'w TestEnvironment =
  k8sClient :: "'w test_api"
  te_meta :: meta_lib
  te_ignore_exists :: "go_error \<Rightarrow> go_error option"
  te_deep_equal :: "ResourceRequirements \<Rightarrow> ResourceRequirements \<Rightarrow> bool"
  te_eventually :: "int \<Rightarrow> int \<Rightarrow> ('w, bool outcome) state \<Rightarrow> ('w, bool) state"
  EnvTestStop :: "'w \<Rightarrow> go_error option \<times> 'w"
  TestCancelFn :: "('w \<Rightarrow> 'w) option"

section \<open>Reading and writing the cluster\<close>

definition GetNATSFromK8s :: "'w TestEnvironment \<Rightarrow> string \<Rightarrow> string \<Rightarrow> ('w, go_error + NATS) state" where
  "GetNATSFromK8s E name namespace = State (tc_get_nats (k8sClient E) name namespace)"

definition GetStatefulSetFromK8s :: "'w TestEnvironment \<Rightarrow> string \<Rightarrow> string \<Rightarrow> ('w, go_error + TestStatefulSet) state" where
  "GetStatefulSetFromK8s E name namespace = State (tc_get_sts (k8sClient E) name namespace)"

definition GetConfigMapFromK8s :: "'w TestEnvironment \<Rightarrow> string \<Rightarrow> string \<Rightarrow> ('w, go_error + ConfigMap) state" where
  "GetConfigMapFromK8s E name namespace = State (tc_get_configmap (k8sClient E) name namespace)"

definition GetSecretFromK8s :: "'w TestEnvironment \<Rightarrow> string \<Rightarrow> string \<Rightarrow> ('w, go_error + Secret) state" where
  "GetSecretFromK8s E name namespace = State (tc_get_secret (k8sClient E) name namespace)"

definition GetServiceFromK8s :: "'w TestEnvironment \<Rightarrow> string \<Rightarrow> string \<Rightarrow> ('w, go_error + obj) state" where
  "GetServiceFromK8s E name namespace = State (tc_get_service (k8sClient E) name namespace)"

definition GetPodDisruptionBudgetFromK8s :: "'w TestEnvironment \<Rightarrow> string \<Rightarrow> string \<Rightarrow> ('w, go_error + obj) state" where
  "GetPodDisruptionBudgetFromK8s E name namespace = State (tc_get_pdb (k8sClient E) name namespace)"

definition GetDestinationRuleFromK8s :: "'w TestEnvironment \<Rightarrow> string \<Rightarrow> string \<Rightarrow> ('w, go_error + obj) state" where
  "GetDestinationRuleFromK8s E name namespace = State (dyn_get (k8sClient E) GetDestinationRuleGVR namespace name)"

text \<open>The first claim of the release, or nil without an error when there is none.\<close>

definition GetPVCFromK8s :: "'w TestEnvironment \<Rightarrow> string \<Rightarrow> string \<Rightarrow> ('w, go_error + TestPVC option) state" where
  "GetPVCFromK8s E label namespace = do {
     r \<leftarrow> State (tc_list_pvcs (k8sClient E) namespace (SetSelector [(InstanceLabelKey, label)]));
     ret (case r of
        Inl err \<Rightarrow> Inl err
      | Inr items \<Rightarrow> (case items of [] \<Rightarrow> Inr None | pvc # _ \<Rightarrow> Inr (Some pvc)))
   }"

definition GetNodesFromK8s :: "'w TestEnvironment \<Rightarrow> ('w, Node list \<times> go_error option) state" where
  "GetNodesFromK8s E = State (tc_list_nodes (k8sClient E))"

definition CreateK8sResource :: "'w TestEnvironment \<Rightarrow> test_object \<Rightarrow> ('w, go_error option) state" where
  "CreateK8sResource E ob = State (tc_create (k8sClient E) ob)"

definition CreateUnstructuredK8sResource :: "'w TestEnvironment \<Rightarrow> obj \<Rightarrow> ('w, go_error option) state" where
  "CreateUnstructuredK8sResource E ob = State (tc_create (k8sClient E) (TUnstructured ob))"

definition UpdateStatefulSetStatusOnK8s :: "'w TestEnvironment \<Rightarrow> TestStatefulSet \<Rightarrow> ('w, go_error option) state" where
  "UpdateStatefulSetStatusOnK8s E sts = State (tc_status_update (k8sClient E) (TStatefulSet sts))"

definition DeleteStatefulSetFromK8s :: "'w TestEnvironment \<Rightarrow> string \<Rightarrow> string \<Rightarrow> ('w, go_error option) state" where
  "DeleteStatefulSetFromK8s E name namespace = State (tc_delete (k8sClient E) (TNamed ''StatefulSet'' name namespace))"

definition DeleteServiceFromK8s :: "'w TestEnvironment \<Rightarrow> string \<Rightarrow> string \<Rightarrow> ('w, go_error option) state" where
  "DeleteServiceFromK8s E name namespace = State (tc_delete (k8sClient E) (TNamed ''Service'' name namespace))"

definition DeletePodDisruptionBudgetFromK8s :: "'w TestEnvironment \<Rightarrow> string \<Rightarrow> string \<Rightarrow> ('w, go_error option) state" where
  "DeletePodDisruptionBudgetFromK8s E name namespace =
     State (tc_delete (k8sClient E) (TNamed ''PodDisruptionBudget'' name namespace))"

definition DeleteConfigMapFromK8s :: "'w TestEnvironment \<Rightarrow> string \<Rightarrow> string \<Rightarrow> ('w, go_error option) state" where
  "DeleteConfigMapFromK8s E name namespace = State (tc_delete (k8sClient E) (TNamed ''ConfigMap'' name namespace))"

definition DeleteSecretFromK8s :: "'w TestEnvironment \<Rightarrow> string \<Rightarrow> string \<Rightarrow> ('w, go_error option) state" where
  "DeleteSecretFromK8s E name namespace = State (tc_delete (k8sClient E) (TNamed ''Secret'' name namespace))"

definition DeleteDestinationRuleFromK8s :: "'w TestEnvironment \<Rightarrow> string \<Rightarrow> string \<Rightarrow> ('w, go_error option) state" where
  "DeleteDestinationRuleFromK8s E name namespace = State (dyn_delete (k8sClient E) GetDestinationRuleGVR namespace name)"

text \<open>\<^verbatim>\<open>log.Fatal\<close> ends the process: the result \<open>None\<close>.\<close>

fun update_options :: "(NATS \<Rightarrow> ('w, go_error + NATS) state) list \<Rightarrow> NATS \<Rightarrow> ('w, NATS option) state" where
  "update_options [] nats = ret (Some nats)"
| "update_options (opt # opts) nats = do {
     r \<leftarrow> opt nats;
     (case r of Inl err \<Rightarrow> ret None | Inr nats \<Rightarrow> update_options opts nats)
   }"

definition UpdatedNATSInK8s ::
  "'w TestEnvironment \<Rightarrow> NATS \<Rightarrow> (NATS \<Rightarrow> ('w, go_error + NATS) state) list \<Rightarrow> ('w, go_error option option) state" where
  "UpdatedNATSInK8s E nats options = do {
     r \<leftarrow> GetNATSFromK8s E (nName nats) (nNamespace nats);
     (case r of
        Inl err \<Rightarrow> ret None
      | Inr natsOnK8s \<Rightarrow> do {
          updated \<leftarrow> update_options options natsOnK8s;
          (case updated of
             None \<Rightarrow> ret None
           | Some natsOnK8s \<Rightarrow> do {
               err \<leftarrow> State (tc_update (k8sClient E) (TNATS natsOnK8s));
               ret (Some err)
             })
        })
   }"

section \<open>The checks\<close>

text \<open>\<^verbatim>\<open>require.NoError\<close> on the result of one call.\<close>

definition require_no_error :: "('w, go_error option) state \<Rightarrow> ('w, bool) state" where
  "require_no_error m = do { err \<leftarrow> m; ret (err = None) }"

definition EnsureNamespaceCreation :: "'w TestEnvironment \<Rightarrow> string \<Rightarrow> ('w, bool) state" where
  "EnsureNamespaceCreation E namespace =
     (if namespace = ''default'' then ret True
      else do {
        err \<leftarrow> State (tc_create (k8sClient E) (TNamespace (NewNamespace namespace)));
        ret (case err of None \<Rightarrow> True | Some e \<Rightarrow> te_ignore_exists E e = None)
      })"

definition EnsureK8sResourceCreated :: "'w TestEnvironment \<Rightarrow> test_object \<Rightarrow> ('w, bool) state" where
  "EnsureK8sResourceCreated E ob = require_no_error (State (tc_create (k8sClient E) ob))"

definition EnsureK8sUnStructResourceCreated :: "'w TestEnvironment \<Rightarrow> obj \<Rightarrow> ('w, bool) state" where
  "EnsureK8sUnStructResourceCreated E ob = require_no_error (State (tc_create (k8sClient E) (TUnstructured ob)))"

definition EnsureK8sResourceUpdated :: "'w TestEnvironment \<Rightarrow> test_object \<Rightarrow> ('w, bool) state" where
  "EnsureK8sResourceUpdated E ob = require_no_error (State (tc_update (k8sClient E) ob))"

definition EnsureK8sResourceDeleted :: "'w TestEnvironment \<Rightarrow> test_object \<Rightarrow> ('w, bool) state" where
  "EnsureK8sResourceDeleted E ob = require_no_error (State (tc_delete (k8sClient E) ob))"

text \<open>The polls for existence, and for the answer that the object is not there.\<close>

definition found :: "('w, go_error + 'a) state \<Rightarrow> ('w, bool outcome) state" where
  "found m = do { r \<leftarrow> m; ret (Returned (case r of Inl err \<Rightarrow> False | Inr x \<Rightarrow> True)) }"

definition not_found :: "meta_lib \<Rightarrow> ('w, go_error + 'a) state \<Rightarrow> ('w, bool outcome) state" where
  "not_found M m = do { r \<leftarrow> m; ret (Returned (case r of Inl err \<Rightarrow> is_not_found M err | Inr x \<Rightarrow> False)) }"

definition EnsureK8sConfigMapExists :: "'w TestEnvironment \<Rightarrow> string \<Rightarrow> string \<Rightarrow> ('w, bool) state" where
  "EnsureK8sConfigMapExists E name namespace =
     te_eventually E SmallTimeOut SmallPollingInterval (found (GetConfigMapFromK8s E name namespace))"

definition EnsureK8sSecretExists :: "'w TestEnvironment \<Rightarrow> string \<Rightarrow> string \<Rightarrow> ('w, bool) state" where
  "EnsureK8sSecretExists E name namespace =
     te_eventually E SmallTimeOut SmallPollingInterval (found (GetSecretFromK8s E name namespace))"

definition EnsureK8sPodDisruptionBudgetExists :: "'w TestEnvironment \<Rightarrow> string \<Rightarrow> string \<Rightarrow> ('w, bool) state" where
  "EnsureK8sPodDisruptionBudgetExists E name namespace =
     te_eventually E SmallTimeOut SmallPollingInterval (found (GetPodDisruptionBudgetFromK8s E name namespace))"

definition EnsureK8sServiceExists :: "'w TestEnvironment \<Rightarrow> string \<Rightarrow> string \<Rightarrow> ('w, bool) state" where
  "EnsureK8sServiceExists E name namespace =
     te_eventually E SmallTimeOut SmallPollingInterval (found (GetServiceFromK8s E name namespace))"

definition EnsureK8sDestinationRuleExists :: "'w TestEnvironment \<Rightarrow> string \<Rightarrow> string \<Rightarrow> ('w, bool) state" where
  "EnsureK8sDestinationRuleExists E name namespace =
     te_eventually E SmallTimeOut SmallPollingInterval (found (GetDestinationRuleFromK8s E name namespace))"

definition EnsureK8sStatefulSetExists :: "'w TestEnvironment \<Rightarrow> string \<Rightarrow> string \<Rightarrow> ('w, bool) state" where
  "EnsureK8sStatefulSetExists E name namespace =
     te_eventually E BigTimeOut BigPollingInterval (found (GetStatefulSetFromK8s E name namespace))"

definition EnsureK8sPVCExists :: "'w TestEnvironment \<Rightarrow> string \<Rightarrow> string \<Rightarrow> ('w, bool) state" where
  "EnsureK8sPVCExists E label namespace = te_eventually E BigTimeOut BigPollingInterval (do {
     r \<leftarrow> GetPVCFromK8s E label namespace;
     ret (Returned (case r of Inl err \<Rightarrow> False | Inr pvc \<Rightarrow> pvc \<noteq> None))
   })"

definition EnsureK8sConfigMapNotFound :: "'w TestEnvironment \<Rightarrow> string \<Rightarrow> string \<Rightarrow> ('w, bool) state" where
  "EnsureK8sConfigMapNotFound E name namespace =
     te_eventually E SmallTimeOut SmallPollingInterval (not_found (te_meta E) (GetConfigMapFromK8s E name namespace))"

definition EnsureK8sSecretNotFound :: "'w TestEnvironment \<Rightarrow> string \<Rightarrow> string \<Rightarrow> ('w, bool) state" where
  "EnsureK8sSecretNotFound E name namespace =
     te_eventually E SmallTimeOut SmallPollingInterval (not_found (te_meta E) (GetSecretFromK8s E name namespace))"

definition EnsureK8sServiceNotFound :: "'w TestEnvironment \<Rightarrow> string \<Rightarrow> string \<Rightarrow> ('w, bool) state" where
  "EnsureK8sServiceNotFound E name namespace =
     te_eventually E SmallTimeOut SmallPollingInterval (not_found (te_meta E) (GetServiceFromK8s E name namespace))"

definition EnsureK8sDestinationRuleNotFound :: "'w TestEnvironment \<Rightarrow> string \<Rightarrow> string \<Rightarrow> ('w, bool) state" where
  "EnsureK8sDestinationRuleNotFound E name namespace =
     te_eventually E SmallTimeOut SmallPollingInterval (not_found (te_meta E) (GetDestinationRuleFromK8s E name namespace))"

definition EnsureK8sNATSNotFound :: "'w TestEnvironment \<Rightarrow> string \<Rightarrow> string \<Rightarrow> ('w, bool) state" where
  "EnsureK8sNATSNotFound E name namespace =
     te_eventually E SmallTimeOut SmallPollingInterval (not_found (te_meta E) (GetNATSFromK8s E name namespace))"

definition EnsureK8sStatefulSetNotFound :: "'w TestEnvironment \<Rightarrow> string \<Rightarrow> string \<Rightarrow> ('w, bool) state" where
  "EnsureK8sStatefulSetNotFound E name namespace =
     te_eventually E BigTimeOut BigPollingInterval (not_found (te_meta E) (GetStatefulSetFromK8s E name namespace))"

text \<open>A claim counts as gone when there is none, or when it is being deleted.\<close>

definition EnsureK8sPVCNotFound :: "'w TestEnvironment \<Rightarrow> string \<Rightarrow> string \<Rightarrow> ('w, bool) state" where
  "EnsureK8sPVCNotFound E name namespace = te_eventually E BigTimeOut BigPollingInterval (do {
     r \<leftarrow> GetPVCFromK8s E name namespace;
     ret (Returned (case r of
        Inl err \<Rightarrow> is_not_found (te_meta E) err
      | Inr None \<Rightarrow> True
      | Inr (Some pvc) \<Rightarrow> tpDeletionTimestamp pvc \<noteq> None))
   })"

text \<open>The loop over the expected labels or annotations.\<close>

fun has_entries :: "str_map \<Rightarrow> str_map \<Rightarrow> bool" where
  "has_entries [] actual = True"
| "has_entries ((k, v) # entries) actual =
     (case map_of actual k of
        None \<Rightarrow> False
      | Some val \<Rightarrow> if v \<noteq> val then False else has_entries entries actual)"

definition EnsureK8sStatefulSetHasLabels :: "'w TestEnvironment \<Rightarrow> string \<Rightarrow> string \<Rightarrow> str_map \<Rightarrow> ('w, bool) state" where
  "EnsureK8sStatefulSetHasLabels E name namespace labels = te_eventually E SmallTimeOut SmallPollingInterval (do {
     r \<leftarrow> GetStatefulSetFromK8s E name namespace;
     ret (Returned (case r of Inl err \<Rightarrow> False | Inr result \<Rightarrow> has_entries labels (tsLabels result)))
   })"

definition EnsureK8sStatefulSetHasAnnotations ::
  "'w TestEnvironment \<Rightarrow> string \<Rightarrow> string \<Rightarrow> str_map \<Rightarrow> ('w, bool) state" where
  "EnsureK8sStatefulSetHasAnnotations E name namespace annotations = te_eventually E SmallTimeOut SmallPollingInterval (do {
     r \<leftarrow> GetStatefulSetFromK8s E name namespace;
     ret (Returned (case r of Inl err \<Rightarrow> False | Inr result \<Rightarrow> has_entries annotations (tsAnnotations result)))
   })"

text \<open>\<^verbatim>\<open>*result.Spec.Replicas\<close> panics on nil.\<close>

definition EnsureNATSSpecClusterSizeReflected :: "'w TestEnvironment \<Rightarrow> NATS \<Rightarrow> ('w, bool) state" where
  "EnsureNATSSpecClusterSizeReflected E nats = te_eventually E SmallTimeOut SmallPollingInterval (do {
     r \<leftarrow> GetStatefulSetFromK8s E (GetStatefulSetName nats) (nNamespace nats);
     ret (case r of
        Inl err \<Rightarrow> Returned False
      | Inr result \<Rightarrow> (case tsReplicas result of
            None \<Rightarrow> Panicked
          | Some n \<Rightarrow> Returned (clusterSize (spCluster (nSpec nats)) = n)))
   })"

definition EnsureNATSSpecResourcesReflected :: "'w TestEnvironment \<Rightarrow> NATS \<Rightarrow> ('w, bool) state" where
  "EnsureNATSSpecResourcesReflected E nats = te_eventually E SmallTimeOut SmallPollingInterval (do {
     r \<leftarrow> GetStatefulSetFromK8s E (GetStatefulSetName nats) (nNamespace nats);
     ret (case r of
        Inl err \<Rightarrow> Returned False
      | Inr result \<Rightarrow> (case FindContainer (tsContainers result) NATSContainerName of
            None \<Rightarrow> Panicked
          | Some natsContainer \<Rightarrow> Returned (te_deep_equal E (spResources (nSpec nats)) (containerRest natsContainer))))
   })"

text \<open>\<^verbatim>\<open>strings.Contains\<close> and the verb \<^verbatim>\<open>%t\<close>.\<close>

fun contains_text :: "string \<Rightarrow> string \<Rightarrow> bool" where
  "contains_text [] sub = (sub = [])"
| "contains_text (c # cs) sub = (has_prefix (c # cs) sub \<or> contains_text cs sub)"

definition show_bool :: "bool \<Rightarrow> string" where
  "show_bool b = (if b then ''true'' else ''false'')"

definition nats_config_poll ::
  "'w TestEnvironment \<Rightarrow> NATS \<Rightarrow> (string \<Rightarrow> ('w, bool outcome) state) \<Rightarrow> ('w, bool outcome) state" where
  "nats_config_poll E nats check = do {
     r \<leftarrow> GetConfigMapFromK8s E (GetConfigMapName nats) (nNamespace nats);
     (case r of
        Inl err \<Rightarrow> ret (Returned False)
      | Inr result \<Rightarrow> (case map_of (cmData result) NATSConfigFileName of
            None \<Rightarrow> ret (Returned False)
          | Some natsConfigStr \<Rightarrow> check natsConfigStr))
   }"

definition EnsureNATSSpecDebugTraceReflected :: "'w TestEnvironment \<Rightarrow> NATS \<Rightarrow> ('w, bool) state" where
  "EnsureNATSSpecDebugTraceReflected E nats = te_eventually E SmallTimeOut SmallPollingInterval
     (nats_config_poll E nats (\<lambda>natsConfigStr. ret (Returned (
        contains_text natsConfigStr (''debug: '' @ show_bool (logDebug (spLogging (nSpec nats)))) \<and>
        contains_text natsConfigStr (''trace: '' @ show_bool (logTrace (spLogging (nSpec nats))))))))"

definition file_storage_check :: "'w TestEnvironment \<Rightarrow> NATS \<Rightarrow> string \<Rightarrow> ('w, bool outcome) state" where
  "file_storage_check E nats natsConfigStr =
     (let fs = jsFileStorage (spJetStream (nSpec nats)) in
      if \<not> contains_text natsConfigStr (''max_file_store: '' @ qty_string (te_meta E) (fsSize fs)) then ret (Returned False)
      else do {
        r \<leftarrow> GetStatefulSetFromK8s E (GetStatefulSetName nats) (nNamespace nats);
        ret (case r of
           Inl err \<Rightarrow> Returned False
         | Inr sts \<Rightarrow> (case tsClaimTemplates sts of
              [] \<Rightarrow> Panicked
            | t # _ \<Rightarrow> (case ctStorageClassName t of
                  None \<Rightarrow> Panicked
                | Some class_name \<Rightarrow>
                    if class_name \<noteq> fsStorageClassName fs then Returned False
                    else if qty_string (te_meta E) (ctStorage t) \<noteq> qty_string (te_meta E) (fsSize fs) then Returned False
                    else Returned True)))
      })"

definition EnsureNATSSpecFileStorageReflected :: "'w TestEnvironment \<Rightarrow> NATS \<Rightarrow> ('w, bool) state" where
  "EnsureNATSSpecFileStorageReflected E nats = te_eventually E SmallTimeOut SmallPollingInterval
     (nats_config_poll E nats (file_storage_check E nats))"

definition EnsureNATSSpecMemStorageReflected :: "'w TestEnvironment \<Rightarrow> NATS \<Rightarrow> ('w, bool) state" where
  "EnsureNATSSpecMemStorageReflected E nats = te_eventually E SmallTimeOut SmallPollingInterval
     (nats_config_poll E nats (\<lambda>natsConfigStr. ret (Returned (
        contains_text natsConfigStr
          (''max_memory_store: '' @ qty_string (te_meta E) (memSize (jsMemStorage (spJetStream (nSpec nats)))))))))"

definition url_as_expected :: "NATS \<Rightarrow> bool" where
  "url_as_expected natsCR =
     (if stState (nStatus natsCR) = StateReady
      then stURL (nStatus natsCR) = ''nats://'' @ nName natsCR @ ''.'' @ nNamespace natsCR @ ''.svc.cluster.local:4222''
      else stURL (nStatus natsCR) = [])"

definition EnsureURLInNATSStatus :: "'w TestEnvironment \<Rightarrow> string \<Rightarrow> string \<Rightarrow> ('w, bool) state" where
  "EnsureURLInNATSStatus E name namespace = do {
     r \<leftarrow> GetNATSFromK8s E name namespace;
     ret (case r of Inl err \<Rightarrow> False | Inr natsCR \<Rightarrow> url_as_expected natsCR)
   }"

text \<open>The polls handed to gomega, with their time-out and interval.\<close>

definition GetNATSAssert :: "'w TestEnvironment \<Rightarrow> NATS \<Rightarrow> ('w, NATS option) state \<times> int \<times> int" where
  "GetNATSAssert E nats = (do {
     r \<leftarrow> GetNATSFromK8s E (nName nats) (nNamespace nats);
     ret (case r of Inl err \<Rightarrow> None | Inr gotNATS \<Rightarrow> Some gotNATS)
   }, BigTimeOut, SmallPollingInterval)"

definition GetK8sEventsAssert :: "'w TestEnvironment \<Rightarrow> NATS \<Rightarrow> ('w, go_error + Event list) state \<times> int \<times> int" where
  "GetK8sEventsAssert E nats = (State (tc_list_events (k8sClient E) (nNamespace nats)), BigTimeOut, SmallPollingInterval)"

section \<open>Starting and stopping\<close>

text \<open>Up to twenty attempts to stop the API server; the pauses between them are left out.\<close>

fun stop_loop :: "('w, go_error option) state \<Rightarrow> nat \<Rightarrow> go_error option \<Rightarrow> ('w, go_error option) state" where
  "stop_loop stop 0 err = ret err"
| "stop_loop stop (Suc n) _ = do {
     err \<leftarrow> stop;
     (if err = None then ret None else stop_loop stop n err)
   }"

definition TearDown :: "'w TestEnvironment \<Rightarrow> ('w, go_error option) state" where
  "TearDown E = do {
     (case TestCancelFn E of None \<Rightarrow> ret () | Some cancel \<Rightarrow> modify cancel);
     stop_loop (State (EnvTestStop E)) 20 None
   }"

text \<open>
  envtest and retry-go. \<^verbatim>\<open>Start\<close> may panic, which the closure handed to \<^verbatim>\<open>retry.Do\<close> recovers from; it
  then returns the zero value of its result, a nil error. The captured \<^verbatim>\<open>cfg\<close> is a part of the state.
\<close>

record 'w start_state =
  seWorld :: 'w
  seCfg :: "string option"

record 'w envtest_lib =
  et_start :: "string list \<Rightarrow> 'w \<Rightarrow> (string option \<times> go_error option) outcome \<times> 'w"
  et_stop :: "'w \<Rightarrow> go_error option \<times> 'w"
  et_retry :: "nat \<Rightarrow> int \<Rightarrow> ('w start_state, go_error option) state \<Rightarrow>
    (go_error \<Rightarrow> ('w start_state, unit) state) \<Rightarrow> ('w start_state, go_error option) state"
  et_join :: "string list \<Rightarrow> string"

definition crd_paths :: "'w envtest_lib \<Rightarrow> string \<Rightarrow> string list" where
  "crd_paths T projectRootDir = [et_join T [projectRootDir, ''config'', ''crd'', ''bases''],
     et_join T [projectRootDir, ''config'', ''crd'', ''external'']]"

definition start_attempt :: "'w envtest_lib \<Rightarrow> string \<Rightarrow> ('w start_state, go_error option) state" where
  "start_attempt T projectRootDir = State (\<lambda>s.
     (case et_start T (crd_paths T projectRootDir) (seWorld s) of
        (Panicked, w) \<Rightarrow> (None, s\<lparr>seWorld := w\<rparr>)
      | (Returned (cfgLocal, startErr), w) \<Rightarrow> (startErr, s\<lparr>seWorld := w, seCfg := cfgLocal\<rparr>)))"

definition start_retry :: "'w envtest_lib \<Rightarrow> go_error \<Rightarrow> ('w start_state, unit) state" where
  "start_retry T err = State (\<lambda>s. case et_stop T (seWorld s) of (stopErr, w) \<Rightarrow> ((), s\<lparr>seWorld := w\<rparr>))"

definition StartEnvTest ::
  "'w envtest_lib \<Rightarrow> string \<Rightarrow> ('w start_state, string option \<times> go_error option) state" where
  "StartEnvTest T projectRootDir = do {
     err \<leftarrow> et_retry T testEnvStartAttempts testEnvStartDelay (start_attempt T projectRootDir) (start_retry T);
     cfg \<leftarrow> gets seCfg;
     ret (cfg, err)
   }"

text \<open>
  A panic on the first attempt ends the retries with success and without a configuration, when \<^verbatim>\<open>retry.Do\<close>
  returns after an attempt without an error.
\<close>

lemma start_panic_is_success:
  assumes "\<And>n d m f s s'. run_state m s = (None, s') \<Longrightarrow> run_state (et_retry T n d m f) s = (None, s')"
    and "et_start T (crd_paths T root) w = (Panicked, w')"
  shows "fst (run_state (StartEnvTest T root) \<lparr>seWorld = w, seCfg = None\<rparr>) = (None, None)"
proof -
  have "run_state (start_attempt T root) \<lparr>seWorld = w, seCfg = None\<rparr> = (None, \<lparr>seWorld = w', seCfg = None\<rparr>)"
    by (simp add: start_attempt_def assms(2))
  from assms(1) [OF this] show ?thesis by (simp add: StartEnvTest_def)
qed

text \<open>The construction of the environment, up to the start of the manager in a goroutine.\<close>

record env_boot =
  eb_logger :: "go_error option"
  eb_add_to_scheme :: "go_error option"
  eb_client :: "string option \<Rightarrow> go_error option"
  eb_dynamic :: "string option \<Rightarrow> go_error option"
  eb_manager :: "string option \<Rightarrow> int \<Rightarrow> go_error option"
  eb_clientset :: "go_error option"
  eb_stat :: "string \<Rightarrow> bool option \<times> bool option"
  eb_build :: "controller_spec \<Rightarrow> go_error option"

definition test_images :: ContainerImages where
  "test_images = \<lparr>imgNATS = ''NATSImage'', imgPrometheusExporter = ''PrometheusExporterImage'',
     imgNATSConfigReloader = ''NATSSrvCfgReloaderImage''\<rparr>"

text \<open>\<^verbatim>\<open>if err != nil { return nil, err }\<close>, and the rest otherwise.\<close>

definition or_return :: "go_error option \<Rightarrow> go_error + 'a \<Rightarrow> go_error + 'a" where
  "or_return err rest = (case err of Some e \<Rightarrow> Inl e | None \<Rightarrow> rest)"

definition NewTestEnvironment ::
  "'w libs \<Rightarrow> env_boot \<Rightarrow> 'w net_lib \<Rightarrow> 'w envtest_lib \<Rightarrow> string \<Rightarrow> NATS option \<Rightarrow> 'w \<Rightarrow>
   go_error + (reconciler_config \<times> 'w reconciler)" where
  "NewTestEnvironment L B N T projectRootDir allowed w =
     or_return (eb_logger B) (
     let (started, t) = run_state (StartEnvTest T projectRootDir) \<lparr>seWorld = w, seCfg = None\<rparr>;
         envTestKubeCfg = fst started in
     or_return (snd started) (
     or_return (eb_add_to_scheme B) (
     or_return (eb_client B envTestKubeCfg) (
     or_return (eb_dynamic B envTestKubeCfg) (
     let (port, w) = GetFreePort N (seWorld t) in
     or_return (snd port) (
     or_return (eb_manager B envTestKubeCfg (fst port)) (
     or_return (eb_clientset B) (
     let (r, s) = run_state (NewHelmRenderer L (eb_stat B) (et_join T [projectRootDir, test_NATSChartDir]))
           \<lparr>world = w, trace = []\<rparr> in
     or_return (snd r) (
     let vals = (case fst r of None \<Rightarrow> [] | Some v \<Rightarrow> v);
         C = \<lparr>allowedNATSCR = allowed, fieldManager = ''nats-manager'', images = test_images\<rparr>;
         s = snd (run_state (RegisterMetrics L) s);
         (err, s) = run_state (SetupWithManager L (eb_build B))
           (NewReconciler (kube.extend (NewKubeClient s) \<lparr>helmValues = vals\<rparr>)) in
     or_return err (Inr (C, s)))))))))))"

section \<open>What the checks show\<close>

text \<open>\<^verbatim>\<open>require.Eventually\<close> passes only after a poll that returned true.\<close>

definition eventually_law :: "'w TestEnvironment \<Rightarrow> bool" where
  "eventually_law E \<longleftrightarrow> (\<forall>t i m w w'. run_state (te_eventually E t i m) w = (True, w') \<longrightarrow>
     (\<exists>u. fst (run_state m u) = Returned True))"

lemma seen:
  assumes "eventually_law E" "fst (run_state (te_eventually E t i m) w)"
  obtains u where "fst (run_state m u) = Returned True"
  using assms unfolding eventually_law_def by (metis prod.collapse)

lemma has_entries_iff: "has_entries ls actual \<longleftrightarrow> (\<forall>(k, v) \<in> set ls. map_of actual k = Some v)"
  by (induction ls actual rule: has_entries.induct) (auto split: option.splits)

lemma contains_text_iff: "contains_text s sub \<longleftrightarrow> (\<exists>a b. s = a @ sub @ b)"
proof (induction s sub rule: contains_text.induct)
  case (2 c cs sub)
  have "(\<exists>a b. c # cs = a @ sub @ b) \<longleftrightarrow> (\<exists>b. c # cs = sub @ b) \<or> (\<exists>a b. cs = a @ sub @ b)"
    by (metis append_Cons append_Nil list.exhaust list.inject)
  with 2 show ?case by (simp add: has_prefix_def prefix_def)
qed simp

lemma config_seen:
  assumes "fst (run_state (nats_config_poll E nats check) u) = Returned True"
  obtains cm conf v where "fst (run_state (GetConfigMapFromK8s E (GetConfigMapName nats) (nNamespace nats)) u) = Inr cm"
    "map_of (cmData cm) NATSConfigFileName = Some conf" "fst (run_state (check conf) v) = Returned True"
  using assms by (auto simp: nats_config_poll_def case_prod_beta split: sum.splits option.splits)

lemma file_storage_seen:
  assumes law: "eventually_law E" and ok: "fst (run_state (EnsureNATSSpecFileStorageReflected E nats) w)"
  shows "\<exists>u u' cm conf sts t ts.
    fst (run_state (GetConfigMapFromK8s E (GetConfigMapName nats) (nNamespace nats)) u) = Inr cm \<and>
    map_of (cmData cm) NATSConfigFileName = Some conf \<and>
    contains_text conf (''max_file_store: '' @ qty_string (te_meta E) (fsSize (jsFileStorage (spJetStream (nSpec nats))))) \<and>
    fst (run_state (GetStatefulSetFromK8s E (GetStatefulSetName nats) (nNamespace nats)) u') = Inr sts \<and>
    tsClaimTemplates sts = t # ts \<and>
    ctStorageClassName t = Some (fsStorageClassName (jsFileStorage (spJetStream (nSpec nats))))"
proof -
  from ok obtain u where "fst (run_state (nats_config_poll E nats (file_storage_check E nats)) u) = Returned True"
    unfolding EnsureNATSSpecFileStorageReflected_def by (rule seen [OF law])
  then obtain cm conf v where "fst (run_state (GetConfigMapFromK8s E (GetConfigMapName nats) (nNamespace nats)) u) = Inr cm"
    "map_of (cmData cm) NATSConfigFileName = Some conf"
    and check: "fst (run_state (file_storage_check E nats conf) v) = Returned True"
    by (rule config_seen)
  moreover have "\<exists>sts t ts. contains_text conf (''max_file_store: '' @ qty_string (te_meta E) (fsSize (jsFileStorage (spJetStream (nSpec nats))))) \<and>
      fst (run_state (GetStatefulSetFromK8s E (GetStatefulSetName nats) (nNamespace nats)) v) = Inr sts \<and>
      tsClaimTemplates sts = t # ts \<and>
      ctStorageClassName t = Some (fsStorageClassName (jsFileStorage (spJetStream (nSpec nats))))"
    using check
    by (auto simp: file_storage_check_def Let_def case_prod_beta split: if_splits sum.splits list.splits option.splits)
  ultimately show ?thesis by blast
qed

text \<open>
  A check that passes has seen what it asserts: there is an answer of the API server, given to one of
  its polls, in which the StatefulSet carries all the expected labels, or has as many replicas as the
  resource asks for, or in which the claim is missing or being deleted; and the file storage check has
  seen a configuration with the size and a StatefulSet whose first claim has the storage class.
\<close>

lemma passed_checks_were_seen:
  assumes law: "eventually_law E"
  shows "(fst (run_state (EnsureK8sStatefulSetHasLabels E name ns ls) w) \<longrightarrow>
      (\<exists>u sts. fst (run_state (GetStatefulSetFromK8s E name ns) u) = Inr sts \<and>
        (\<forall>(k, v) \<in> set ls. map_of (tsLabels sts) k = Some v))) \<and>
    (fst (run_state (EnsureNATSSpecClusterSizeReflected E nats) w) \<longrightarrow>
      (\<exists>u sts. fst (run_state (GetStatefulSetFromK8s E (GetStatefulSetName nats) (nNamespace nats)) u) = Inr sts \<and>
        tsReplicas sts = Some (clusterSize (spCluster (nSpec nats))))) \<and>
    (fst (run_state (EnsureK8sPVCNotFound E name ns) w) \<longrightarrow>
      (\<exists>u r. fst (run_state (GetPVCFromK8s E name ns) u) = r \<and>
        (case r of Inl err \<Rightarrow> is_not_found (te_meta E) err | Inr None \<Rightarrow> True
         | Inr (Some pvc) \<Rightarrow> tpDeletionTimestamp pvc \<noteq> None))) \<and>
    (fst (run_state (EnsureNATSSpecFileStorageReflected E nats) w) \<longrightarrow>
      (\<exists>u u' cm conf sts t ts a b.
        fst (run_state (GetConfigMapFromK8s E (GetConfigMapName nats) (nNamespace nats)) u) = Inr cm \<and>
        map_of (cmData cm) NATSConfigFileName = Some conf \<and>
        conf = a @ (''max_file_store: '' @ qty_string (te_meta E) (fsSize (jsFileStorage (spJetStream (nSpec nats))))) @ b \<and>
        fst (run_state (GetStatefulSetFromK8s E (GetStatefulSetName nats) (nNamespace nats)) u') = Inr sts \<and>
        tsClaimTemplates sts = t # ts \<and>
        ctStorageClassName t = Some (fsStorageClassName (jsFileStorage (spJetStream (nSpec nats))))))"
proof (intro conjI impI)
  assume "fst (run_state (EnsureK8sStatefulSetHasLabels E name ns ls) w)"
  then show "\<exists>u sts. fst (run_state (GetStatefulSetFromK8s E name ns) u) = Inr sts \<and>
      (\<forall>(k, v) \<in> set ls. map_of (tsLabels sts) k = Some v)"
    unfolding EnsureK8sStatefulSetHasLabels_def
    by (elim seen [OF law]) (auto simp: has_entries_iff case_prod_beta split: sum.splits)
next
  assume "fst (run_state (EnsureNATSSpecClusterSizeReflected E nats) w)"
  then show "\<exists>u sts. fst (run_state (GetStatefulSetFromK8s E (GetStatefulSetName nats) (nNamespace nats)) u) = Inr sts \<and>
      tsReplicas sts = Some (clusterSize (spCluster (nSpec nats)))"
    unfolding EnsureNATSSpecClusterSizeReflected_def
    by (elim seen [OF law]) (auto simp: case_prod_beta split: sum.splits option.splits)
next
  assume "fst (run_state (EnsureK8sPVCNotFound E name ns) w)"
  then show "\<exists>u r. fst (run_state (GetPVCFromK8s E name ns) u) = r \<and>
      (case r of Inl err \<Rightarrow> is_not_found (te_meta E) err | Inr None \<Rightarrow> True
       | Inr (Some pvc) \<Rightarrow> tpDeletionTimestamp pvc \<noteq> None)"
    unfolding EnsureK8sPVCNotFound_def
    by (elim seen [OF law]) (auto simp: case_prod_beta)
next
  assume "fst (run_state (EnsureNATSSpecFileStorageReflected E nats) w)"
  from file_storage_seen [OF law this] show "\<exists>u u' cm conf sts t ts a b.
        fst (run_state (GetConfigMapFromK8s E (GetConfigMapName nats) (nNamespace nats)) u) = Inr cm \<and>
        map_of (cmData cm) NATSConfigFileName = Some conf \<and>
        conf = a @ (''max_file_store: '' @ qty_string (te_meta E) (fsSize (jsFileStorage (spJetStream (nSpec nats))))) @ b \<and>
        fst (run_state (GetStatefulSetFromK8s E (GetStatefulSetName nats) (nNamespace nats)) u') = Inr sts \<and>
        tsClaimTemplates sts = t # ts \<and>
        ctStorageClassName t = Some (fsStorageClassName (jsFileStorage (spJetStream (nSpec nats))))"
    by (auto simp: contains_text_iff)
qed

text \<open>A cluster with one answer to each question, and an \<^verbatim>\<open>Eventually\<close> that polls once.\<close>

definition demo_tests :: "unit TestEnvironment" where
  "demo_tests = \<lparr>k8sClient = \<lparr>
       tc_create = \<lambda>ob w. (None, w), tc_update = \<lambda>ob w. (None, w), tc_status_update = \<lambda>ob w. (None, w),
       tc_delete = \<lambda>ob w. (None, w), tc_get_nats = \<lambda>n ns w. (Inr demo_nats, w),
       tc_get_sts = \<lambda>n ns w. (Inr \<lparr>tsLabels = [(''a'', ''b'')], tsAnnotations = [], tsReplicas = Some 3,
         tsContainers = [], tsClaimTemplates = []\<rparr>, w),
       tc_get_configmap = \<lambda>n ns w. (Inr \<lparr>cmData = []\<rparr>, w), tc_get_secret = \<lambda>n ns w. (Inr \<lparr>secretName = n\<rparr>, w),
       tc_get_service = \<lambda>n ns w. (Inr [], w), tc_get_pdb = \<lambda>n ns w. (Inr [], w),
       tc_list_pvcs = \<lambda>ns sel w. (Inr [], w), tc_list_nodes = \<lambda>w. (([], None), w),
       tc_list_events = \<lambda>ns w. (Inr [], w), dyn_get = \<lambda>g ns n w. (Inr [], w), dyn_delete = \<lambda>g ns n w. (None, w)\<rparr>,
     te_meta = meta (demo_libs []), te_ignore_exists = (\<lambda>e. None), te_deep_equal = (=),
     te_eventually = (\<lambda>t i m. do { r \<leftarrow> m; ret (r = Returned True) }),
     EnvTestStop = (\<lambda>w. (None, w)), TestCancelFn = None\<rparr>"

lemma demo_eventually: "eventually_law demo_tests"
  by (auto simp: eventually_law_def demo_tests_def case_prod_beta)

text \<open>
  The check of the URL wants none unless the state is Ready; the controller publishes the URL of a
  deployed cluster in the state Warning too, which the check rejects.
\<close>

lemma url_port_shown: "show_int url_port = ''4222''"
  by code_simp

lemma url_check_ready_only:
  assumes "abs_status (nStatus n) = deployed_spec nats zones a" "nName n = nName nats" "nNamespace n = nNamespace nats"
  shows "url_as_expected n \<longleftrightarrow> stState (nStatus n) = StateReady"
proof -
  have "stURL (nStatus n) = aURL (abs_status (nStatus n))" by (simp add: abs_status_def)
  also have "\<dots> = Format (nName n) (nNamespace n)"
    unfolding assms by (simp add: deployed_spec_def zones_spec_def split: sum.splits)
  finally show ?thesis by (simp add: url_as_expected_def Format_def url_protocol_def url_port_shown)
qed

section \<open>Tearing down\<close>

text \<open>An error is returned only after as many failed attempts as the loop allows, none before that.\<close>

lemma stop_loop_error:
  assumes "run_state (stop_loop stop n err) w = (Some e, w')" "0 < n"
  shows "\<exists>ws. length ws = n \<and> (\<forall>u \<in> set ws. fst (run_state stop u) \<noteq> None)"
  using assms
proof (induction n arbitrary: err w)
  case (Suc n)
  obtain e1 u where run: "run_state stop w = (e1, u)" by force
  with Suc.prems have e1: "e1 \<noteq> None" "run_state (stop_loop stop n e1) u = (Some e, w')"
    by (auto split: if_splits)
  show ?case
  proof (cases n)
    case 0
    with run e1 show ?thesis by (intro exI [of _ "[w]"]) simp
  next
    case (Suc k)
    with Suc.IH [OF e1(2)] obtain ws where "length ws = n" "\<forall>u \<in> set ws. fst (run_state stop u) \<noteq> None" by auto
    with run e1 show ?thesis by (intro exI [of _ "w # ws"]) simp
  qed
qed simp

end
