(* ===== verification/DeepCopy.thy ===== *)
theory DeepCopy
  imports ApiTypes
begin

text \<open>
  \<^verbatim>\<open>api/v1alpha1/zz_generated.deepcopy.go\<close>. The other theories treat a resource as a value; here it is what
  Go keeps in memory: structs with maps, slices and pointers. The deep copies give a new object with the
  same value that shares no memory with the old one, which is why a handler that works on
  \<^verbatim>\<open>nats.DeepCopy()\<close> may be modelled on values. The deep copies of the types of Kubernetes
  (\<^verbatim>\<open>resource.Quantity\<close>, \<^verbatim>\<open>ResourceRequirements\<close>, \<^verbatim>\<open>ObjectMeta\<close>, \<^verbatim>\<open>ListMeta\<close>, \<^verbatim>\<open>Condition\<close>) are
  parameters that keep the same contract.
\<close>

section \<open>Memory\<close>

text \<open>
  \<open>'t\<close> is a struct of a Kubernetes type, as it lies in memory. A nil map, slice or pointer is \<^verbatim>\<open>None\<close>.
\<close>

record 't hMemStorage =
  hmEnabled :: bool
  hmSize :: 't

record 't hFileStorage =
  hfClass :: string
  hfSize :: 't

record 't hJetStream =
  hjMem :: "'t hMemStorage"
  hjFile :: "'t hFileStorage"

record 't hSpec =
  hsCluster :: Cluster
  hsJetStream :: "'t hJetStream"
  hsLogging :: Logging
  hsResources :: 't
  hsAnnotations :: "nat option"
  hsLabels :: "nat option"

record hStatus =
  htState :: string
  htURL :: string
  htZones :: int
  htConditions :: "nat option"

record 't hNATS =
  hnAPIVersion :: string
  hnKind :: string
  hnMeta :: 't
  hnSpec :: "'t hSpec"
  hnStatus :: hStatus

record 't hNATSList =
  hlAPIVersion :: string
  hlKind :: string
  hlMeta :: 't
  hlItems :: "nat option"

text \<open>What an allocation can hold; \<^verbatim>\<open>CBytes\<close> is memory of the Kubernetes types.\<close>

datatype 't cell =
    CCluster Cluster
  | CLogging Logging
  | CMemStorage "'t hMemStorage"
  | CFileStorage "'t hFileStorage"
  | CJetStream "'t hJetStream"
  | CSpec "'t hSpec"
  | CStatus hStatus
  | CNATS "'t hNATS"
  | CNATSList "'t hNATSList"
  | CMap str_map
  | CConditions "'t list"
  | CItems "'t hNATS list"
  | CBytes string

record 't memory =
  cells :: "nat \<Rightarrow> 't cell option"
  limit :: nat

type_synonym ('t, 'a) mem_m = "('t memory, 'a) state"

definition alloc :: "'t cell \<Rightarrow> ('t, nat) mem_m" where
  "alloc c = State (\<lambda>m. (limit m, m\<lparr>cells := (cells m)(limit m \<mapsto> c), limit := Suc (limit m)\<rparr>))"

definition store :: "nat \<Rightarrow> 't cell \<Rightarrow> ('t, unit) mem_m" where
  "store a c = State (\<lambda>m. ((), m\<lparr>cells := (cells m)(a \<mapsto> c)\<rparr>))"

definition load :: "('t cell \<Rightarrow> 'a option) \<Rightarrow> 'a \<Rightarrow> 't memory \<Rightarrow> nat \<Rightarrow> 'a" where
  "load unwrap zero m a = (case cells m a of None \<Rightarrow> zero | Some c \<Rightarrow> (case unwrap c of None \<Rightarrow> zero | Some x \<Rightarrow> x))"

lemma run_alloc [simp]:
  "run_state (alloc c) m = (limit m, m\<lparr>cells := (cells m)(limit m \<mapsto> c), limit := Suc (limit m)\<rparr>)"
  by (simp add: alloc_def)

lemma run_store [simp]: "run_state (store a c) m = ((), m\<lparr>cells := (cells m)(a \<mapsto> c)\<rparr>)"
  by (simp add: store_def)

fun un_cluster where "un_cluster (CCluster x) = Some x" | "un_cluster _ = None"
fun un_logging where "un_logging (CLogging x) = Some x" | "un_logging _ = None"
fun un_mem where "un_mem (CMemStorage x) = Some x" | "un_mem _ = None"
fun un_file where "un_file (CFileStorage x) = Some x" | "un_file _ = None"
fun un_jetstream where "un_jetstream (CJetStream x) = Some x" | "un_jetstream _ = None"
fun un_spec where "un_spec (CSpec x) = Some x" | "un_spec _ = None"
fun un_status where "un_status (CStatus x) = Some x" | "un_status _ = None"
fun un_nats where "un_nats (CNATS x) = Some x" | "un_nats _ = None"
fun un_list where "un_list (CNATSList x) = Some x" | "un_list _ = None"
fun un_map where "un_map (CMap x) = Some x" | "un_map _ = None"
fun un_conditions where "un_conditions (CConditions x) = Some x" | "un_conditions _ = None"
fun un_items where "un_items (CItems x) = Some x" | "un_items _ = None"
fun un_bytes where "un_bytes (CBytes x) = Some x" | "un_bytes _ = None"

text \<open>Kubernetes: the deep copy and the zero value of each of its types.\<close>

record 't copy_lib =
  k_qty_copy :: "'t \<Rightarrow> ('t, 't) mem_m"
  k_resources_copy :: "'t \<Rightarrow> ('t, 't) mem_m"
  k_meta_copy :: "'t \<Rightarrow> ('t, 't) mem_m"
  k_listmeta_copy :: "'t \<Rightarrow> ('t, 't) mem_m"
  k_condition_copy :: "'t \<Rightarrow> ('t, 't) mem_m"
  k_zero_qty :: 't
  k_zero_resources :: 't
  k_zero_meta :: 't
  k_zero_listmeta :: 't
  k_zero_condition :: 't

section \<open>The generated functions\<close>

text \<open>
  \<^verbatim>\<open>DeepCopyInto\<close> takes the struct \<^verbatim>\<open>*in\<close> and gives the struct it leaves in \<^verbatim>\<open>*out\<close>; the two never
  overlap in the generated code. \<^verbatim>\<open>new_copy\<close> is the text all \<^verbatim>\<open>DeepCopy\<close> methods share: a nil receiver
  gives nil, otherwise a new struct is filled.
\<close>

definition new_copy ::
  "'a \<Rightarrow> ('a \<Rightarrow> 't cell) \<Rightarrow> ('t cell \<Rightarrow> 'a option) \<Rightarrow> ('a \<Rightarrow> ('t, 'a) mem_m) \<Rightarrow>
   nat option \<Rightarrow> ('t, nat option) mem_m" where
  "new_copy zero wrap unwrap DeepCopyInto p =
     (case p of
        None \<Rightarrow> ret None
      | Some a \<Rightarrow> do {
          out \<leftarrow> alloc (wrap zero);
          x \<leftarrow> gets (\<lambda>m. load unwrap zero m a);
          y \<leftarrow> DeepCopyInto x;
          store out (wrap y);
          ret (Some out)
        })"

text \<open>The loop over a slice: \<^verbatim>\<open>make\<close>, then each element into its place.\<close>

fun copy_elements ::
  "('a list \<Rightarrow> 't cell) \<Rightarrow> ('t cell \<Rightarrow> 'a list option) \<Rightarrow> ('a \<Rightarrow> ('t, 'a) mem_m) \<Rightarrow>
   nat \<Rightarrow> nat \<Rightarrow> 'a list \<Rightarrow> ('t, unit) mem_m" where
  "copy_elements wrap unwrap copy out i [] = ret ()"
| "copy_elements wrap unwrap copy out i (x # xs) = do {
     y \<leftarrow> copy x;
     arr \<leftarrow> gets (\<lambda>m. load unwrap [] m out);
     store out (wrap (arr[i := y]));
     copy_elements wrap unwrap copy out (Suc i) xs
   }"

definition copy_slice ::
  "'a \<Rightarrow> ('a list \<Rightarrow> 't cell) \<Rightarrow> ('t cell \<Rightarrow> 'a list option) \<Rightarrow> ('a \<Rightarrow> ('t, 'a) mem_m) \<Rightarrow>
   nat option \<Rightarrow> ('t, nat option) mem_m" where
  "copy_slice zero wrap unwrap copy p =
     (case p of
        None \<Rightarrow> ret None
      | Some a \<Rightarrow> do {
          xs \<leftarrow> gets (\<lambda>m. load unwrap [] m a);
          out \<leftarrow> alloc (wrap (replicate (length xs) zero));
          copy_elements wrap unwrap copy out 0 xs;
          ret (Some out)
        })"

fun copy_entries :: "nat \<Rightarrow> str_map \<Rightarrow> ('t, unit) mem_m" where
  "copy_entries out [] = ret ()"
| "copy_entries out ((key, val) # xs) = do {
     cur \<leftarrow> gets (\<lambda>m. load un_map [] m out);
     store out (CMap (AList.update key val cur));
     copy_entries out xs
   }"

definition copy_map :: "nat option \<Rightarrow> ('t, nat option) mem_m" where
  "copy_map p =
     (case p of
        None \<Rightarrow> ret None
      | Some a \<Rightarrow> do {
          xs \<leftarrow> gets (\<lambda>m. load un_map [] m a);
          out \<leftarrow> alloc (CMap []);
          copy_entries out xs;
          ret (Some out)
        })"

definition Cluster_DeepCopyInto :: "Cluster \<Rightarrow> ('t, Cluster) mem_m" where
  "Cluster_DeepCopyInto x = ret x"

definition Cluster_DeepCopy :: "nat option \<Rightarrow> ('t, nat option) mem_m" where
  "Cluster_DeepCopy = new_copy \<lparr>clusterSize = 0\<rparr> CCluster un_cluster Cluster_DeepCopyInto"

definition FileStorage_DeepCopyInto :: "'t copy_lib \<Rightarrow> 't hFileStorage \<Rightarrow> ('t, 't hFileStorage) mem_m" where
  "FileStorage_DeepCopyInto K x = do {
     size_n \<leftarrow> k_qty_copy K (hfSize x);
     ret (x\<lparr>hfSize := size_n\<rparr>)
   }"

definition zero_file :: "'t copy_lib \<Rightarrow> 't hFileStorage" where
  "zero_file K = \<lparr>hfClass = [], hfSize = k_zero_qty K\<rparr>"

definition FileStorage_DeepCopy :: "'t copy_lib \<Rightarrow> nat option \<Rightarrow> ('t, nat option) mem_m" where
  "FileStorage_DeepCopy K = new_copy (zero_file K) CFileStorage un_file (FileStorage_DeepCopyInto K)"

definition MemStorage_DeepCopyInto :: "'t copy_lib \<Rightarrow> 't hMemStorage \<Rightarrow> ('t, 't hMemStorage) mem_m" where
  "MemStorage_DeepCopyInto K x = do {
     size_n \<leftarrow> k_qty_copy K (hmSize x);
     ret (x\<lparr>hmSize := size_n\<rparr>)
   }"

definition zero_mem :: "'t copy_lib \<Rightarrow> 't hMemStorage" where
  "zero_mem K = \<lparr>hmEnabled = False, hmSize = k_zero_qty K\<rparr>"

definition MemStorage_DeepCopy :: "'t copy_lib \<Rightarrow> nat option \<Rightarrow> ('t, nat option) mem_m" where
  "MemStorage_DeepCopy K = new_copy (zero_mem K) CMemStorage un_mem (MemStorage_DeepCopyInto K)"

definition JetStream_DeepCopyInto :: "'t copy_lib \<Rightarrow> 't hJetStream \<Rightarrow> ('t, 't hJetStream) mem_m" where
  "JetStream_DeepCopyInto K x = do {
     mem \<leftarrow> MemStorage_DeepCopyInto K (hjMem x);
     file \<leftarrow> FileStorage_DeepCopyInto K (hjFile x);
     ret (x\<lparr>hjMem := mem, hjFile := file\<rparr>)
   }"

definition zero_jetstream :: "'t copy_lib \<Rightarrow> 't hJetStream" where
  "zero_jetstream K = \<lparr>hjMem = zero_mem K, hjFile = zero_file K\<rparr>"

definition JetStream_DeepCopy :: "'t copy_lib \<Rightarrow> nat option \<Rightarrow> ('t, nat option) mem_m" where
  "JetStream_DeepCopy K = new_copy (zero_jetstream K) CJetStream un_jetstream (JetStream_DeepCopyInto K)"

definition Logging_DeepCopyInto :: "Logging \<Rightarrow> ('t, Logging) mem_m" where
  "Logging_DeepCopyInto x = ret x"

definition zero_logging :: Logging where
  "zero_logging = \<lparr>logDebug = False, logTrace = False\<rparr>"

definition Logging_DeepCopy :: "nat option \<Rightarrow> ('t, nat option) mem_m" where
  "Logging_DeepCopy = new_copy zero_logging CLogging un_logging Logging_DeepCopyInto"

definition NATSSpec_DeepCopyInto :: "'t copy_lib \<Rightarrow> 't hSpec \<Rightarrow> ('t, 't hSpec) mem_m" where
  "NATSSpec_DeepCopyInto K x = do {
     jetStream \<leftarrow> JetStream_DeepCopyInto K (hsJetStream x);
     resources \<leftarrow> k_resources_copy K (hsResources x);
     annotations \<leftarrow> copy_map (hsAnnotations x);
     labels \<leftarrow> copy_map (hsLabels x);
     ret (x\<lparr>hsJetStream := jetStream, hsResources := resources, hsAnnotations := annotations, hsLabels := labels\<rparr>)
   }"

definition zero_spec :: "'t copy_lib \<Rightarrow> 't hSpec" where
  "zero_spec K = \<lparr>hsCluster = \<lparr>clusterSize = 0\<rparr>, hsJetStream = zero_jetstream K, hsLogging = zero_logging,
     hsResources = k_zero_resources K, hsAnnotations = None, hsLabels = None\<rparr>"

definition NATSSpec_DeepCopy :: "'t copy_lib \<Rightarrow> nat option \<Rightarrow> ('t, nat option) mem_m" where
  "NATSSpec_DeepCopy K = new_copy (zero_spec K) CSpec un_spec (NATSSpec_DeepCopyInto K)"

definition NATSStatus_DeepCopyInto :: "'t copy_lib \<Rightarrow> hStatus \<Rightarrow> ('t, hStatus) mem_m" where
  "NATSStatus_DeepCopyInto K x = do {
     conditions \<leftarrow> copy_slice (k_zero_condition K) CConditions un_conditions (k_condition_copy K) (htConditions x);
     ret (x\<lparr>htConditions := conditions\<rparr>)
   }"

definition zero_hstatus :: hStatus where
  "zero_hstatus = \<lparr>htState = [], htURL = [], htZones = 0, htConditions = None\<rparr>"

definition NATSStatus_DeepCopy :: "'t copy_lib \<Rightarrow> nat option \<Rightarrow> ('t, nat option) mem_m" where
  "NATSStatus_DeepCopy K = new_copy zero_hstatus CStatus un_status (NATSStatus_DeepCopyInto K)"

definition NATS_DeepCopyInto :: "'t copy_lib \<Rightarrow> 't hNATS \<Rightarrow> ('t, 't hNATS) mem_m" where
  "NATS_DeepCopyInto K x = do {
     objectMeta \<leftarrow> k_meta_copy K (hnMeta x);
     spec \<leftarrow> NATSSpec_DeepCopyInto K (hnSpec x);
     status \<leftarrow> NATSStatus_DeepCopyInto K (hnStatus x);
     ret (x\<lparr>hnMeta := objectMeta, hnSpec := spec, hnStatus := status\<rparr>)
   }"

definition zero_nats :: "'t copy_lib \<Rightarrow> 't hNATS" where
  "zero_nats K = \<lparr>hnAPIVersion = [], hnKind = [], hnMeta = k_zero_meta K, hnSpec = zero_spec K,
     hnStatus = zero_hstatus\<rparr>"

definition NATS_DeepCopy :: "'t copy_lib \<Rightarrow> nat option \<Rightarrow> ('t, nat option) mem_m" where
  "NATS_DeepCopy K = new_copy (zero_nats K) CNATS un_nats (NATS_DeepCopyInto K)"

definition NATS_DeepCopyObject :: "'t copy_lib \<Rightarrow> nat option \<Rightarrow> ('t, nat option) mem_m" where
  "NATS_DeepCopyObject K p = do {
     c \<leftarrow> NATS_DeepCopy K p;
     (if c \<noteq> None then ret c else ret None)
   }"

definition NATSList_DeepCopyInto :: "'t copy_lib \<Rightarrow> 't hNATSList \<Rightarrow> ('t, 't hNATSList) mem_m" where
  "NATSList_DeepCopyInto K x = do {
     listMeta \<leftarrow> k_listmeta_copy K (hlMeta x);
     items \<leftarrow> copy_slice (zero_nats K) CItems un_items (NATS_DeepCopyInto K) (hlItems x);
     ret (x\<lparr>hlMeta := listMeta, hlItems := items\<rparr>)
   }"

definition zero_list :: "'t copy_lib \<Rightarrow> 't hNATSList" where
  "zero_list K = \<lparr>hlAPIVersion = [], hlKind = [], hlMeta = k_zero_listmeta K, hlItems = None\<rparr>"

definition NATSList_DeepCopy :: "'t copy_lib \<Rightarrow> nat option \<Rightarrow> ('t, nat option) mem_m" where
  "NATSList_DeepCopy K = new_copy (zero_list K) CNATSList un_list (NATSList_DeepCopyInto K)"

definition NATSList_DeepCopyObject :: "'t copy_lib \<Rightarrow> nat option \<Rightarrow> ('t, nat option) mem_m" where
  "NATSList_DeepCopyObject K p = do {
     c \<leftarrow> NATSList_DeepCopy K p;
     (if c \<noteq> None then ret c else ret None)
   }"

section \<open>The contract of a deep copy\<close>

text \<open>
  An object has a value, reaches a set of addresses, and may or may not be well-formed; all three depend
  only on the cells it reaches. A deep copy keeps the old memory, and the new object has the same value
  and reaches new addresses only.
\<close>

instantiation memory_ext :: (type, type) preorder
begin

definition less_eq_memory_ext :: "('a, 'b) memory_scheme \<Rightarrow> ('a, 'b) memory_scheme \<Rightarrow> bool" where
  "less_eq_memory_ext m m' \<longleftrightarrow> limit m \<le> limit m' \<and> (\<forall>a < limit m. cells m' a = cells m a)"

definition less_memory_ext :: "('a, 'b) memory_scheme \<Rightarrow> ('a, 'b) memory_scheme \<Rightarrow> bool" where
  "less_memory_ext m m' \<longleftrightarrow> m \<le> m' \<and> \<not> m' \<le> m"

instance
  by standard (auto simp: less_eq_memory_ext_def less_memory_ext_def)

end

abbreviation extends :: "'t memory \<Rightarrow> 't memory \<Rightarrow> bool" where
  "extends m m' \<equiv> m \<le> m'"

lemmas extends_def = less_eq_memory_ext_def
definition agree :: "nat set \<Rightarrow> 't memory \<Rightarrow> 't memory \<Rightarrow> bool" where
  "agree A m m' \<longleftrightarrow> limit m \<le> limit m' \<and> (\<forall>a \<in> A. cells m' a = cells m a)"

lemma extends_agree: "extends m m' \<Longrightarrow> A \<subseteq> {..<limit m} \<Longrightarrow> agree A m m'"
  by (auto simp: extends_def agree_def)

lemma agree_mono: "agree A m m' \<Longrightarrow> B \<subseteq> A \<Longrightarrow> agree B m m'"
  by (auto simp: agree_def)

locale footprint =
  fixes view :: "'t memory \<Rightarrow> 'a \<Rightarrow> 'v" and reach :: "'t memory \<Rightarrow> 'a \<Rightarrow> nat set" and valid :: "'t memory \<Rightarrow> 'a \<Rightarrow> bool"
  assumes at_home: "valid m x \<Longrightarrow> agree (reach m x) m m' \<Longrightarrow>
      valid m' x \<and> view m' x = view m x \<and> reach m' x = reach m x"
    and allocated: "valid m x \<Longrightarrow> reach m x \<subseteq> {..<limit m}"
begin

lemma carried:
  assumes "valid m x" "extends m m'"
  shows "valid m' x" and "view m' x = view m x" and "reach m' x = reach m x"
  using at_home [OF assms(1) extends_agree [OF assms(2) allocated [OF assms(1)]]] by simp_all

end

definition is_copy ::
  "('t memory \<Rightarrow> 'a \<Rightarrow> 'v) \<Rightarrow> ('t memory \<Rightarrow> 'a \<Rightarrow> nat set) \<Rightarrow> ('t memory \<Rightarrow> 'a \<Rightarrow> bool) \<Rightarrow>
   't memory \<Rightarrow> 'a \<Rightarrow> 'a \<Rightarrow> 't memory \<Rightarrow> bool" where
  "is_copy view reach valid m x y m' \<longleftrightarrow>
     extends m m' \<and> valid m' y \<and> view m' y = view m x \<and> reach m' y \<subseteq> {limit m..<limit m'}"

locale deep_copier = footprint view reach valid
  for view :: "'t memory \<Rightarrow> 'a \<Rightarrow> 'v" and reach :: "'t memory \<Rightarrow> 'a \<Rightarrow> nat set" and valid :: "'t memory \<Rightarrow> 'a \<Rightarrow> bool" +
  fixes copy :: "'a \<Rightarrow> ('t, 'a) mem_m"
  assumes copies: "valid m x \<Longrightarrow> wp (copy x) (is_copy view reach valid m x) m"
begin

text \<open>A later write into the copy does not show in the original, and the other way round.\<close>

lemma independent:
  assumes "valid m x" "run_state (copy x) m = (y, m')"
  shows "view m' y = view m x" and "reach m' y \<inter> reach m' x = {}"
    and "agree (reach m' x) m' n \<Longrightarrow> view n x = view m x"
    and "agree (reach m' y) m' n \<Longrightarrow> view n y = view m x"
proof -
  have c: "extends m m'" "valid m' y" "view m' y = view m x" "reach m' y \<subseteq> {limit m..<limit m'}"
    using wpD [OF copies [OF assms(1)] assms(2)] by (simp_all add: is_copy_def)
  note x = carried [OF assms(1) c(1)]
  show "view m' y = view m x" by (rule c)
  show "reach m' y \<inter> reach m' x = {}" using c(4) allocated [OF assms(1)] x(3) by fastforce
  show "view n x = view m x" if "agree (reach m' x) m' n" using at_home [OF x(1) that] x(2) by simp
  show "view n y = view m x" if "agree (reach m' y) m' n" using at_home [OF c(2) that] c(3) by simp
qed

end

section \<open>Copying in parts\<close>

text \<open>A type without references.\<close>

lemma plain_copier: "deep_copier (\<lambda>m x. F x) (\<lambda>_ _. {}) (\<lambda>_ _. True) ret"
  by unfold_locales (simp_all add: is_copy_def wp_ret)

lemma is_copyD:
  assumes "is_copy view reach valid m x y m'"
  shows "extends m m'" "valid m' y" "view m' y = view m x" "reach m' y \<subseteq> {limit m..<limit m'}"
  using assms by (simp_all add: is_copy_def)

text \<open>Two parts, one after the other.\<close>

definition pair_copy ::
  "('a \<Rightarrow> ('t, 'a) mem_m) \<Rightarrow> ('b \<Rightarrow> ('t, 'b) mem_m) \<Rightarrow> 'a \<times> 'b \<Rightarrow> ('t, 'a \<times> 'b) mem_m" where
  "pair_copy c1 c2 p = do {
     x \<leftarrow> c1 (fst p);
     y \<leftarrow> c2 (snd p);
     ret (x, y)
   }"

locale two_copiers = a: deep_copier v1 r1 ok1 c1 + b: deep_copier v2 r2 ok2 c2
  for v1 :: "'t memory \<Rightarrow> 'a \<Rightarrow> 'v" and r1 ok1 c1 and v2 :: "'t memory \<Rightarrow> 'b \<Rightarrow> 'w" and r2 ok2 c2
begin

lemma pair_copier:
  "deep_copier (\<lambda>m p. (v1 m (fst p), v2 m (snd p))) (\<lambda>m p. r1 m (fst p) \<union> r2 m (snd p))
    (\<lambda>m p. ok1 m (fst p) \<and> ok2 m (snd p)) (pair_copy c1 c2)"
  (is "deep_copier ?v ?r ?ok _")
proof
  fix m m' :: "'t memory" and p assume ok: "?ok m p"
  { assume "agree (?r m p) m m'"
    then have "agree (r1 m (fst p)) m m'" "agree (r2 m (snd p)) m m'" by (auto elim: agree_mono)
    with ok show "?ok m' p \<and> ?v m' p = ?v m p \<and> ?r m' p = ?r m p"
      using a.at_home [of m "fst p" m'] b.at_home [of m "snd p" m'] by simp }
  show "?r m p \<subseteq> {..<limit m}" using ok a.allocated b.allocated by simp
  show "wp (pair_copy c1 c2 p) (is_copy ?v ?r ?ok m p) m"
    unfolding pair_copy_def wp_bind
  proof (rule wp_mono [OF a.copies])
    show "ok1 m (fst p)" using ok ..
    fix x n assume "is_copy v1 r1 ok1 m (fst p) x n"
    note x = is_copyD [OF this]
    note snd = b.carried [OF conjunct2 [OF ok] x(1)]
    show "wp (c2 (snd p)) (\<lambda>y. wp (ret (x, y)) (is_copy ?v ?r ?ok m p)) n"
    proof (rule wp_mono [OF b.copies [OF snd(1)]], unfold wp_ret)
      fix y k assume "is_copy v2 r2 ok2 n (snd p) y k"
      note y = is_copyD [OF this]
      have "extends m k" using x(1) y(1) by (rule order_trans)
      moreover have "r1 k x \<union> r2 k y \<subseteq> {limit m..<limit k}"
        using x(4) y(4) a.carried(3) [OF x(2) y(1)] x(1) y(1) by (force simp: extends_def)
      ultimately show "is_copy ?v ?r ?ok m p (x, y) k"
        using a.carried [OF x(2) y(1)] x(3) y(2,3) snd(2) by (simp add: is_copy_def)
    qed
  qed
qed

end

lemmas pair_copier = two_copiers.pair_copier [OF two_copiers.intro]

text \<open>A struct whose references lie in a part of it.\<close>

lemma struct_copier:
  assumes "deep_copier view reach valid copy"
    and "\<And>x y. proj (upd y x) = y" and "\<And>x y v. F (upd y x) v = F x v"
  shows "deep_copier (\<lambda>m x. F x (view m (proj x))) (\<lambda>m x. reach m (proj x)) (\<lambda>m x. valid m (proj x))
    (\<lambda>x. do { y \<leftarrow> copy (proj x); ret (upd y x) })"
proof
  note part = deep_copier.axioms(1) [OF assms(1)]
  fix m m' :: "'a memory" and x assume ok: "valid m (proj x)"
  show "valid m' (proj x) \<and> F x (view m' (proj x)) = F x (view m (proj x)) \<and> reach m' (proj x) = reach m (proj x)"
    if "agree (reach m (proj x)) m m'"
    using footprint.at_home [OF part ok that] by simp
  show "reach m (proj x) \<subseteq> {..<limit m}" by (rule footprint.allocated [OF part ok])
  show "wp (do { y \<leftarrow> copy (proj x); ret (upd y x) })
      (is_copy (\<lambda>m x. F x (view m (proj x))) (\<lambda>m x. reach m (proj x)) (\<lambda>m x. valid m (proj x)) m x) m"
    unfolding wp_bind wp_ret
    by (rule wp_mono [OF deep_copier.copies [OF assms(1) ok]]) (simp add: is_copy_def assms(2,3))
qed


section \<open>References\<close>

definition ref_valid ::
  "('t cell \<Rightarrow> 'a option) \<Rightarrow> ('t memory \<Rightarrow> 'a \<Rightarrow> bool) \<Rightarrow> 't memory \<Rightarrow> nat option \<Rightarrow> bool" where
  "ref_valid unwrap valid m p \<longleftrightarrow> (case p of None \<Rightarrow> True | Some a \<Rightarrow>
     a < limit m \<and> (case cells m a of None \<Rightarrow> False | Some c \<Rightarrow>
       (case unwrap c of None \<Rightarrow> False | Some x \<Rightarrow> valid m x)))"

definition ref_view ::
  "('t cell \<Rightarrow> 'a option) \<Rightarrow> 'a \<Rightarrow> ('t memory \<Rightarrow> 'a \<Rightarrow> 'v) \<Rightarrow> 't memory \<Rightarrow> nat option \<Rightarrow> 'v option" where
  "ref_view unwrap zero view m p = map_option (\<lambda>a. view m (load unwrap zero m a)) p"

definition ref_reach ::
  "('t cell \<Rightarrow> 'a option) \<Rightarrow> 'a \<Rightarrow> ('t memory \<Rightarrow> 'a \<Rightarrow> nat set) \<Rightarrow> 't memory \<Rightarrow> nat option \<Rightarrow> nat set" where
  "ref_reach unwrap zero reach m p = (case p of None \<Rightarrow> {} | Some a \<Rightarrow> insert a (reach m (load unwrap zero m a)))"

lemma ref_nil [simp]:
  "ref_valid unwrap valid m None" "ref_view unwrap zero view m None = None" "ref_reach unwrap zero reach m None = {}"
  by (simp_all add: ref_valid_def ref_view_def ref_reach_def)

lemma ref_cell:
  assumes "cells m a = Some c" "unwrap c = Some x"
  shows "load unwrap zero m a = x" and "ref_valid unwrap valid m (Some a) \<longleftrightarrow> a < limit m \<and> valid m x"
    and "ref_view unwrap zero view m (Some a) = Some (view m x)"
    and "ref_reach unwrap zero reach m (Some a) = insert a (reach m x)"
  using assms by (simp_all add: ref_valid_def ref_view_def ref_reach_def load_def)

lemma ref_validE:
  assumes "ref_valid unwrap valid m (Some a)"
  obtains c x where "cells m a = Some c" "unwrap c = Some x" "a < limit m" "valid m x"
  using assms by (auto simp: ref_valid_def split: option.splits)

lemma ref_footprint:
  assumes "footprint view reach valid"
  shows "footprint (ref_view unwrap zero view) (ref_reach unwrap zero reach) (ref_valid unwrap valid)"
proof
  fix m m' :: "'a memory" and p assume ok: "ref_valid unwrap valid m p"
  show "ref_reach unwrap zero reach m p \<subseteq> {..<limit m}"
    using ok by (cases p) (auto elim!: ref_validE simp: ref_cell dest: subsetD [OF footprint.allocated [OF assms]])
  assume ag: "agree (ref_reach unwrap zero reach m p) m m'"
  show "ref_valid unwrap valid m' p \<and> ref_view unwrap zero view m' p = ref_view unwrap zero view m p \<and>
      ref_reach unwrap zero reach m' p = ref_reach unwrap zero reach m p"
  proof (cases p)
    case (Some a)
    with ok obtain c x where x: "cells m a = Some c" "unwrap c = Some x" "a < limit m" "valid m x"
      by (auto elim: ref_validE)
    have "agree (reach m x) m m'" and x': "cells m' a = Some c" "limit m \<le> limit m'"
      using ag Some x by (auto simp: ref_cell agree_def)
    with footprint.at_home [OF assms x(4) this(1)] x Some show ?thesis
      by (simp add: ref_cell [of m a c unwrap x] ref_cell [of m' a c unwrap x])
  qed simp
qed

lemma ref_is_copy:
  assumes "cells m a = Some c" "unwrap c = Some x" and "unwrap (wrap y) = Some y"
    and "cells m' (limit m) = Some (wrap y)" "limit m < limit m'" "extends m m'"
    and "valid m' y" "view m' y = view m x" "reach m' y \<subseteq> {limit m..<limit m'}"
  shows "is_copy (ref_view unwrap zero view) (ref_reach unwrap zero reach) (ref_valid unwrap valid) m (Some a)
    (Some (limit m)) m'"
  using assms by (simp add: is_copy_def ref_cell)

lemma extends_alloc: "extends m (m\<lparr>cells := (cells m)(limit m \<mapsto> c), limit := Suc (limit m)\<rparr>)"
  by (simp add: extends_def)

lemma wp_alloc [wp_simps]:
  "wp (alloc c) Q m = Q (limit m) (m\<lparr>cells := (cells m)(limit m \<mapsto> c), limit := Suc (limit m)\<rparr>)"
  by (simp add: wp_def)

lemma wp_store [wp_simps]: "wp (store a c) Q m = Q () (m\<lparr>cells := (cells m)(a \<mapsto> c)\<rparr>)"
  by (simp add: wp_def)

text \<open>The same rules for a postcondition that is a function of the state.\<close>

lemma wp_fun:
  "wp (m \<bind> f) Q = wp m (\<lambda>x. wp (f x) Q)" "wp (ret x) Q = Q x" "wp (gets g) Q = (\<lambda>s. Q (g s) s)"
  "wp (store a c) P = (\<lambda>m. P () (m\<lparr>cells := (cells m)(a \<mapsto> c)\<rparr>))"
  "wp (alloc c) R = (\<lambda>m. R (limit m) (m\<lparr>cells := (cells m)(limit m \<mapsto> c), limit := Suc (limit m)\<rparr>))"
  by (simp_all add: fun_eq_iff wp_simps)

lemma agree_store: "a \<notin> A \<Longrightarrow> agree A m (m\<lparr>cells := (cells m)(a \<mapsto> c)\<rparr>)"
  by (auto simp: agree_def)

lemma extends_store: "extends m n \<Longrightarrow> limit m \<le> a \<Longrightarrow> extends m (n\<lparr>cells := (cells n)(a \<mapsto> c)\<rparr>)"
  by (auto simp: extends_def)

context deep_copier
begin

text \<open>\<^verbatim>\<open>DeepCopy\<close> from \<^verbatim>\<open>DeepCopyInto\<close>.\<close>

lemma new_copier:
  assumes wrap: "\<And>x. unwrap (wrap x) = Some x"
  shows "deep_copier (ref_view unwrap zero view) (ref_reach unwrap zero reach) (ref_valid unwrap valid)
    (new_copy zero wrap unwrap copy)"
proof (intro deep_copier.intro ref_footprint footprint_axioms deep_copier_axioms.intro)
  let ?c = "is_copy (ref_view unwrap zero view) (ref_reach unwrap zero reach) (ref_valid unwrap valid)"
  fix m p assume ok: "ref_valid unwrap valid m p"
  show "wp (new_copy zero wrap unwrap copy p) (?c m p) m"
  proof (cases p)
    case None
    then show ?thesis by (simp add: new_copy_def wp_ret is_copy_def)
  next
    case (Some a)
    with ok obtain c x where x: "cells m a = Some c" "unwrap c = Some x" "a < limit m" "valid m x"
      by (auto elim: ref_validE)
    let ?n = "m\<lparr>cells := (cells m)(limit m \<mapsto> wrap zero), limit := Suc (limit m)\<rparr>"
    have load: "load unwrap zero ?n a = x" using x by (simp add: load_def)
    have ok: "valid ?n x" "view ?n x = view m x" using carried [OF x(4) extends_alloc] by simp_all
    have "wp (copy x) (\<lambda>y k. ?c m p (Some (limit m)) (k\<lparr>cells := (cells k)(limit m \<mapsto> wrap y)\<rparr>)) ?n"
    proof (rule wp_mono [OF copies [OF ok(1)]])
      fix y k assume "is_copy view reach valid ?n x y k"
      note y = is_copyD [OF this]
      let ?k = "k\<lparr>cells := (cells k)(limit m \<mapsto> wrap y)\<rparr>"
      have "limit m \<notin> reach k y" using y(4) by auto
      then have fresh: "valid ?k y" "view ?k y = view k y" "reach ?k y = reach k y"
        using at_home [OF y(2) agree_store] by simp_all
      have "extends m ?k" using order_trans [OF extends_alloc y(1)] by (rule extends_store) simp
      then show "?c m p (Some (limit m)) ?k"
        unfolding Some using fresh y(1,3,4) ok(2) x
        by (intro ref_is_copy [where c = c and x = x and y = y]) (auto simp: wrap extends_def)
    qed
    then show ?thesis by (simp only: Some new_copy_def option.case wp_fun load)
  qed
qed

text \<open>The loop over a slice. The elements before \<open>i\<close> are done, those after it hold the zero value.\<close>

abbreviation "views m xs \<equiv> map (view m) xs"
abbreviation "reaches m xs \<equiv> (\<Union>x \<in> set xs. reach m x)"
abbreviation "valids m xs \<equiv> list_all (valid m) xs"

lemma list_at_home:
  "valids m xs \<Longrightarrow> agree (reaches m xs) m m' \<Longrightarrow> valids m' xs \<and> views m' xs = views m xs \<and> reaches m' xs = reaches m xs"
proof (induction xs)
  case (Cons x xs)
  then have "agree (reach m x) m m'" "agree (reaches m xs) m m'" by (auto elim: agree_mono)
  with Cons at_home [of m x m'] show ?case by simp
qed simp

lemma list_footprint: "footprint views reaches valids"
proof
  show "reaches m xs \<subseteq> {..<limit m}" if "valids m xs" for m xs
    using that allocated by (fastforce simp: list_all_iff)
qed (rule list_at_home)

definition half_copied :: "'t memory \<Rightarrow> ('a list \<Rightarrow> 't cell) \<Rightarrow> 'v list \<Rightarrow> 'a list \<Rightarrow> 'a list \<Rightarrow> 't memory \<Rightarrow> bool" where
  "half_copied m wrap vs ys zs n \<longleftrightarrow> extends m n \<and> limit m < limit n \<and> cells n (limit m) = Some (wrap (ys @ zs)) \<and>
     valids n ys \<and> views n ys = vs \<and> reaches n ys \<subseteq> {Suc (limit m)..<limit n}"

lemma copy_elements_wp:
  assumes wrap: "\<And>x. unwrap (wrap x) = Some x"
  shows "half_copied m wrap vs ys zs n \<Longrightarrow> length zs = length xs \<Longrightarrow> valids m xs \<Longrightarrow>
    wp (copy_elements wrap unwrap copy (limit m) (length ys) xs)
      (\<lambda>_ k. \<exists>ws. half_copied m wrap (vs @ views m xs) ws [] k) n"
proof (induction xs arbitrary: vs ys zs n)
  case Nil
  then show ?case by (auto simp: wp_ret)
next
  case (Cons x xs)
  then obtain z zs' where zs: "zs = z # zs'" "length zs' = length xs" by (cases zs) auto
  note h = Cons.prems(1) [unfolded half_copied_def]
  from Cons.prems(3) h have ok: "valid n x" "view n x = view m x" using carried [of m x n] by simp_all
  have "wp (copy x) (\<lambda>y k. wp (copy_elements wrap unwrap copy (limit m) (length (ys @ [y])) xs)
      (\<lambda>_ k. \<exists>ws. half_copied m wrap (vs @ views m (x # xs)) ws [] k)
      (k\<lparr>cells := (cells k)(limit m \<mapsto> wrap ((load unwrap [] k (limit m))[length ys := y]))\<rparr>)) n"
  proof (rule wp_mono [OF copies [OF ok(1)]])
    fix y k assume "is_copy view reach valid n x y k"
    note y = is_copyD [OF this]
    have arr: "(load unwrap [] k (limit m))[length ys := y] = (ys @ [y]) @ zs'"
      using h y(1) by (simp add: load_def extends_def wrap zs(1))
    let ?k = "k\<lparr>cells := (cells k)(limit m \<mapsto> wrap ((ys @ [y]) @ zs'))\<rparr>"
    have old: "valids k ys" "views k ys = vs" "reaches k ys = reaches n ys"
      using footprint.carried [OF list_footprint, of n ys k] h y(1) by simp_all
    have bounds: "limit m < limit n" "limit n \<le> limit k" "reaches n ys \<subseteq> {Suc (limit m)..<limit n}"
      using h y(1) by (simp_all add: extends_def)
    have "reaches n ys \<subseteq> {Suc (limit m)..<limit k}" by (rule order_trans [OF bounds(3)]) (use bounds in auto)
    moreover have "reach k y \<subseteq> {Suc (limit m)..<limit k}" by (rule order_trans [OF y(4)]) (use bounds in auto)
    ultimately have fresh: "reaches k (ys @ [y]) \<subseteq> {Suc (limit m)..<limit k}" by (simp add: old(3))
    then have "agree (reaches k (ys @ [y])) k ?k" by (intro agree_store) auto
    then have "valids ?k (ys @ [y])" "views ?k (ys @ [y]) = vs @ [view m x]" "reaches ?k (ys @ [y]) = reaches k (ys @ [y])"
      using list_at_home [of k "ys @ [y]" ?k] old y(2,3) ok(2) by simp_all
    moreover have "extends m ?k" using order_trans [OF _ y(1)] h by (intro extends_store) auto
    moreover have "limit m < limit ?k" using h y(1) by (simp add: extends_def)
    ultimately have "half_copied m wrap (vs @ [view m x]) (ys @ [y]) zs' ?k"
      using fresh unfolding half_copied_def by simp
    from Cons.IH [OF this zs(2)] Cons.prems(3)
    show "wp (copy_elements wrap unwrap copy (limit m) (length (ys @ [y])) xs)
      (\<lambda>_ k. \<exists>ws. half_copied m wrap (vs @ views m (x # xs)) ws [] k)
      (k\<lparr>cells := (cells k)(limit m \<mapsto> wrap ((load unwrap [] k (limit m))[length ys := y]))\<rparr>)"
      unfolding arr by simp
  qed
  then show ?case by (simp add: wp_fun)
qed

lemma slice_copier:
  assumes wrap: "\<And>x. unwrap (wrap x) = Some x"
  shows "deep_copier (ref_view unwrap [] views) (ref_reach unwrap [] reaches) (ref_valid unwrap valids)
    (copy_slice zero wrap unwrap copy)"
proof (intro deep_copier.intro ref_footprint list_footprint deep_copier_axioms.intro)
  let ?c = "is_copy (ref_view unwrap [] views) (ref_reach unwrap [] reaches) (ref_valid unwrap valids)"
  fix m p assume ok: "ref_valid unwrap valids m p"
  show "wp (copy_slice zero wrap unwrap copy p) (?c m p) m"
  proof (cases p)
    case None
    then show ?thesis by (simp add: copy_slice_def wp_ret is_copy_def)
  next
    case (Some a)
    with ok obtain c xs where x: "cells m a = Some c" "unwrap c = Some xs" "a < limit m" "valids m xs"
      by (auto elim: ref_validE)
    have load: "load unwrap [] m a = xs" using x by (simp add: load_def)
    let ?n = "m\<lparr>cells := (cells m)(limit m \<mapsto> wrap (replicate (length xs) zero)), limit := Suc (limit m)\<rparr>"
    have "half_copied m wrap [] [] (replicate (length xs) zero) ?n"
      by (simp add: half_copied_def extends_alloc)
    from copy_elements_wp [where unwrap = unwrap and wrap = wrap, OF wrap this _ x(4)]
    have "wp (copy_elements wrap unwrap copy (limit m) (length []) xs)
        (\<lambda>_ k. \<exists>ws. half_copied m wrap ([] @ views m xs) ws [] k) ?n" by simp
    then have "wp (copy_elements wrap unwrap copy (limit m) 0 xs) (\<lambda>_. ?c m p (Some (limit m))) ?n"
      unfolding list.size Some
      by (rule wp_mono) (force simp: half_copied_def intro!: ref_is_copy [of m a c unwrap xs] x wrap)
    then show ?thesis by (simp only: Some copy_slice_def option.case wp_fun load)
  qed
qed

end


text \<open>Maps, whose keys are distinct. Copying entry by entry in any order gives the same map.\<close>

lemma update_new: "k \<notin> set (map fst xs) \<Longrightarrow> AList.update k v xs = xs @ [(k, v)]"
  by (induction xs) auto

lemma copy_entries_wp:
  "extends m n \<Longrightarrow> limit m < limit n \<Longrightarrow> cells n (limit m) = Some (CMap ys) \<Longrightarrow> distinct (map fst (ys @ xs)) \<Longrightarrow>
   wp (copy_entries (limit m) xs)
     (\<lambda>_ k. extends m k \<and> limit m < limit k \<and> cells k (limit m) = Some (CMap (ys @ xs))) n"
proof (induction xs arbitrary: ys n)
  case Nil
  then show ?case by (simp add: wp_ret)
next
  case (Cons e xs)
  obtain key val where e: "e = (key, val)" by force
  let ?n = "n\<lparr>cells := (cells n)(limit m \<mapsto> CMap (ys @ [e]))\<rparr>"
  have "AList.update key val (load un_map [] n (limit m)) = ys @ [e]"
    using Cons.prems(3,4) e by (simp add: load_def update_new)
  moreover have "wp (copy_entries (limit m) xs)
     (\<lambda>_ k. extends m k \<and> limit m < limit k \<and> cells k (limit m) = Some (CMap ((ys @ [e]) @ xs))) ?n"
    by (rule Cons.IH) (use Cons.prems in \<open>simp_all add: extends_store\<close>)
  ultimately show ?case by (simp add: e wp_simps)
qed

definition map_view :: "'t memory \<Rightarrow> nat option \<Rightarrow> str_map option" where
  "map_view = ref_view un_map [] (\<lambda>m xs. xs)"

definition map_reach :: "'t memory \<Rightarrow> nat option \<Rightarrow> nat set" where
  "map_reach = ref_reach un_map [] (\<lambda>m xs. {})"

definition map_valid :: "'t memory \<Rightarrow> nat option \<Rightarrow> bool" where
  "map_valid = ref_valid un_map (\<lambda>m xs. distinct (map fst xs))"

interpretation map_copy: deep_copier map_view map_reach map_valid copy_map
  unfolding map_view_def map_reach_def map_valid_def
proof (intro deep_copier.intro ref_footprint footprint.intro deep_copier_axioms.intro)
  let ?ok = "ref_valid un_map (\<lambda>m xs. distinct (map fst xs))"
  let ?c = "is_copy (ref_view un_map [] (\<lambda>m xs. xs)) (ref_reach un_map [] (\<lambda>m xs. {})) ?ok"
  fix m :: "'a memory" and p assume ok: "?ok m p"
  show "wp (copy_map p) (?c m p) m"
  proof (cases p)
    case None
    then show ?thesis by (simp add: copy_map_def wp_ret is_copy_def)
  next
    case (Some a)
    with ok obtain c xs where x: "cells m a = Some c" "un_map c = Some xs" "a < limit m" "distinct (map fst xs)"
      by (auto elim: ref_validE)
    have load: "load un_map [] m a = xs" using x by (simp add: load_def)
    let ?n = "m\<lparr>cells := (cells m)(limit m \<mapsto> CMap []), limit := Suc (limit m)\<rparr>"
    have "wp (copy_entries (limit m) xs)
       (\<lambda>_ k. extends m k \<and> limit m < limit k \<and> cells k (limit m) = Some (CMap ([] @ xs))) ?n"
      by (rule copy_entries_wp) (simp_all add: extends_alloc x(4))
    then have "wp (copy_entries (limit m) xs) (\<lambda>_. ?c m p (Some (limit m))) ?n"
      unfolding Some
      by (rule wp_mono) (rule ref_is_copy [where wrap = CMap and y = xs and c = c and x = xs], simp_all add: x)
    then show ?thesis by (simp only: Some copy_map_def option.case wp_fun load)
  qed
qed simp_all

interpretation two_maps: two_copiers map_view map_reach map_valid copy_map map_view map_reach map_valid copy_map ..

section \<open>The resource in memory\<close>

text \<open>A resource in memory is read as the \<^verbatim>\<open>NATS\<close> of the other theories. A nil map is read as an empty one.\<close>

record ObjectMeta =
  omName :: string
  omNamespace :: string
  omUID :: string
  omResourceVersion :: string
  omFinalizers :: "string list"
  omDeletionTimestamp :: "mtime option"

definition file_value :: "'t hFileStorage \<Rightarrow> quantity \<Rightarrow> FileStorage" where
  "file_value x q = \<lparr>fsStorageClassName = hfClass x, fsSize = q\<rparr>"

definition mem_value :: "'t hMemStorage \<Rightarrow> quantity \<Rightarrow> MemStorage" where
  "mem_value x q = \<lparr>memEnabled = hmEnabled x, memSize = q\<rparr>"

definition jetstream_value :: "MemStorage \<times> FileStorage \<Rightarrow> JetStream" where
  "jetstream_value v = \<lparr>jsMemStorage = fst v, jsFileStorage = snd v\<rparr>"

definition spec_value :: "'t hSpec \<Rightarrow> JetStream \<times> ResourceRequirements \<times> str_map option \<times> str_map option \<Rightarrow> NATSSpec" where
  "spec_value x v = (case v of (js, rr, an, la) \<Rightarrow>
     \<lparr>spCluster = hsCluster x, spJetStream = js, spLogging = hsLogging x, spResources = rr,
      spAnnotations = (case an of None \<Rightarrow> [] | Some xs \<Rightarrow> xs), spLabels = (case la of None \<Rightarrow> [] | Some xs \<Rightarrow> xs)\<rparr>)"

definition status_value :: "hStatus \<Rightarrow> Condition list option \<Rightarrow> NATSStatus" where
  "status_value x v = \<lparr>stState = htState x, stURL = htURL x, stAvailabilityZonesUsed = htZones x,
     stConditions = (case v of None \<Rightarrow> [] | Some cs \<Rightarrow> cs)\<rparr>"

definition nats_value :: "'t hNATS \<Rightarrow> ObjectMeta \<times> NATSSpec \<times> NATSStatus \<Rightarrow> NATS" where
  "nats_value x v = (case v of (om, sp, st) \<Rightarrow>
     \<lparr>nAPIVersion = hnAPIVersion x, nKind = hnKind x, nName = omName om, nNamespace = omNamespace om,
      nUID = omUID om, nResourceVersion = omResourceVersion om, nFinalizers = omFinalizers om,
      nDeletionTimestamp = omDeletionTimestamp om, nSpec = sp, nStatus = st\<rparr>)"


text \<open>The value, the footprint and the well-formedness of a type, and how those of a struct come from its parts.\<close>

record ('t, 'a, 'v) shape =
  value_of :: "'t memory \<Rightarrow> 'a \<Rightarrow> 'v"
  footprint_of :: "'t memory \<Rightarrow> 'a \<Rightarrow> nat set"
  well_formed :: "'t memory \<Rightarrow> 'a \<Rightarrow> bool"

definition plain_shape :: "('t, 'a, 'a) shape" where
  "plain_shape = \<lparr>value_of = \<lambda>m x. x, footprint_of = \<lambda>m x. {}, well_formed = \<lambda>m x. True\<rparr>"

definition struct_shape :: "('a \<Rightarrow> 'p) \<Rightarrow> ('a \<Rightarrow> 'v \<Rightarrow> 'w) \<Rightarrow> ('t, 'p, 'v) shape \<Rightarrow> ('t, 'a, 'w) shape" where
  "struct_shape proj F S = \<lparr>value_of = \<lambda>m x. F x (value_of S m (proj x)),
     footprint_of = \<lambda>m x. footprint_of S m (proj x), well_formed = \<lambda>m x. well_formed S m (proj x)\<rparr>"

definition pair_shape :: "('t, 'a, 'v) shape \<Rightarrow> ('t, 'b, 'w) shape \<Rightarrow> ('t, 'a \<times> 'b, 'v \<times> 'w) shape" where
  "pair_shape S T = \<lparr>value_of = \<lambda>m p. (value_of S m (fst p), value_of T m (snd p)),
     footprint_of = \<lambda>m p. footprint_of S m (fst p) \<union> footprint_of T m (snd p),
     well_formed = \<lambda>m p. well_formed S m (fst p) \<and> well_formed T m (snd p)\<rparr>"

definition ref_shape :: "('t cell \<Rightarrow> 'a option) \<Rightarrow> 'a \<Rightarrow> ('t, 'a, 'v) shape \<Rightarrow> ('t, nat option, 'v option) shape" where
  "ref_shape unwrap zero S = \<lparr>value_of = ref_view unwrap zero (value_of S),
     footprint_of = ref_reach unwrap zero (footprint_of S), well_formed = ref_valid unwrap (well_formed S)\<rparr>"

definition list_shape :: "('t, 'a, 'v) shape \<Rightarrow> ('t, 'a list, 'v list) shape" where
  "list_shape S = \<lparr>value_of = \<lambda>m xs. map (value_of S m) xs, footprint_of = \<lambda>m xs. (\<Union>x \<in> set xs. footprint_of S m x),
     well_formed = \<lambda>m xs. list_all (well_formed S m) xs\<rparr>"

definition map_shape :: "('t, nat option, str_map option) shape" where
  "map_shape = \<lparr>value_of = map_view, footprint_of = map_reach, well_formed = map_valid\<rparr>"

definition deep_copy_of :: "('t, 'a, 'v) shape \<Rightarrow> ('a \<Rightarrow> ('t, 'a) mem_m) \<Rightarrow> bool" where
  "deep_copy_of S c \<longleftrightarrow> deep_copier (value_of S) (footprint_of S) (well_formed S) c"

lemma plain_deep: "deep_copy_of plain_shape ret"
  using plain_copier [of "\<lambda>x. x"] by (simp add: deep_copy_of_def plain_shape_def)

lemma struct_deep:
  assumes "deep_copy_of S c" "\<And>x y. proj (upd y x) = y" "\<And>x y v. F (upd y x) v = F x v"
  shows "deep_copy_of (struct_shape proj F S) (\<lambda>x. do { y \<leftarrow> c (proj x); ret (upd y x) })"
  using struct_copier [OF assms(1) [unfolded deep_copy_of_def], where F = F, OF assms(2,3)]
  by (simp add: deep_copy_of_def struct_shape_def)

lemma pair_deep: "deep_copy_of S c \<Longrightarrow> deep_copy_of T d \<Longrightarrow> deep_copy_of (pair_shape S T) (pair_copy c d)"
  unfolding deep_copy_of_def pair_shape_def shape.select_convs by (rule pair_copier)

lemma new_deep:
  "deep_copy_of S c \<Longrightarrow> (\<And>x. unwrap (wrap x) = Some x) \<Longrightarrow>
   deep_copy_of (ref_shape unwrap zero S) (new_copy zero wrap unwrap c)"
  unfolding deep_copy_of_def ref_shape_def shape.select_convs by (rule deep_copier.new_copier)

lemma slice_deep:
  "deep_copy_of S c \<Longrightarrow> (\<And>x. unwrap (wrap x) = Some x) \<Longrightarrow>
   deep_copy_of (ref_shape unwrap [] (list_shape S)) (copy_slice zero wrap unwrap c)"
  unfolding deep_copy_of_def ref_shape_def list_shape_def shape.select_convs by (rule deep_copier.slice_copier)

lemma map_deep: "deep_copy_of map_shape copy_map"
  by (simp add: deep_copy_of_def map_shape_def map_copy.deep_copier_axioms)

text \<open>What Kubernetes holds in memory, and the law its deep copies obey.\<close>

record 't kube_shapes =
  s_qty :: "('t, 't, quantity) shape"
  s_resources :: "('t, 't, ResourceRequirements) shape"
  s_meta :: "('t, 't, ObjectMeta) shape"
  s_listmeta :: "('t, 't, string) shape"
  s_condition :: "('t, 't, Condition) shape"

definition copy_law :: "'t copy_lib \<Rightarrow> 't kube_shapes \<Rightarrow> bool" where
  "copy_law K V \<longleftrightarrow> deep_copy_of (s_qty V) (k_qty_copy K) \<and> deep_copy_of (s_resources V) (k_resources_copy K) \<and>
     deep_copy_of (s_meta V) (k_meta_copy K) \<and> deep_copy_of (s_listmeta V) (k_listmeta_copy K) \<and>
     deep_copy_of (s_condition V) (k_condition_copy K)"

definition file_shape where
  "file_shape V = struct_shape hfSize file_value (s_qty V)"

definition mem_shape where
  "mem_shape V = struct_shape hmSize mem_value (s_qty V)"

definition jetstream_shape where
  "jetstream_shape V = struct_shape (\<lambda>x. (hjMem x, hjFile x)) (\<lambda>_. jetstream_value) (pair_shape (mem_shape V) (file_shape V))"

definition spec_shape where
  "spec_shape V = struct_shape (\<lambda>x. (hsJetStream x, hsResources x, hsAnnotations x, hsLabels x)) spec_value
     (pair_shape (jetstream_shape V) (pair_shape (s_resources V) (pair_shape map_shape map_shape)))"

definition status_shape where
  "status_shape V = struct_shape htConditions status_value (ref_shape un_conditions [] (list_shape (s_condition V)))"

definition nats_shape where
  "nats_shape V = struct_shape (\<lambda>x. (hnMeta x, hnSpec x, hnStatus x)) nats_value
     (pair_shape (s_meta V) (pair_shape (spec_shape V) (status_shape V)))"

definition natslist_value :: "'t hNATSList \<Rightarrow> string \<times> NATS list option \<Rightarrow> string \<times> string \<times> string \<times> NATS list option" where
  "natslist_value x v = (hlAPIVersion x, hlKind x, v)"

definition natslist_shape where
  "natslist_shape V = struct_shape (\<lambda>x. (hlMeta x, hlItems x)) natslist_value
     (pair_shape (s_listmeta V) (ref_shape un_items [] (list_shape (nats_shape V))))"

section \<open>The generated functions are deep copies\<close>

lemma file_deep: "copy_law K V \<Longrightarrow> deep_copy_of (file_shape V) (FileStorage_DeepCopyInto K)"
  unfolding file_shape_def FileStorage_DeepCopyInto_def [abs_def]
  by (rule struct_deep [where upd = "\<lambda>y x. x\<lparr>hfSize := y\<rparr>"]) (simp_all add: copy_law_def file_value_def)

lemma mem_deep: "copy_law K V \<Longrightarrow> deep_copy_of (mem_shape V) (MemStorage_DeepCopyInto K)"
  unfolding mem_shape_def MemStorage_DeepCopyInto_def [abs_def]
  by (rule struct_deep [where upd = "\<lambda>y x. x\<lparr>hmSize := y\<rparr>"]) (simp_all add: copy_law_def mem_value_def)

lemma jetstream_deep: "copy_law K V \<Longrightarrow> deep_copy_of (jetstream_shape V) (JetStream_DeepCopyInto K)"
  unfolding jetstream_shape_def
  using struct_deep [OF pair_deep [OF mem_deep file_deep],
      where proj = "\<lambda>x. (hjMem x, hjFile x)" and upd = "\<lambda>y x. x\<lparr>hjMem := fst y, hjFile := snd y\<rparr>" and F = "\<lambda>_. jetstream_value"]
  by (simp add: JetStream_DeepCopyInto_def [abs_def] pair_copy_def)

lemma copy_lawD:
  assumes "copy_law K V"
  shows "deep_copy_of (s_resources V) (k_resources_copy K)" "deep_copy_of (s_meta V) (k_meta_copy K)"
    and "deep_copy_of (s_listmeta V) (k_listmeta_copy K)" "deep_copy_of (s_condition V) (k_condition_copy K)"
  using assms by (simp_all add: copy_law_def)

lemma spec_deep:
  assumes law: "copy_law K V"
  shows "deep_copy_of (spec_shape V) (NATSSpec_DeepCopyInto K)"
  unfolding spec_shape_def
  using struct_deep [OF pair_deep [OF jetstream_deep [OF law] pair_deep [OF copy_lawD(1) [OF law] pair_deep [OF map_deep map_deep]]],
      where proj = "\<lambda>x. (hsJetStream x, hsResources x, hsAnnotations x, hsLabels x)" and F = spec_value
        and upd = "\<lambda>y x. x\<lparr>hsJetStream := fst y, hsResources := fst (snd y), hsAnnotations := fst (snd (snd y)),
          hsLabels := snd (snd (snd y))\<rparr>"]
  by (simp add: NATSSpec_DeepCopyInto_def [abs_def] pair_copy_def spec_value_def case_prod_beta')

lemma status_deep: "copy_law K V \<Longrightarrow> deep_copy_of (status_shape V) (NATSStatus_DeepCopyInto K)"
  unfolding status_shape_def NATSStatus_DeepCopyInto_def [abs_def]
  by (rule struct_deep [OF slice_deep, where upd = "\<lambda>y x. x\<lparr>htConditions := y\<rparr>"])
    (simp_all add: copy_lawD status_value_def)

lemma nats_deep:
  assumes law: "copy_law K V"
  shows "deep_copy_of (nats_shape V) (NATS_DeepCopyInto K)"
  unfolding nats_shape_def
  using struct_deep [OF pair_deep [OF copy_lawD(2) [OF law] pair_deep [OF spec_deep [OF law] status_deep [OF law]]],
      where proj = "\<lambda>x. (hnMeta x, hnSpec x, hnStatus x)" and F = nats_value
        and upd = "\<lambda>y x. x\<lparr>hnMeta := fst y, hnSpec := fst (snd y), hnStatus := snd (snd y)\<rparr>"]
  by (simp add: NATS_DeepCopyInto_def [abs_def] pair_copy_def nats_value_def case_prod_beta')

lemma natslist_deep:
  assumes law: "copy_law K V"
  shows "deep_copy_of (natslist_shape V) (NATSList_DeepCopyInto K)"
  unfolding natslist_shape_def
  using struct_deep [OF pair_deep [OF copy_lawD(3) [OF law] slice_deep [OF nats_deep [OF law], of un_items CItems "zero_nats K"]],
      where proj = "\<lambda>x. (hlMeta x, hlItems x)" and F = natslist_value
        and upd = "\<lambda>y x. x\<lparr>hlMeta := fst y, hlItems := snd y\<rparr>"]
  by (simp add: NATSList_DeepCopyInto_def [abs_def] pair_copy_def natslist_value_def)

lemma part_objects_deep:
  assumes "copy_law K V"
  shows "deep_copy_of (ref_shape un_cluster \<lparr>clusterSize = 0\<rparr> plain_shape) Cluster_DeepCopy"
    and "deep_copy_of (ref_shape un_logging zero_logging plain_shape) Logging_DeepCopy"
    and "deep_copy_of (ref_shape un_mem (zero_mem K) (mem_shape V)) (MemStorage_DeepCopy K)"
    and "deep_copy_of (ref_shape un_file (zero_file K) (file_shape V)) (FileStorage_DeepCopy K)"
    and "deep_copy_of (ref_shape un_jetstream (zero_jetstream K) (jetstream_shape V)) (JetStream_DeepCopy K)"
    and "deep_copy_of (ref_shape un_spec (zero_spec K) (spec_shape V)) (NATSSpec_DeepCopy K)"
    and "deep_copy_of (ref_shape un_status zero_hstatus (status_shape V)) (NATSStatus_DeepCopy K)"
  unfolding Cluster_DeepCopy_def Logging_DeepCopy_def MemStorage_DeepCopy_def FileStorage_DeepCopy_def
    JetStream_DeepCopy_def NATSSpec_DeepCopy_def NATSStatus_DeepCopy_def Cluster_DeepCopyInto_def [abs_def]
    Logging_DeepCopyInto_def [abs_def]
  by (rule new_deep [OF plain_deep] new_deep [OF mem_deep [OF assms]] new_deep [OF file_deep [OF assms]]
      new_deep [OF jetstream_deep [OF assms]] new_deep [OF spec_deep [OF assms]] new_deep [OF status_deep [OF assms]], simp)+

lemma nil_check: "(\<lambda>c. if c \<noteq> None then ret c else ret None) = ret"
  by (auto simp: fun_eq_iff)

lemma object_deep:
  assumes law: "copy_law K V"
  shows "deep_copy_of (ref_shape un_nats (zero_nats K) (nats_shape V)) (NATS_DeepCopyObject K)"
    and "deep_copy_of (ref_shape un_list (zero_list K) (natslist_shape V)) (NATSList_DeepCopyObject K)"
proof -
  have "NATS_DeepCopyObject K = NATS_DeepCopy K" "NATSList_DeepCopyObject K = NATSList_DeepCopy K"
    by (rule ext, simp only: NATS_DeepCopyObject_def NATSList_DeepCopyObject_def nil_check bind_right_identity)+
  then show "deep_copy_of (ref_shape un_nats (zero_nats K) (nats_shape V)) (NATS_DeepCopyObject K)"
    and "deep_copy_of (ref_shape un_list (zero_list K) (natslist_shape V)) (NATSList_DeepCopyObject K)"
    by (simp_all add: NATS_DeepCopy_def NATSList_DeepCopy_def new_deep [OF nats_deep [OF law]] new_deep [OF natslist_deep [OF law]])
qed

section \<open>The property\<close>

text \<open>
  Two objects are separate when they share no address: whatever later changes outside the memory of one of
  them, it keeps its value.
\<close>

definition separate_copy :: "('t, 'a, 'v) shape \<Rightarrow> 't memory \<Rightarrow> 'a \<Rightarrow> 't memory \<Rightarrow> 'a \<Rightarrow> bool" where
  "separate_copy S m x n y \<longleftrightarrow>
     value_of S n y = value_of S m x \<and> footprint_of S n y \<inter> footprint_of S n x = {} \<and>
     (\<forall>k. agree (footprint_of S n x) n k \<longrightarrow> value_of S k x = value_of S m x) \<and>
     (\<forall>k. agree (footprint_of S n y) n k \<longrightarrow> value_of S k y = value_of S m x)"

lemma deep_copy_separate:
  assumes "deep_copy_of S c" "well_formed S m x" "run_state (c x) m = (y, n)"
  shows "separate_copy S m x n y"
  using deep_copier.independent [OF assms(1) [unfolded deep_copy_of_def] assms(2,3)]
  by (simp add: separate_copy_def)

text \<open>
  C40. A deep copy of a resource, and of a list of resources, has the value of the original and shares no
  memory with it, so a later write into one of the two does not show in the other. (The struct types
  of Kubernetes are deep copied by Kubernetes, under the same contract.)
\<close>

theorem deep_copies_are_separate:
  assumes "copy_law K V"
  shows "(\<forall>m p q n. well_formed (ref_shape un_nats (zero_nats K) (nats_shape V)) m p \<and>
      run_state (NATS_DeepCopyObject K p) m = (q, n) \<longrightarrow>
      separate_copy (ref_shape un_nats (zero_nats K) (nats_shape V)) m p n q) \<and>
    (\<forall>m p q n. well_formed (ref_shape un_list (zero_list K) (natslist_shape V)) m p \<and>
      run_state (NATSList_DeepCopyObject K p) m = (q, n) \<longrightarrow>
      separate_copy (ref_shape un_list (zero_list K) (natslist_shape V)) m p n q)"
  using deep_copy_separate [OF object_deep(1) [OF assms]] deep_copy_separate [OF object_deep(2) [OF assms]] by blast

text \<open>A Kubernetes whose structs are pointers to some bytes, and a resource in its memory.\<close>

definition bytes_copy :: "nat option \<Rightarrow> (nat option, nat option) mem_m" where
  "bytes_copy = new_copy [] CBytes un_bytes ret"

definition bytes_shape :: "(string option \<Rightarrow> 'v) \<Rightarrow> (nat option, nat option, 'v) shape" where
  "bytes_shape F = struct_shape (\<lambda>x. x) (\<lambda>_. F) (ref_shape un_bytes [] plain_shape)"

definition bytes_lib :: "nat option copy_lib" where
  "bytes_lib = \<lparr>k_qty_copy = bytes_copy, k_resources_copy = bytes_copy, k_meta_copy = bytes_copy,
     k_listmeta_copy = bytes_copy, k_condition_copy = bytes_copy, k_zero_qty = None, k_zero_resources = None,
     k_zero_meta = None, k_zero_listmeta = None, k_zero_condition = None\<rparr>"

definition bytes_text :: "string option \<Rightarrow> string" where
  "bytes_text v = (case v of None \<Rightarrow> [] | Some s \<Rightarrow> s)"

definition bytes_shapes :: "nat option kube_shapes" where
  "bytes_shapes = \<lparr>
     s_qty = bytes_shape (\<lambda>v. case v of None \<Rightarrow> QuantityZero | Some s \<Rightarrow> QuantityOf s),
     s_resources = bytes_shape (\<lambda>v. \<lparr>resLimits = [(''cpu'', QuantityOf (bytes_text v))], resRequests = []\<rparr>),
     s_meta = bytes_shape (\<lambda>v. \<lparr>omName = bytes_text v, omNamespace = [], omUID = [], omResourceVersion = [],
       omFinalizers = [], omDeletionTimestamp = None\<rparr>),
     s_listmeta = bytes_shape bytes_text,
     s_condition = bytes_shape (\<lambda>v. zeroCondition\<lparr>cType := bytes_text v\<rparr>)\<rparr>"

lemma bytes_deep: "deep_copy_of (bytes_shape F) bytes_copy"
  using struct_deep [OF new_deep [OF plain_deep, of un_bytes CBytes "[]"], where proj = "\<lambda>x. x"
      and upd = "\<lambda>y x. y" and F = "\<lambda>_. F"]
  by (simp add: bytes_shape_def bytes_copy_def)

lemma bytes_law: "copy_law bytes_lib bytes_shapes"
  by (simp add: copy_law_def bytes_lib_def bytes_shapes_def bytes_deep)

definition demo_memory :: "nat option memory" where
  "demo_memory = \<lparr>cells = [0 \<mapsto> CBytes ''eventing-nats'', 1 \<mapsto> CBytes ''Available'', 2 \<mapsto> CMap [(''a'', ''b'')],
     3 \<mapsto> CConditions [Some 1], 4 \<mapsto> CNATS ((zero_nats bytes_lib)\<lparr>hnMeta := Some 0,
       hnSpec := (zero_spec bytes_lib)\<lparr>hsAnnotations := Some 2\<rparr>,
       hnStatus := zero_hstatus\<lparr>htConditions := Some 3\<rparr>\<rparr>)], limit = 5\<rparr>"

theorem deep_copies_are_separate_witness:
  "separate_copy (ref_shape un_nats (zero_nats bytes_lib) (nats_shape bytes_shapes)) demo_memory (Some 4)
     (snd (run_state (NATS_DeepCopyObject bytes_lib (Some 4)) demo_memory))
     (fst (run_state (NATS_DeepCopyObject bytes_lib (Some 4)) demo_memory))"
proof -
  have "well_formed (ref_shape un_nats (zero_nats bytes_lib) (nats_shape bytes_shapes)) demo_memory (Some 4)"
    by (simp add: ref_shape_def ref_valid_def demo_memory_def nats_shape_def spec_shape_def status_shape_def
        jetstream_shape_def mem_shape_def file_shape_def struct_shape_def pair_shape_def list_shape_def map_shape_def
        map_valid_def bytes_shapes_def bytes_shape_def plain_shape_def zero_nats_def zero_spec_def zero_jetstream_def
        zero_mem_def zero_file_def zero_hstatus_def bytes_lib_def)
  with deep_copies_are_separate [OF bytes_law] show ?thesis by (metis prod.collapse)
qed

end
