(* ===== verification/Admission.thy ===== *)
theory Admission
  imports ApiTypes
begin

text \<open>
  What the API server makes of a NATS resource before the controller sees it: the \<^verbatim>\<open>kubebuilder\<close> markers
  of \<^verbatim>\<open>api/v1alpha1/nats_types.go\<close> that set default values and the rules on a write. A field that the
  user left out is \<^verbatim>\<open>None\<close>. As Kubernetes documents it, a missing field with a default gets it, and the
  defaults inside are then applied to what is there; a rule that mentions \<^verbatim>\<open>oldSelf\<close> is evaluated on an
  update, where the field is present before and after.
\<close>

section \<open>Resources as they are written\<close>

record raw_mem =
  rmEnabled :: "bool option"
  rmSize :: "quantity option"

record raw_file =
  rfClass :: "string option"
  rfSize :: "quantity option"

record raw_jetstream =
  rjMem :: "raw_mem option"
  rjFile :: "raw_file option"

record raw_logging =
  rlDebug :: "bool option"
  rlTrace :: "bool option"

record raw_resources =
  rrLimits :: "resource_list option"
  rrRequests :: "resource_list option"

record raw_spec =
  rsCluster :: "int option option"
  rsJetStream :: "raw_jetstream option"
  rsLogging :: "raw_logging option"
  rsResources :: "raw_resources option"
  rsAnnotations :: "str_map option"
  rsLabels :: "str_map option"

section \<open>Defaults\<close>

definition or_default :: "'a \<Rightarrow> 'a option \<Rightarrow> 'a" where
  "or_default d x = (case x of None \<Rightarrow> d | Some v \<Rightarrow> v)"

lemma or_default_simps [simp]: "or_default d None = d" "or_default d (Some v) = v"
  by (simp_all add: or_default_def)

text \<open>The values in the markers, at the level of each type and of each field.\<close>

definition size_marker :: int where "size_marker = 3"
definition cluster_marker :: "int option" where "cluster_marker = Some 3"
definition mem_marker :: raw_mem where
  "mem_marker = \<lparr>rmEnabled = Some True, rmSize = Some (QuantityOf ''1Gi'')\<rparr>"
definition file_marker :: raw_file where
  "file_marker = \<lparr>rfClass = Some ''default'', rfSize = None\<rparr>"
definition jetstream_marker :: raw_jetstream where
  "jetstream_marker = \<lparr>rjMem = Some \<lparr>rmEnabled = Some True, rmSize = Some (QuantityOf ''1Gi'')\<rparr>,
     rjFile = Some \<lparr>rfClass = Some ''default'', rfSize = None\<rparr>\<rparr>"
definition logging_marker :: raw_logging where
  "logging_marker = \<lparr>rlDebug = Some False, rlTrace = Some False\<rparr>"
definition resources_marker :: raw_resources where
  "resources_marker = \<lparr>rrLimits = Some [(''cpu'', QuantityOf ''500m''), (''memory'', QuantityOf ''1Gi'')],
     rrRequests = Some [(''cpu'', QuantityOf ''40m''), (''memory'', QuantityOf ''64Mi'')]\<rparr>"

definition spec_marker :: raw_spec where
  "spec_marker = \<lparr>rsCluster = Some (Some 3),
     rsJetStream = Some \<lparr>rjMem = Some \<lparr>rmEnabled = Some True, rmSize = Some (QuantityOf ''1Gi'')\<rparr>,
       rjFile = Some \<lparr>rfClass = Some ''default'', rfSize = None\<rparr>\<rparr>,
     rsLogging = Some \<lparr>rlDebug = Some False, rlTrace = Some False\<rparr>,
     rsResources = Some \<lparr>rrLimits = Some [(''cpu'', QuantityOf ''500m''), (''memory'', QuantityOf ''1Gi'')],
       rrRequests = Some [(''cpu'', QuantityOf ''40m''), (''memory'', QuantityOf ''64Mi'')]\<rparr>,
     rsAnnotations = None, rsLabels = None\<rparr>"

definition default_mem :: "raw_mem \<Rightarrow> raw_mem" where
  "default_mem m = m\<lparr>rmEnabled := Some (or_default True (rmEnabled m)),
     rmSize := Some (or_default (QuantityOf ''1Gi'') (rmSize m))\<rparr>"

definition default_file :: "raw_file \<Rightarrow> raw_file" where
  "default_file f = f\<lparr>rfClass := Some (or_default ''default'' (rfClass f))\<rparr>"

definition default_jetstream :: "raw_jetstream \<Rightarrow> raw_jetstream" where
  "default_jetstream j = j\<lparr>rjMem := Some (default_mem (or_default mem_marker (rjMem j))),
     rjFile := Some (default_file (or_default file_marker (rjFile j)))\<rparr>"

definition default_logging :: "raw_logging \<Rightarrow> raw_logging" where
  "default_logging l = l\<lparr>rlDebug := Some (or_default False (rlDebug l)), rlTrace := Some (or_default False (rlTrace l))\<rparr>"

definition default_spec :: "raw_spec \<Rightarrow> raw_spec" where
  "default_spec s = s\<lparr>
     rsCluster := Some (Some (or_default size_marker (or_default cluster_marker (rsCluster s)))),
     rsJetStream := Some (default_jetstream (or_default jetstream_marker (rsJetStream s))),
     rsLogging := Some (default_logging (or_default logging_marker (rsLogging s))),
     rsResources := Some (or_default resources_marker (rsResources s))\<rparr>"

definition default_nats :: "raw_spec option \<Rightarrow> raw_spec" where
  "default_nats s = default_spec (or_default spec_marker s)"

lemmas default_defs = default_nats_def default_spec_def default_logging_def default_jetstream_def default_file_def
  default_mem_def spec_marker_def resources_marker_def logging_marker_def jetstream_marker_def file_marker_def
  mem_marker_def cluster_marker_def size_marker_def

text \<open>
  One specification is a part of another when it comes from it by leaving out fields, at any level. The
  resource requirements, a type of Kubernetes, are left out as a whole or not at all.
\<close>

definition part_of :: "('a \<Rightarrow> 'a \<Rightarrow> bool) \<Rightarrow> 'a option \<Rightarrow> 'a option \<Rightarrow> bool" where
  "part_of P x y \<longleftrightarrow> (case x of None \<Rightarrow> True | Some v \<Rightarrow> (case y of None \<Rightarrow> False | Some w \<Rightarrow> P v w))"

lemma part_of_simps [simp]:
  "part_of P None y" "part_of P (Some v) (Some w) \<longleftrightarrow> P v w" "\<not> part_of P (Some v) None"
  by (simp_all add: part_of_def)

definition mem_part :: "raw_mem \<Rightarrow> raw_mem \<Rightarrow> bool" where
  "mem_part a b \<longleftrightarrow> part_of (=) (rmEnabled a) (rmEnabled b) \<and> part_of (=) (rmSize a) (rmSize b)"

definition file_part :: "raw_file \<Rightarrow> raw_file \<Rightarrow> bool" where
  "file_part a b \<longleftrightarrow> part_of (=) (rfClass a) (rfClass b) \<and> part_of (=) (rfSize a) (rfSize b)"

definition jetstream_part :: "raw_jetstream \<Rightarrow> raw_jetstream \<Rightarrow> bool" where
  "jetstream_part a b \<longleftrightarrow> part_of mem_part (rjMem a) (rjMem b) \<and> part_of file_part (rjFile a) (rjFile b)"

definition logging_part :: "raw_logging \<Rightarrow> raw_logging \<Rightarrow> bool" where
  "logging_part a b \<longleftrightarrow> part_of (=) (rlDebug a) (rlDebug b) \<and> part_of (=) (rlTrace a) (rlTrace b)"

definition spec_part :: "raw_spec \<Rightarrow> raw_spec \<Rightarrow> bool" where
  "spec_part a b \<longleftrightarrow> part_of (part_of (=)) (rsCluster a) (rsCluster b) \<and>
     part_of jetstream_part (rsJetStream a) (rsJetStream b) \<and> part_of logging_part (rsLogging a) (rsLogging b) \<and>
     part_of (=) (rsResources a) (rsResources b) \<and> part_of (=) (rsAnnotations a) (rsAnnotations b) \<and>
     part_of (=) (rsLabels a) (rsLabels b)"

lemmas part_defs = spec_part_def logging_part_def jetstream_part_def file_part_def mem_part_def

lemma part_of_eq: "part_of (=) x y \<longleftrightarrow> x = None \<or> x = y"
  by (cases x; cases y) auto

section \<open>The contract of a level\<close>

text \<open>
  Defaulting keeps what is there; whatever lies between a value and its defaulted form has the same
  defaulted form; and the marker of the level says no more than its fields' own defaults do.
\<close>

locale defaulting =
  fixes part :: "'a \<Rightarrow> 'a \<Rightarrow> bool" and fill :: "'a \<Rightarrow> 'a" and marker :: 'a and blank :: 'a
  assumes between: "part a b \<Longrightarrow> part b (fill a) \<Longrightarrow> fill b = fill a"
    and extends_part: "part a (fill a)"
    and part_refl: "part a a"
    and part_blank: "part blank a"
    and marker_blank: "fill marker = fill blank"
begin

lemma fill_idem: "fill (fill a) = fill a"
  by (rule between [OF extends_part part_refl])

lemma fill_blank: "part b (fill blank) \<Longrightarrow> fill b = fill blank"
  by (rule between [OF part_blank])

text \<open>The same for a field of the enclosing level that may be missing.\<close>

lemma field_between:
  assumes "part_of part x y" "part_of part y (Some (fill (or_default marker x)))"
  shows "fill (or_default marker y) = fill (or_default marker x)"
  using assms between fill_blank by (cases x; cases y) (auto simp: marker_blank)

lemma field_extends: "part_of part x (Some (fill (or_default marker x)))"
  by (cases x) (simp_all add: extends_part)

lemma field_refl: "part_of part x x"
  by (cases x) (simp_all add: part_refl)

end

definition "blank_mem = \<lparr>rmEnabled = None, rmSize = None\<rparr>"
definition "blank_file = \<lparr>rfClass = None, rfSize = None\<rparr>"
definition "blank_jetstream = \<lparr>rjMem = None, rjFile = None\<rparr>"
definition "blank_logging = \<lparr>rlDebug = None, rlTrace = None\<rparr>"
definition "blank_spec = \<lparr>rsCluster = None, rsJetStream = None, rsLogging = None, rsResources = None,
  rsAnnotations = None, rsLabels = None\<rparr>"

lemmas blank_defs = blank_mem_def blank_file_def blank_jetstream_def blank_logging_def blank_spec_def

lemma leaf_refl: "part_of (=) x x" and leaf_extends: "part_of (=) x (Some (or_default d x))"
  by (cases x; simp)+

lemma leaf_between:
  assumes "part_of (=) x y" "part_of (=) y (Some (or_default d x))"
  shows "or_default d y = or_default d x"
  using assms by (cases x; cases y) auto

interpretation mem_defaults: defaulting mem_part default_mem mem_marker blank_mem
proof
  fix a b assume "mem_part a b" "mem_part b (default_mem a)"
  then show "default_mem b = default_mem a"
    by (intro raw_mem.equality) (simp_all add: mem_part_def default_mem_def leaf_between)
qed (auto simp: mem_part_def default_mem_def mem_marker_def blank_mem_def part_of_eq or_default_def split: option.splits)

interpretation file_defaults: defaulting file_part default_file file_marker blank_file
proof
  fix a b assume "file_part a b" "file_part b (default_file a)"
  then show "default_file b = default_file a"
    by (intro raw_file.equality) (auto simp: file_part_def default_file_def leaf_between part_of_eq)
qed (auto simp: file_part_def default_file_def file_marker_def blank_file_def part_of_eq or_default_def split: option.splits)

interpretation logging_defaults: defaulting logging_part default_logging logging_marker blank_logging
proof
  fix a b assume "logging_part a b" "logging_part b (default_logging a)"
  then show "default_logging b = default_logging a"
    by (intro raw_logging.equality) (simp_all add: logging_part_def default_logging_def leaf_between)
qed (auto simp: logging_part_def default_logging_def logging_marker_def blank_logging_def part_of_eq or_default_def
    split: option.splits)

interpretation jetstream_defaults: defaulting jetstream_part default_jetstream jetstream_marker blank_jetstream
proof
  fix a b assume "jetstream_part a b" "jetstream_part b (default_jetstream a)"
  then show "default_jetstream b = default_jetstream a"
    by (intro raw_jetstream.equality)
      (simp_all add: jetstream_part_def default_jetstream_def mem_defaults.field_between file_defaults.field_between)
next
  show "default_jetstream jetstream_marker = default_jetstream blank_jetstream"
    by (simp add: default_jetstream_def jetstream_marker_def blank_jetstream_def mem_marker_def file_marker_def)
qed (simp_all add: jetstream_part_def default_jetstream_def blank_jetstream_def mem_defaults.field_extends
    file_defaults.field_extends mem_defaults.field_refl file_defaults.field_refl)

text \<open>A level that is a single value with a default of its own: the cluster with its one field.\<close>

interpretation cluster_defaults: defaulting "part_of (=)" "\<lambda>c. Some (or_default size_marker c)" cluster_marker None
  by unfold_locales (auto simp: part_of_eq or_default_def cluster_marker_def size_marker_def split: option.splits)

interpretation spec_defaults: defaulting spec_part default_spec spec_marker blank_spec
proof
  fix a b assume "spec_part a b" "spec_part b (default_spec a)"
  then show "default_spec b = default_spec a"
    by (intro raw_spec.equality)
      (auto simp: spec_part_def default_spec_def cluster_defaults.field_between [simplified]
        jetstream_defaults.field_between logging_defaults.field_between leaf_between part_of_eq)
next
  show "default_spec spec_marker = default_spec blank_spec"
    by (simp add: default_spec_def spec_marker_def blank_spec_def default_defs)
qed (simp_all add: spec_part_def default_spec_def blank_spec_def cluster_defaults.field_extends
    jetstream_defaults.field_extends logging_defaults.field_extends cluster_defaults.field_refl
    jetstream_defaults.field_refl logging_defaults.field_refl leaf_refl leaf_extends)

text \<open>
  C37. The defaults do not depend on the level at which something was left out: a resource without a spec
  gets the same as one with any part of the default spec written out; more generally, defaulting
  keeps what is there, and writing out some of what it adds does not change the result.
\<close>

theorem defaults_at_every_level:
  "(\<forall>s. spec_part s (default_nats None) \<longrightarrow> default_nats (Some s) = default_nats None) \<and>
   (\<forall>s. spec_part s (default_nats (Some s))) \<and>
   (\<forall>s t. spec_part s t \<and> spec_part t (default_nats (Some s)) \<longrightarrow> default_nats (Some t) = default_nats (Some s))"
proof -
  have "default_nats None = default_spec blank_spec" and "default_nats (Some s) = default_spec s" for s
    by (simp_all add: default_nats_def spec_defaults.marker_blank)
  then show ?thesis
    using spec_defaults.fill_blank spec_defaults.extends_part spec_defaults.between by metis
qed

theorem defaults_at_every_level_witness:
  "default_nats (Some (blank_spec\<lparr>rsJetStream := Some \<lparr>rjMem = None, rjFile = Some \<lparr>rfClass = None, rfSize = None\<rparr>\<rparr>\<rparr>)) =
   default_nats None"
  by (rule defaults_at_every_level [THEN conjunct1, rule_format])
    (simp add: part_defs blank_defs default_nats_def default_spec_def default_jetstream_def spec_marker_def)

text \<open>
  Inside the resource requirements nothing is filled in: with limits alone there are no requests, although
  the comment of the type says that values are set whatever level is deleted.
\<close>

lemma requests_not_defaulted:
  "rsResources (default_nats (Some (blank_spec\<lparr>rsResources := Some \<lparr>rrLimits = Some ls, rrRequests = None\<rparr>\<rparr>))) =
   Some \<lparr>rrLimits = Some ls, rrRequests = None\<rparr>"
  by (simp add: default_nats_def default_spec_def)

section \<open>The rules on a write\<close>

text \<open>
  \<^verbatim>\<open>nonzero\<close> is CEL's verdict on \<^verbatim>\<open>self.size != 0\<close>. The rules of \<^verbatim>\<open>FileStorage\<close> and the second rule of
  \<^verbatim>\<open>Cluster.Size\<close> compare with the old value.
\<close>

definition raw_cluster :: "raw_spec \<Rightarrow> Cluster" where
  "raw_cluster s = \<lparr>clusterSize = or_default 0 (or_default None (rsCluster s))\<rparr>"

definition raw_mem_of :: "raw_spec \<Rightarrow> raw_mem" where
  "raw_mem_of s = or_default blank_mem (rjMem (or_default blank_jetstream (rsJetStream s)))"

definition raw_file_of :: "raw_spec \<Rightarrow> raw_file" where
  "raw_file_of s = or_default blank_file (rjFile (or_default blank_jetstream (rsJetStream s)))"

definition mem_valid :: "(quantity \<Rightarrow> bool) \<Rightarrow> raw_mem \<Rightarrow> bool" where
  "mem_valid nonzero m \<longleftrightarrow> \<not> or_default False (rmEnabled m) \<or> nonzero (or_default QuantityZero (rmSize m))"

definition unchanged_once_set :: "'a option \<Rightarrow> 'a option \<Rightarrow> bool" where
  "unchanged_once_set old new \<longleftrightarrow> (case (old, new) of (Some a, Some b) \<Rightarrow> b = a | _ \<Rightarrow> True)"

definition file_update_valid :: "raw_file \<Rightarrow> raw_file \<Rightarrow> bool" where
  "file_update_valid old new \<longleftrightarrow>
     unchanged_once_set (rfClass old) (rfClass new) \<and> unchanged_once_set (rfSize old) (rfSize new)"

definition update_valid :: "(quantity \<Rightarrow> bool) \<Rightarrow> raw_spec \<Rightarrow> raw_spec \<Rightarrow> bool" where
  "update_valid nonzero old new \<longleftrightarrow> size_update_valid (raw_cluster old) (raw_cluster new) \<and>
     mem_valid nonzero (raw_mem_of new) \<and> file_update_valid (raw_file_of old) (raw_file_of new)"

text \<open>The specifications a resource goes through: created, then updated by admitted writes.\<close>

inductive spec_history :: "(quantity \<Rightarrow> bool) \<Rightarrow> raw_spec \<Rightarrow> raw_spec \<Rightarrow> bool" for nonzero s0 where
  created: "s0 = default_nats r \<Longrightarrow> size_valid (raw_cluster s0) \<Longrightarrow> mem_valid nonzero (raw_mem_of s0) \<Longrightarrow>
    spec_history nonzero s0 s0"
| updated: "spec_history nonzero s0 s \<Longrightarrow> s' = default_nats r \<Longrightarrow> update_valid nonzero s s' \<Longrightarrow>
    spec_history nonzero s0 s'"

lemma spec_history_size: "spec_history nonzero s0 s \<Longrightarrow> size_history (raw_cluster s0) (raw_cluster s)"
  by (induction rule: spec_history.induct) (auto simp: update_valid_def intro: size_history.intros)

lemma default_has_class: "rfClass (raw_file_of (default_nats r)) \<noteq> None"
  by (simp add: raw_file_of_def default_nats_def default_spec_def default_jetstream_def default_file_def)

lemma spec_history_size_valid: "spec_history nonzero s0 s \<Longrightarrow> size_valid (raw_cluster s)"
  by (rule size_history_valid [OF spec_history_size])

lemma spec_history_filled: "spec_history nonzero s0 s \<Longrightarrow> \<exists>r. s = default_nats r"
  by (induction rule: spec_history.induct) auto

lemma spec_history_class:
  "spec_history nonzero s0 s \<Longrightarrow>
   rfClass (raw_file_of s) = rfClass (raw_file_of s0) \<and> rfClass (raw_file_of s) \<noteq> None \<and> mem_valid nonzero (raw_mem_of s)"
proof (induction rule: spec_history.induct)
  case (created r)
  then show ?case using default_has_class by simp
next
  case (updated s s' r)
  then show ?case
    using default_has_class [of r] by (auto simp: update_valid_def file_update_valid_def unchanged_once_set_def split: option.splits)
qed

text \<open>
  C36. However often a resource is updated, the API server hands the controller an odd cluster size, at
  least three once it was more than one; the storage class the resource was created with; and never
  an enabled memory storage of size zero.
\<close>

theorem admitted_specs_keep_promises:
  assumes "spec_history nonzero s0 s"
  shows "odd (clusterSize (raw_cluster s)) \<and> 1 \<le> clusterSize (raw_cluster s) \<and>
    (1 < clusterSize (raw_cluster s0) \<longrightarrow> 3 \<le> clusterSize (raw_cluster s)) \<and>
    (\<exists>c. rfClass (raw_file_of s0) = Some c \<and> rfClass (raw_file_of s) = Some c) \<and>
    (or_default False (rmEnabled (raw_mem_of s)) \<longrightarrow> nonzero (or_default QuantityZero (rmSize (raw_mem_of s))))"
proof -
  obtain c where "rfClass (raw_file_of s) = Some c" using spec_history_class [OF assms] by blast
  then show ?thesis
    using size_history_valid [OF spec_history_size [OF assms]] size_history_ge_3 [OF spec_history_size [OF assms]]
      spec_history_class [OF assms]
    by (auto simp: size_valid_def mem_valid_def even_iff_mod_2_eq_zero)
qed

definition sized :: "quantity option \<Rightarrow> raw_spec" where
  "sized q = default_nats (Some (blank_spec\<lparr>rsJetStream := Some \<lparr>rjMem = None, rjFile = Some \<lparr>rfClass = None, rfSize = q\<rparr>\<rparr>\<rparr>))"

lemma sized_facts:
  "raw_cluster (sized q) = \<lparr>clusterSize = 3\<rparr>" "raw_file_of (sized q) = \<lparr>rfClass = Some ''default'', rfSize = q\<rparr>"
  "raw_mem_of (sized q) = mem_marker"
  by (simp_all add: sized_def raw_cluster_def raw_file_of_def raw_mem_of_def default_defs blank_defs)

lemma sized_history:
  assumes "spec_history (\<lambda>q. q \<noteq> QuantityZero) s0 (sized p)" "p = None \<or> q = None \<or> p = q"
  shows "spec_history (\<lambda>q. q \<noteq> QuantityZero) s0 (sized q)"
  by (rule spec_history.updated [OF assms(1) sized_def])
    (use assms(2) in \<open>auto simp: update_valid_def sized_facts size_update_valid_def size_valid_def mem_valid_def mem_marker_def
      file_update_valid_def unchanged_once_set_def split: option.splits\<close>)

lemma sized_created: "spec_history (\<lambda>q. q \<noteq> QuantityZero) (sized p) (sized p)"
  by (rule spec_history.created [OF sized_def]) (simp_all add: sized_facts size_valid_def mem_valid_def mem_marker_def)

text \<open>
  The size of the file storage is not immutable once it was set: it can be removed by one update and set to
  another value by the next, as the rule on the old value is not evaluated on a missing field.
\<close>

lemma file_size_can_change: "spec_history (\<lambda>q. q \<noteq> QuantityZero) (sized (Some p)) (sized (Some q))"
  by (rule sized_history [OF sized_history [OF sized_created, of "Some p" None]]) simp_all

theorem admitted_specs_keep_promises_witness:
  "3 \<le> clusterSize (raw_cluster (sized None)) \<and>
   (\<exists>c. rfClass (raw_file_of (sized (Some (QuantityOf ''2Gi'')))) = Some c \<and> rfClass (raw_file_of (sized None)) = Some c)"
  using admitted_specs_keep_promises [OF sized_history [OF sized_created, of "Some (QuantityOf ''2Gi'')" None]]
  by (simp add: sized_facts)

end
