(* ===== verification/Wire.thy ===== *)
theory Wire
  imports Admission Provisioning
begin

text \<open>
  The specification of a resource on its way between the controller and the API server: the \<^verbatim>\<open>json\<close> tags of
  \<^verbatim>\<open>api/v1alpha1/nats_types.go\<close>, as \<^verbatim>\<open>encoding/json\<close> reads them, together with the defaulting and the rules
  of \<^verbatim>\<open>Admission\<close>. \<^verbatim>\<open>omitempty\<close> leaves out a zero number, a false flag, an empty text and an empty map; a
  struct is always written, and a \<^verbatim>\<open>resource.Quantity\<close> is a struct, written as its canonical text: the
  parameter \<open>cn\<close> of apimachinery. A field that is missing is read as the zero value of its type.
\<close>

section \<open>Writing\<close>

definition omitempty :: "'a \<Rightarrow> 'a \<Rightarrow> 'a option" where
  "omitempty zero x = (if x = zero then None else Some x)"

definition marshal_mem :: "(quantity \<Rightarrow> quantity) \<Rightarrow> MemStorage \<Rightarrow> raw_mem" where
  "marshal_mem cn m = \<lparr>rmEnabled = omitempty False (memEnabled m), rmSize = Some (cn (memSize m))\<rparr>"

definition marshal_file :: "(quantity \<Rightarrow> quantity) \<Rightarrow> FileStorage \<Rightarrow> raw_file" where
  "marshal_file cn f = \<lparr>rfClass = omitempty [] (fsStorageClassName f), rfSize = Some (cn (fsSize f))\<rparr>"

definition marshal_jetstream :: "(quantity \<Rightarrow> quantity) \<Rightarrow> JetStream \<Rightarrow> raw_jetstream" where
  "marshal_jetstream cn j =
     \<lparr>rjMem = Some (marshal_mem cn (jsMemStorage j)), rjFile = Some (marshal_file cn (jsFileStorage j))\<rparr>"

definition marshal_logging :: "Logging \<Rightarrow> raw_logging" where
  "marshal_logging l = \<lparr>rlDebug = omitempty False (logDebug l), rlTrace = omitempty False (logTrace l)\<rparr>"

definition marshal_list :: "(quantity \<Rightarrow> quantity) \<Rightarrow> resource_list \<Rightarrow> resource_list" where
  "marshal_list cn xs = map (\<lambda>(k, q). (k, cn q)) xs"

definition marshal_resources :: "(quantity \<Rightarrow> quantity) \<Rightarrow> ResourceRequirements \<Rightarrow> raw_resources" where
  "marshal_resources cn r = \<lparr>rrLimits = omitempty [] (marshal_list cn (resLimits r)),
     rrRequests = omitempty [] (marshal_list cn (resRequests r))\<rparr>"

definition marshal_spec :: "(quantity \<Rightarrow> quantity) \<Rightarrow> NATSSpec \<Rightarrow> raw_spec" where
  "marshal_spec cn s = \<lparr>rsCluster = Some (omitempty 0 (clusterSize (spCluster s))),
     rsJetStream = Some (marshal_jetstream cn (spJetStream s)), rsLogging = Some (marshal_logging (spLogging s)),
     rsResources = Some (marshal_resources cn (spResources s)),
     rsAnnotations = omitempty [] (spAnnotations s), rsLabels = omitempty [] (spLabels s)\<rparr>"

section \<open>Reading\<close>

definition unmarshal_mem :: "raw_mem \<Rightarrow> MemStorage" where
  "unmarshal_mem m = \<lparr>memEnabled = or_default False (rmEnabled m), memSize = or_default QuantityZero (rmSize m)\<rparr>"

definition unmarshal_file :: "raw_file \<Rightarrow> FileStorage" where
  "unmarshal_file f = \<lparr>fsStorageClassName = or_default [] (rfClass f), fsSize = or_default QuantityZero (rfSize f)\<rparr>"

definition unmarshal_logging :: "raw_logging \<Rightarrow> Logging" where
  "unmarshal_logging l = \<lparr>logDebug = or_default False (rlDebug l), logTrace = or_default False (rlTrace l)\<rparr>"

definition unmarshal_resources :: "raw_resources \<Rightarrow> ResourceRequirements" where
  "unmarshal_resources r = \<lparr>resLimits = or_default [] (rrLimits r), resRequests = or_default [] (rrRequests r)\<rparr>"

definition unmarshal_spec :: "raw_spec \<Rightarrow> NATSSpec" where
  "unmarshal_spec s = \<lparr>spCluster = raw_cluster s,
     spJetStream = \<lparr>jsMemStorage = unmarshal_mem (raw_mem_of s), jsFileStorage = unmarshal_file (raw_file_of s)\<rparr>,
     spLogging = unmarshal_logging (or_default blank_logging (rsLogging s)),
     spResources = unmarshal_resources (or_default \<lparr>rrLimits = None, rrRequests = None\<rparr> (rsResources s)),
     spAnnotations = or_default [] (rsAnnotations s), spLabels = or_default [] (rsLabels s)\<rparr>"

lemma omitempty_read [simp]: "or_default z (omitempty z x) = x"
  by (simp add: omitempty_def)

lemma omitempty_default: "or_default d (omitempty z x) = (if x = z then d else x)"
  by (simp add: omitempty_def)

lemmas marshal_defs = marshal_spec_def marshal_resources_def marshal_logging_def marshal_jetstream_def
  marshal_file_def marshal_mem_def

lemmas unmarshal_defs = unmarshal_spec_def unmarshal_resources_def unmarshal_logging_def unmarshal_file_def
  unmarshal_mem_def

lemma raw_parts_marshal [simp]:
  "raw_cluster (marshal_spec cn s) = spCluster s"
  "raw_mem_of (marshal_spec cn s) = marshal_mem cn (jsMemStorage (spJetStream s))"
  "raw_file_of (marshal_spec cn s) = marshal_file cn (jsFileStorage (spJetStream s))"
  by (simp_all add: raw_cluster_def raw_mem_of_def raw_file_of_def marshal_spec_def marshal_jetstream_def)

text \<open>What the controller writes, it reads back when nothing comes in between, with canonical quantities.\<close>

definition canonical :: "(quantity \<Rightarrow> quantity) \<Rightarrow> NATSSpec \<Rightarrow> NATSSpec" where
  "canonical cn s = (let mem = jsMemStorage (spJetStream s); file = jsFileStorage (spJetStream s); r = spResources s in
     s\<lparr>spJetStream := \<lparr>jsMemStorage = mem\<lparr>memSize := cn (memSize mem)\<rparr>,
         jsFileStorage = file\<lparr>fsSize := cn (fsSize file)\<rparr>\<rparr>,
       spResources := \<lparr>resLimits = marshal_list cn (resLimits r), resRequests = marshal_list cn (resRequests r)\<rparr>\<rparr>)"

lemma json_roundtrip: "unmarshal_spec (marshal_spec cn s) = canonical cn s"
  by (simp add: unmarshal_defs marshal_defs raw_parts_marshal [unfolded marshal_defs] canonical_def Let_def)

section \<open>What the API server makes of a written specification\<close>

definition as_stored :: "(quantity \<Rightarrow> quantity) \<Rightarrow> NATSSpec \<Rightarrow> raw_spec" where
  "as_stored cn s = default_nats (Some (marshal_spec cn s))"

definition with_defaults :: "NATSSpec \<Rightarrow> NATSSpec" where
  "with_defaults s = s\<lparr>
     spCluster := (if clusterSize (spCluster s) = 0 then \<lparr>clusterSize = 3\<rparr> else spCluster s),
     spJetStream := \<lparr>jsMemStorage = (jsMemStorage (spJetStream s))\<lparr>memEnabled := True\<rparr>,
       jsFileStorage = (let f = jsFileStorage (spJetStream s) in
         if fsStorageClassName f = [] then f\<lparr>fsStorageClassName := ''default''\<rparr> else f)\<rparr>\<rparr>"

lemma raw_parts_stored:
  "raw_cluster (as_stored cn s) = spCluster (with_defaults s)"
  "raw_mem_of (as_stored cn s) = \<lparr>rmEnabled = Some True, rmSize = Some (cn (memSize (jsMemStorage (spJetStream s))))\<rparr>"
  "raw_file_of (as_stored cn s) = \<lparr>rfClass = Some (fsStorageClassName (jsFileStorage (spJetStream (with_defaults s)))),
     rfSize = Some (cn (fsSize (jsFileStorage (spJetStream s))))\<rparr>"
  by (simp_all add: as_stored_def raw_cluster_def raw_mem_of_def raw_file_of_def with_defaults_def default_nats_def
      default_spec_def default_jetstream_def default_mem_def default_file_def size_marker_def marshal_defs
      omitempty_default Let_def)

lemma read_stored: "unmarshal_spec (as_stored cn s) = with_defaults (canonical cn s)"
proof -
  have "or_default blank_logging (rsLogging (as_stored cn s)) = default_logging (marshal_logging (spLogging s))"
    "or_default \<lparr>rrLimits = None, rrRequests = None\<rparr> (rsResources (as_stored cn s)) = marshal_resources cn (spResources s)"
    "rsAnnotations (as_stored cn s) = omitempty [] (spAnnotations s)" "rsLabels (as_stored cn s) = omitempty [] (spLabels s)"
    by (simp_all add: as_stored_def default_nats_def default_spec_def marshal_spec_def)
  then show ?thesis
    by (intro NATSSpec.equality)
      (simp_all add: unmarshal_defs raw_parts_stored with_defaults_def default_logging_def marshal_logging_def
        marshal_resources_def canonical_def Let_def)
qed

lemma with_defaults_id:
  "with_defaults s = s \<longleftrightarrow> clusterSize (spCluster s) \<noteq> 0 \<and> memEnabled (jsMemStorage (spJetStream s)) \<and>
    fsStorageClassName (jsFileStorage (spJetStream s)) \<noteq> []"
  by (cases s rule: NATSSpec.cases; cases "spCluster s"; cases "spJetStream s"; cases "jsMemStorage (spJetStream s)";
      cases "jsFileStorage (spJetStream s)") (auto simp: with_defaults_def Let_def)

lemma canonical_parts [simp]:
  "spCluster (canonical cn s) = spCluster s"
  "memEnabled (jsMemStorage (spJetStream (canonical cn s))) = memEnabled (jsMemStorage (spJetStream s))"
  "fsStorageClassName (jsFileStorage (spJetStream (canonical cn s))) = fsStorageClassName (jsFileStorage (spJetStream s))"
  by (simp_all add: canonical_def Let_def)

text \<open>
  C38. A specification survives the encoding of the client, with its quantities in canonical form. With the
  defaulting of the API server in between it survives exactly when nothing the tags leave out has a default
  other than its zero value: the size is not zero, the storage class not empty, and the memory storage
  enabled.
\<close>

theorem spec_roundtrip:
  "unmarshal_spec (marshal_spec cn s) = canonical cn s \<and>
   (unmarshal_spec (default_nats (Some (marshal_spec cn s))) = canonical cn s \<longleftrightarrow>
     clusterSize (spCluster s) \<noteq> 0 \<and> memEnabled (jsMemStorage (spJetStream s)) \<and>
     fsStorageClassName (jsFileStorage (spJetStream s)) \<noteq> [])"
  using json_roundtrip read_stored [unfolded as_stored_def] with_defaults_id by simp

section \<open>The update that adds the finalizer\<close>

definition memory_on :: "NATSSpec \<Rightarrow> NATSSpec" where
  "memory_on s = s\<lparr>spJetStream := (spJetStream s)\<lparr>jsMemStorage := (jsMemStorage (spJetStream s))\<lparr>memEnabled := True\<rparr>\<rparr>\<rparr>"

lemma memory_on_enabled: "memEnabled (jsMemStorage (spJetStream (memory_on s)))"
  by (simp add: memory_on_def)

lemma with_defaults_on:
  assumes "clusterSize (spCluster s) \<noteq> 0" "fsStorageClassName (jsFileStorage (spJetStream s)) \<noteq> []"
  shows "with_defaults s = memory_on s"
  using assms by (simp add: with_defaults_def memory_on_def Let_def)

lemma overrides_memory:
  assumes "GenerateOverrides M imgs s istio rotPw cp = Inr ov"
  shows "map_of ov MemStorageEnabledKey = Some (VBool (memEnabled (jsMemStorage (spJetStream s))))"
proof -
  obtain q where q: "resolveFileStorageSize M s cp = Inr q"
    using assms by (auto simp: GenerateOverrides_def Let_def split: sum.splits)
  show ?thesis
    unfolding assms [unfolded GenerateOverrides_def q Let_def sum.case, THEN sum.inject(2) [THEN iffD1], symmetric]
    by (simp_all add: map_of_assign const_defs Let_def)
qed

text \<open>The API server takes the update back, and what it refuses.\<close>

definition survives :: "(quantity \<Rightarrow> quantity) \<Rightarrow> (quantity \<Rightarrow> bool) \<Rightarrow> raw_spec \<Rightarrow> bool" where
  "survives cn nonzero d \<longleftrightarrow> rfClass (raw_file_of d) \<noteq> Some [] \<and>
     (\<forall>q. rfSize (raw_file_of d) = Some q \<longrightarrow> cn q = q) \<and>
     nonzero (cn (or_default QuantityZero (rmSize (raw_mem_of d))))"

lemma stored_valid:
  assumes "spec_history nonzero d0 d" "s = unmarshal_spec d"
  shows "update_valid nonzero d (as_stored cn s) \<longleftrightarrow> survives cn nonzero d"
proof -
  have size: "size_valid (raw_cluster d)" by (rule spec_history_size_valid [OF assms(1)])
  then have size_update: "size_update_valid (raw_cluster d) (raw_cluster (as_stored cn s))"
    unfolding raw_parts_stored using assms(2)
    by (auto simp: size_update_valid_def size_valid_def with_defaults_def unmarshal_spec_def)
  obtain c where c: "rfClass (raw_file_of d) = Some c" using spec_history_class [OF assms(1)] by blast
  then have "file_update_valid (raw_file_of d) (raw_file_of (as_stored cn s)) \<longleftrightarrow>
      c \<noteq> [] \<and> (\<forall>q. rfSize (raw_file_of d) = Some q \<longrightarrow> cn q = q)"
    unfolding raw_parts_stored assms(2)
    by (auto simp: file_update_valid_def unchanged_once_set_def with_defaults_def unmarshal_spec_def
        unmarshal_file_def Let_def split: option.splits)
  with size_update c show ?thesis
    by (auto simp: update_valid_def mem_valid_def raw_parts_stored survives_def assms(2) unmarshal_spec_def unmarshal_mem_def)
qed

lemma stored_on:
  assumes "spec_history nonzero d0 d" "s = unmarshal_spec d" "survives cn nonzero d"
  shows "unmarshal_spec (as_stored cn s) = memory_on (canonical cn s)"
proof -
  obtain c where "rfClass (raw_file_of d) = Some c" using spec_history_class [OF assms(1)] by blast
  then show ?thesis
    unfolding read_stored using assms spec_history_size_valid [OF assms(1)]
    by (intro with_defaults_on) (simp_all add: unmarshal_spec_def unmarshal_file_def size_valid_def survives_def)
qed

text \<open>
  C9. Adding the finalizer, the controller writes the whole resource, and the tags leave out a flag that is
  false. So whatever the user asked for, the API server either refuses the update, when the storage class
  is empty, the memory storage has no size or the text of the file size is not canonical, and the resource
  never gets its finalizer; or it stores the specification with the memory storage switched on, and
  the chart is configured with it.
\<close>

theorem finalizer_update_rewrites:
  fixes s :: "('w, 'z) reconciler_scheme"
  assumes "\<not> containsFinalizer (meta L) nats" "spec_history nonzero d0 d" "nSpec nats = unmarshal_spec d"
  shows "\<exists>pre n e. new_actions (handleNATSReconcile L C nats) s = pre @ [AUpdateNATS n e] \<and>
    (let stored = default_nats (Some (marshal_spec cn (nSpec n))) in
      if survives cn nonzero d
      then update_valid nonzero d stored \<and> unmarshal_spec stored = memory_on (canonical cn (nSpec nats)) \<and>
        (\<forall>M imgs istio rotPw cp ov. GenerateOverrides M imgs (unmarshal_spec stored) istio rotPw cp = Inr ov \<longrightarrow>
          map_of ov MemStorageEnabledKey = Some (VBool True))
      else \<not> update_valid nonzero d stored)"
proof -
  obtain pre st e where "new_actions (handleNATSReconcile L C nats) s = pre @ [AUpdateNATS (nats\<lparr>nStatus := st,
      nFinalizers := add_finalizer_to (meta L) (nFinalizers nats) NATSFinalizerName\<rparr>) e]"
    using no_finalizer_provision [OF assms(1)] by blast
  then show ?thesis
    using stored_valid [OF assms(2,3)] stored_on [OF assms(2,3)]
    by (intro exI conjI) (auto simp: Let_def as_stored_def memory_on_enabled dest: overrides_memory)
qed

text \<open>
  The production sample of the repository asks for a memory storage of \<^verbatim>\<open>20Mi\<close> that is not enabled.
\<close>

definition kyma_prod_spec :: raw_spec where
  "kyma_prod_spec = \<lparr>rsCluster = Some (Some 3),
     rsJetStream = Some \<lparr>rjMem = Some \<lparr>rmEnabled = Some False, rmSize = Some (QuantityOf ''20Mi'')\<rparr>,
       rjFile = Some \<lparr>rfClass = Some ''default'', rfSize = Some (QuantityOf ''1Gi'')\<rparr>\<rparr>,
     rsLogging = Some \<lparr>rlDebug = Some False, rlTrace = Some False\<rparr>,
     rsResources = Some \<lparr>rrLimits = Some [(''cpu'', QuantityOf ''20m''), (''memory'', QuantityOf ''64Mi'')],
       rrRequests = Some [(''cpu'', QuantityOf ''5m''), (''memory'', QuantityOf ''16Mi'')]\<rparr>,
     rsAnnotations = None, rsLabels = None\<rparr>"

lemma kyma_prod_stored: "default_nats (Some kyma_prod_spec) = kyma_prod_spec"
  by (simp add: kyma_prod_spec_def default_nats_def default_spec_def default_jetstream_def default_mem_def
      default_file_def default_logging_def)

lemma kyma_prod_parts:
  "raw_cluster kyma_prod_spec = \<lparr>clusterSize = 3\<rparr>"
  "raw_mem_of kyma_prod_spec = \<lparr>rmEnabled = Some False, rmSize = Some (QuantityOf ''20Mi'')\<rparr>"
  "raw_file_of kyma_prod_spec = \<lparr>rfClass = Some ''default'', rfSize = Some (QuantityOf ''1Gi'')\<rparr>"
  by (simp_all add: kyma_prod_spec_def raw_cluster_def raw_mem_of_def raw_file_of_def)

lemma kyma_prod_history: "spec_history (\<lambda>q. q \<noteq> QuantityZero) kyma_prod_spec kyma_prod_spec"
  by (rule spec_history.created [OF kyma_prod_stored [symmetric]])
    (simp_all add: kyma_prod_parts size_valid_def mem_valid_def)

theorem finalizer_update_rewrites_witness:
  "\<exists>pre n e. new_actions (handleNATSReconcile (demo_libs []) (demo_config None)
      (demo_nats\<lparr>nSpec := unmarshal_spec kyma_prod_spec\<rparr>)) demo_rec = pre @ [AUpdateNATS n e] \<and>
    \<not> memEnabled (jsMemStorage (spJetStream (unmarshal_spec kyma_prod_spec))) \<and>
    memEnabled (jsMemStorage (spJetStream (unmarshal_spec (default_nats (Some (marshal_spec id (nSpec n)))))))"
proof -
  let ?n = "demo_nats\<lparr>nSpec := unmarshal_spec kyma_prod_spec\<rparr>"
  have "\<not> containsFinalizer (meta (demo_libs [])) ?n"
    by (simp add: containsFinalizer_def demo_libs_def ref_meta_def demo_nats_def)
  moreover have "survives id (\<lambda>q. q \<noteq> QuantityZero) kyma_prod_spec"
    by (simp add: survives_def kyma_prod_parts)
  ultimately obtain pre n e where
    "new_actions (handleNATSReconcile (demo_libs []) (demo_config None) ?n) demo_rec = pre @ [AUpdateNATS n e]"
    "unmarshal_spec (default_nats (Some (marshal_spec id (nSpec n)))) = memory_on (canonical id (nSpec ?n))"
    using finalizer_update_rewrites [OF _ kyma_prod_history, where s = demo_rec and C = "demo_config None" and cn = id
        and nats = ?n and L = "demo_libs []"] by (auto simp: Let_def)
  moreover have "\<not> memEnabled (jsMemStorage (spJetStream (unmarshal_spec kyma_prod_spec)))"
    by (simp add: unmarshal_spec_def unmarshal_mem_def kyma_prod_parts)
  ultimately show ?thesis using memory_on_enabled by metis
qed

section \<open>The size of the file storage\<close>

text \<open>
  The update writes the size of the file storage even when it was left out, as the text of the zero quantity: from
  then on the size counts as set, and setting it to anything else is refused.
\<close>

lemma file_size_pinned:
  assumes "rfSize (raw_file_of d) = None" "s = unmarshal_spec d" "rfSize (raw_file_of d') = Some q" "q \<noteq> cn QuantityZero"
  shows "\<not> update_valid nonzero (as_stored cn s) d'"
  using assms
  by (simp add: update_valid_def file_update_valid_def unchanged_once_set_def raw_parts_stored unmarshal_spec_def unmarshal_file_def)

end
