(* ===== verification/E2ECommon.thy ===== *)
theory E2ECommon
  imports Wire Testutils
begin

text \<open>
  \<^verbatim>\<open>e2e/common\<close>: the retry loops, the clients, the log level and the fixtures that the end-to-end tests
  share, and the registration of the API group, \<^verbatim>\<open>api/v1alpha1/groupversion_info.go\<close>. The function that is
  retried and the ticker act on one state of the outside world.
\<close>

section \<open>Retrying\<close>

text \<open>
  \<^verbatim>\<open>Retry\<close> and \<^verbatim>\<open>RetryGet\<close>: the error of the previous attempt goes around the loop. A ticker with an interval
  that is not positive panics.
\<close>

function Retry_loop ::
  "('s, unit) state \<Rightarrow> ('s, go_error option) state \<Rightarrow> int \<Rightarrow> go_error option \<Rightarrow> ('s, go_error option) state" where
  "Retry_loop tick fn attempts err =
     (if attempts > 0 then do {
        _ \<leftarrow> tick;
        err \<leftarrow> fn;
        (case err of None \<Rightarrow> ret None | Some e \<Rightarrow> Retry_loop tick fn (attempts - 1) (Some e))
      }
      else ret err)"
  by pat_completeness auto

termination
  by (relation "measure (\<lambda>(tick, fn, attempts, err). nat attempts)") auto

declare Retry_loop.simps [simp del]

function RetryGet_loop ::
  "('s, unit) state \<Rightarrow> ('s, 'a option \<times> go_error option) state \<Rightarrow> int \<Rightarrow> go_error option \<Rightarrow>
   ('s, 'a option \<times> go_error option) state" where
  "RetryGet_loop tick fn attempts err =
     (if attempts > 0 then do {
        _ \<leftarrow> tick;
        r \<leftarrow> fn;
        (case r of
           (ob, None) \<Rightarrow> ret (ob, None)
         | (ob, Some e) \<Rightarrow> RetryGet_loop tick fn (attempts - 1) (Some e))
      }
      else ret (None, err))"
  by pat_completeness auto

termination
  by (relation "measure (\<lambda>(tick, fn, attempts, err). nat attempts)") auto

declare RetryGet_loop.simps [simp del]

definition Retry ::
  "(int \<Rightarrow> ('s, unit) state) \<Rightarrow> int \<Rightarrow> int \<Rightarrow> ('s, go_error option) state \<Rightarrow> ('s, go_error option outcome) state" where
  "Retry ticker attempts interval fn =
     (if interval \<le> 0 then ret Panicked
      else do { r \<leftarrow> Retry_loop (ticker interval) fn attempts None; ret (Returned r) })"

definition RetryGet ::
  "(int \<Rightarrow> ('s, unit) state) \<Rightarrow> int \<Rightarrow> int \<Rightarrow> ('s, 'a option \<times> go_error option) state \<Rightarrow>
   ('s, ('a option \<times> go_error option) outcome) state" where
  "RetryGet ticker attempts interval fn =
     (if interval \<le> 0 then ret Panicked
      else do { r \<leftarrow> RetryGet_loop (ticker interval) fn attempts None; ret (Returned r) })"

text \<open>The reference: all attempts in a row, of which the first that succeeds, or else the last, counts.\<close>

fun tries :: "nat \<Rightarrow> ('s, 'r) state \<Rightarrow> 's \<Rightarrow> ('r \<times> 's) list" where
  "tries 0 m s = []"
| "tries (Suc n) m s = (let r = run_state m s in r # tries n m (snd r))"

definition first_good :: "('r \<Rightarrow> bool) \<Rightarrow> 'r \<times> 's \<Rightarrow> ('r \<times> 's) list \<Rightarrow> 'r \<times> 's" where
  "first_good good none rs = (case find (\<lambda>r. good (fst r)) rs of Some r \<Rightarrow> r | None \<Rightarrow> last (none # rs))"

lemma first_good_simps:
  "first_good good none [] = none"
  "first_good good none (r # rs) = (if good (fst r) then r else first_good good r rs)"
  by (simp_all add: first_good_def split: option.splits)

lemma retry_reference:
  "run_state (Retry_loop tick fn attempts err) s =
   first_good (\<lambda>r. r = None) (err, s) (tries (nat attempts) (do { _ \<leftarrow> tick; fn }) s)"
proof (induction "nat attempts" arbitrary: attempts err s)
  case 0
  then show ?case by (subst Retry_loop.simps) (simp add: first_good_simps)
next
  case (Suc n)
  then have n: "n = nat (attempts - 1)" "attempts > 0" by simp_all
  obtain r t where rt: "run_state (do { _ \<leftarrow> tick; fn }) s = (r, t)" by force
  have "run_state (Retry_loop tick fn attempts err) s =
      (case r of None \<Rightarrow> (None, t) | Some e \<Rightarrow> run_state (Retry_loop tick fn (attempts - 1) (Some e)) t)"
    using rt n(2) by (subst Retry_loop.simps) (auto split: prod.splits option.splits)
  then show ?case
    using Suc(1) [OF n(1)] rt by (simp add: Suc(2) [symmetric] n(1) [symmetric] first_good_simps split: option.splits)
qed

text \<open>The error of \<^verbatim>\<open>RetryGet\<close>, and its effects, are those of \<^verbatim>\<open>Retry\<close> on the error alone.\<close>

lemma retry_get_error:
  "run_state (do { r \<leftarrow> RetryGet_loop tick fn attempts err; ret (snd r) }) s =
   run_state (Retry_loop tick (do { r \<leftarrow> fn; ret (snd r) }) attempts err) s"
proof (induction "nat attempts" arbitrary: attempts err s)
  case 0
  then show ?case by (subst Retry_loop.simps, subst RetryGet_loop.simps) simp
next
  case (Suc n)
  then have n: "n = nat (attempts - 1)" "attempts > 0" by simp_all
  show ?case
    using n(2) Suc(1) [OF n(1), symmetric]
    by (subst Retry_loop.simps, subst RetryGet_loop.simps) (auto split: prod.splits option.splits)
qed

text \<open>An object is only handed on by the attempt that succeeded.\<close>

lemma retry_get_object:
  assumes "run_state (RetryGet_loop tick fn attempts err) s = ((Some ob, e), t)"
  shows "e = None \<and> (\<exists>u. run_state fn u = ((Some ob, None), t))"
  using assms
proof (induction "nat attempts" arbitrary: attempts err s)
  case 0
  then show ?case by (subst (asm) RetryGet_loop.simps) simp
next
  case (Suc n)
  then have n: "n = nat (attempts - 1)" "attempts > 0" by simp_all
  show ?case
    using Suc(3) n(2) Suc(1) [OF n(1)]
    by (subst (asm) RetryGet_loop.simps) (auto split: prod.splits option.splits)
qed

text \<open>With no attempts allowed nothing is tried, and success is reported.\<close>

lemma retry_without_attempts:
  "attempts \<le> 0 \<Longrightarrow> 0 < interval \<Longrightarrow> run_state (Retry ticker attempts interval fn) s = (Returned None, s)"
  "attempts \<le> 0 \<Longrightarrow> 0 < interval \<Longrightarrow> run_state (RetryGet ticker attempts interval get) s = (Returned (None, None), s)"
  by (simp_all add: Retry_def RetryGet_def Retry_loop.simps RetryGet_loop.simps)

section \<open>The API group\<close>

record group_version =
  gvGroup :: string
  gv_Version :: string

definition GroupVersion :: group_version where
  "GroupVersion = \<lparr>gvGroup = ''operator.kyma-project.io'', gv_Version = ''v1alpha1''\<rparr>"

text \<open>
  The builder of controller-runtime holds the group and the types that \<^verbatim>\<open>init\<close> registered; \<open>build\<close> adds
  them to a scheme.
\<close>

definition SchemeBuilder :: "group_version \<times> string list" where
  "SchemeBuilder = (GroupVersion, [''NATS'', ''NATSList''])"

definition AddToScheme :: "(group_version \<times> string list \<Rightarrow> 's \<Rightarrow> go_error option \<times> 's) \<Rightarrow> ('s, go_error option) state" where
  "AddToScheme build = State (build SchemeBuilder)"

section \<open>Clients\<close>

record ('w, 'cfg, 'cs, 'cl) e2e_lib =
  UserHomeDir :: "'w \<Rightarrow> (go_error + string) \<times> 'w"
  path_join :: "string list \<Rightarrow> string"
  BuildConfigFromFlags :: "string \<Rightarrow> string \<Rightarrow> 'w \<Rightarrow> (go_error + 'cfg) \<times> 'w"
  NewForConfig :: "'cfg \<Rightarrow> 'w \<Rightarrow> (go_error + 'cs) \<times> 'w"
  add_to_global_scheme :: "group_version \<times> string list \<Rightarrow> 'w \<Rightarrow> go_error option \<times> 'w"
  new_client :: "'cfg \<Rightarrow> 'w \<Rightarrow> (go_error + 'cl) \<times> 'w"

definition GetK8sClients :: "('w, 'cfg, 'cs, 'cl) e2e_lib \<Rightarrow> ('w, go_error + 'cs \<times> 'cl) state" where
  "GetK8sClients E = do {
     home \<leftarrow> State (UserHomeDir E);
     (case home of
        Inl err \<Rightarrow> ret (Inl err)
      | Inr userHomeDir \<Rightarrow> do {
          cfg \<leftarrow> State (BuildConfigFromFlags E [] (path_join E [userHomeDir, ''.kube'', ''config'']));
          (case cfg of
             Inl err \<Rightarrow> ret (Inl err)
           | Inr kubeConfig \<Rightarrow> do {
               cs \<leftarrow> State (NewForConfig E kubeConfig);
               (case cs of
                  Inl err \<Rightarrow> ret (Inl err)
                | Inr clientSet \<Rightarrow> do {
                    added \<leftarrow> AddToScheme (add_to_global_scheme E);
                    (case added of
                       Some err \<Rightarrow> ret (Inl err)
                     | None \<Rightarrow> do {
                         cl \<leftarrow> State (new_client E kubeConfig);
                         ret (case cl of Inl err \<Rightarrow> Inl err | Inr k8sClient \<Rightarrow> Inr (clientSet, k8sClient))
                       })
                  })
             })
        })
   }"

text \<open>The client for the resources is only made once their types are in the scheme.\<close>

lemma clients_after_scheme:
  assumes "run_state (GetK8sClients E) w = (Inr (cs, cl), w')"
  shows "\<exists>cfg w1 w2. add_to_global_scheme E SchemeBuilder w1 = (None, w2) \<and> new_client E cfg w2 = (Inr cl, w')"
  using assms by (auto simp: GetK8sClients_def AddToScheme_def split: prod.splits sum.splits option.splits)

section \<open>The logger\<close>

datatype LogLevel = DebugLevel | InfoLevel | WarnLevel | ErrorLevel

definition log_level :: "string \<Rightarrow> LogLevel" where
  "log_level logLevel =
     (if logLevel = ''debug'' then DebugLevel
      else if logLevel = ''info'' then InfoLevel
      else if logLevel = ''warn'' then WarnLevel
      else if logLevel = ''error'' then ErrorLevel
      else DebugLevel)"

record logger_config =
  lcLevel :: LogLevel
  lcDevelopment :: bool
  lcEncoding :: string
  lcOutputPaths :: "string list"
  lcErrorOutputPaths :: "string list"

definition SetupLogger ::
  "(string \<Rightarrow> string) \<Rightarrow> (logger_config \<Rightarrow> 'w \<Rightarrow> (go_error + 'l) \<times> 'w) \<Rightarrow> ('w, go_error + 'l) state" where
  "SetupLogger getenv build = State (build \<lparr>lcLevel = log_level (getenv ''E2E_LOG_LEVEL''), lcDevelopment = False,
     lcEncoding = ''json'', lcOutputPaths = [''stdout''], lcErrorOutputPaths = [''stderr'']\<rparr>)"

section \<open>Fixtures\<close>

definition NamespaceName :: string where "NamespaceName = ''kyma-system''"
definition ManagerDeploymentName :: string where "ManagerDeploymentName = ''nats-manager''"
definition CRName :: string where "CRName = ''eventing-nats''"
definition STSName :: string where "STSName = CRName"
definition ContainerName :: string where "ContainerName = ''nats''"
definition pvcLabel :: string where "pvcLabel = ''app.kubernetes.io/name=nats''"
definition podLabel :: string where "podLabel = ''nats_cluster=eventing-nats''"
definition ClusterSize :: int where "ClusterSize = 3"
definition SecretName :: string where "SecretName = ''eventing-nats-secret''"
definition CMName :: string where "CMName = ''eventing-nats-config''"
definition FileStorageSize :: string where "FileStorageSize = ''1Gi''"
definition MemStorageSize :: string where "MemStorageSize = ''1Gi''"
definition PriorityClassName :: string where "PriorityClassName = ''nats-manager-priority-class''"

definition NATSCR :: "'w rng \<Rightarrow> (('w, 'z) host_scheme, NATS option) state" where
  "NATSCR intn = NewNATSCR intn
     [WithNATSCRName CRName, WithNATSCRNamespace NamespaceName, WithNATSClusterSize ClusterSize,
      WithNATSFileStorage \<lparr>fsStorageClassName = ''default'', fsSize = MustParse FileStorageSize\<rparr>,
      WithNATSMemStorage \<lparr>memEnabled = True, memSize = MustParse MemStorageSize\<rparr>,
      WithNATSResources \<lparr>resLimits = [(''cpu'', MustParse ''20m''), (''memory'', MustParse ''2Gi'')],
        resRequests = [(''cpu'', MustParse ''5m''), (''memory'', MustParse ''2Gi'')]\<rparr>,
      WithNATSLogging True True]"

definition Namespace_fixture :: Namespace where
  "Namespace_fixture = \<lparr>nsKind = [], nsAPIVersion = [], nsName = NamespaceName\<rparr>"

definition PodListOpts :: string where "PodListOpts = podLabel"
definition PVCListOpts :: string where "PVCListOpts = pvcLabel"

text \<open>
  The resource of the end-to-end tests keeps away from everything the API server would rewrite: whatever
  the random names were, it is named as told, its creation is admitted, and what is stored reads back as the
  specification that was sent, when its quantities are in canonical form.
\<close>

lemma fixture_stored_as_sent:
  assumes "run_state (NATSCR intn) s = (Some n, s')" and "canonical cn (nSpec n) = nSpec n"
    and "nonzero (cn (QuantityOf ''1Gi''))"
  shows "nName n = ''eventing-nats'' \<and> nNamespace n = ''kyma-system'' \<and>
    spec_history nonzero (as_stored cn (nSpec n)) (as_stored cn (nSpec n)) \<and>
    unmarshal_spec (as_stored cn (nSpec n)) = nSpec n"
proof -
  have n: "n = \<lparr>nAPIVersion = ''v1alpha1'', nKind = ''NATS'', nName = CRName, nNamespace = NamespaceName,
      nUID = ''1234-5678-1234-5678'', nResourceVersion = [], nFinalizers = [], nDeletionTimestamp = None,
      nSpec = \<lparr>spCluster = \<lparr>clusterSize = 3\<rparr>,
        spJetStream = \<lparr>jsMemStorage = \<lparr>memEnabled = True, memSize = QuantityOf ''1Gi''\<rparr>,
          jsFileStorage = \<lparr>fsStorageClassName = ''default'', fsSize = QuantityOf ''1Gi''\<rparr>\<rparr>,
        spLogging = \<lparr>logDebug = True, logTrace = True\<rparr>,
        spResources = \<lparr>resLimits = [(''cpu'', QuantityOf ''20m''), (''memory'', QuantityOf ''2Gi'')],
          resRequests = [(''cpu'', QuantityOf ''5m''), (''memory'', QuantityOf ''2Gi'')]\<rparr>,
        spAnnotations = [], spLabels = []\<rparr>, nStatus = zeroStatus\<rparr>"
    using assms(1)
    by (auto simp: NATSCR_def NewNATSCR_def base_nats_def emptySpec_def MustParse_def ClusterSize_def FileStorageSize_def
        MemStorageSize_def WithNATSCRName_def WithNATSCRNamespace_def WithNATSClusterSize_def WithNATSFileStorage_def
        WithNATSMemStorage_def WithNATSResources_def WithNATSLogging_def split: prod.splits outcome.splits)
  have "with_defaults (nSpec n) = nSpec n" unfolding with_defaults_id by (simp add: n)
  moreover have "spec_history nonzero (as_stored cn (nSpec n)) (as_stored cn (nSpec n))"
    by (rule spec_history.created [OF as_stored_def])
      (use assms(3) in \<open>simp_all add: raw_parts_stored calculation size_valid_def mem_valid_def, simp_all add: n\<close>)
  ultimately show ?thesis
    unfolding read_stored assms(2) by (simp add: n CRName_def NamespaceName_def)
qed

end
