(* ===== verification/ApiServer.thy ===== *)
theory ApiServer
  imports Wire Matchers
begin

text \<open>
  The controller together with the API server that it keeps its resources in. The store holds, for each
  resource, the specification as it is written there and everything else of the resource. A run is
  \<^emph>\<open>served\<close> by a store when the recorded calls on resources have the answers that the documented behaviour
  of the API server gives: a read returns what is stored; an update is accepted only for the current
  version and an admitted specification, its status is ignored, and it removes a resource in deletion
  that has no finalizers left; an update of the status changes nothing else. A call may always fail.
\<close>

section \<open>The store\<close>

text \<open>What the server does with quantities, rules and versions is a parameter.\<close>

record server =
  svCanonical :: "quantity \<Rightarrow> quantity"
  svNonzero :: "quantity \<Rightarrow> bool"
  svNextVersion :: "string \<Rightarrow> string"

type_synonym stored = "NATS \<times> raw_spec"
type_synonym store = "string \<times> string \<Rightarrow> stored option"

definition key_of :: "NATS \<Rightarrow> string \<times> string" where
  "key_of n = (nNamespace n, nName n)"

text \<open>A resource as a client reads it.\<close>

definition seen :: "stored \<Rightarrow> NATS" where
  "seen x = (fst x)\<lparr>nSpec := unmarshal_spec (snd x)\<rparr>"

definition next_version :: "server \<Rightarrow> NATS \<Rightarrow> string" where
  "next_version V n = svNextVersion V (nResourceVersion n)"

definition accepts :: "server \<Rightarrow> NATS \<Rightarrow> stored \<Rightarrow> bool" where
  "accepts V n x \<longleftrightarrow> nResourceVersion n = nResourceVersion (fst x) \<and>
     update_valid (svNonzero V) (snd x) (as_stored (svCanonical V) (nSpec n))"

definition after_update :: "server \<Rightarrow> NATS \<Rightarrow> stored \<Rightarrow> stored option" where
  "after_update V n x =
     (if nDeletionTimestamp (fst x) \<noteq> None \<and> nFinalizers n = [] then None
      else Some ((fst x)\<lparr>nFinalizers := nFinalizers n, nResourceVersion := next_version V (fst x)\<rparr>,
        as_stored (svCanonical V) (nSpec n)))"

definition after_status :: "server \<Rightarrow> NATS \<Rightarrow> stored \<Rightarrow> stored" where
  "after_status V n x = ((fst x)\<lparr>nStatus := nStatus n, nResourceVersion := next_version V (fst x)\<rparr>, snd x)"

fun serve1 :: "server \<Rightarrow> action \<Rightarrow> store \<Rightarrow> store option" where
  "serve1 V (AGetNATS name ns (Inr n)) st = (if map_option seen (st (ns, name)) = Some n then Some st else None)"
| "serve1 V (AUpdateNATS n None) st =
     (case st (key_of n) of
        None \<Rightarrow> None
      | Some x \<Rightarrow> if accepts V n x then Some (st(key_of n := after_update V n x)) else None)"
| "serve1 V (AUpdateStatus n None) st =
     (case st (key_of n) of
        None \<Rightarrow> None
      | Some x \<Rightarrow> if nResourceVersion n = nResourceVersion (fst x) then Some (st(key_of n \<mapsto> after_status V n x)) else None)"
| "serve1 V _ st = Some st"

fun serve :: "server \<Rightarrow> action list \<Rightarrow> store \<Rightarrow> store option" where
  "serve V [] st = Some st"
| "serve V (a # as) st = (case serve1 V a st of None \<Rightarrow> None | Some st \<Rightarrow> serve V as st)"

lemma serve_append:
  "serve V (as @ bs) st = (case serve V as st of None \<Rightarrow> None | Some st \<Rightarrow> serve V bs st)"
  by (induction as arbitrary: st) (auto split: option.splits)

lemma serve_last: "serve V [a] st = serve1 V a st"
  by (simp split: option.splits)

lemma serve1_update:
  "serve1 V (AUpdateNATS n None) st = Some st' \<Longrightarrow> st (key_of n) = Some z \<Longrightarrow>
   accepts V n z \<and> st' = st(key_of n := after_update V n z)"
  by (auto split: if_splits)

lemma serve_appendE:
  assumes "serve V (as @ bs) st = Some st'"
  obtains st1 where "serve V as st = Some st1" "serve V bs st1 = Some st'"
  using assms by (auto simp: serve_append split: option.splits)

text \<open>Resources are stored under their own names.\<close>

definition wf_store :: "store \<Rightarrow> bool" where
  "wf_store st \<longleftrightarrow> (\<forall>k x. st k = Some x \<longrightarrow> key_of (fst x) = k)"

lemma wf_key: "wf_store st \<Longrightarrow> st k = Some x \<Longrightarrow> key_of (fst x) = k"
  unfolding wf_store_def by blast

lemma seen_key [simp]: "key_of (seen x) = key_of (fst x)"
  by (simp add: seen_def key_of_def)

lemma key_of_updates [simp]:
  "key_of (n\<lparr>nStatus := x\<rparr>) = key_of n" "key_of (n\<lparr>nFinalizers := fs\<rparr>) = key_of n"
  by (simp_all add: key_of_def)

lemma seen_fields [simp]:
  "nFinalizers (seen x) = nFinalizers (fst x)" "nDeletionTimestamp (seen x) = nDeletionTimestamp (fst x)"
  "nStatus (seen x) = nStatus (fst x)" "nResourceVersion (seen x) = nResourceVersion (fst x)"
  "nName (seen x) = nName (fst x)" "nNamespace (seen x) = nNamespace (fst x)"
  "nSpec (seen x) = unmarshal_spec (snd x)"
  by (simp_all add: seen_def)

text \<open>What stays when a status is written: everything but the status and the version.\<close>

definition identity :: "stored \<Rightarrow> stored" where
  "identity x = ((fst x)\<lparr>nStatus := zeroStatus, nResourceVersion := []\<rparr>, snd x)"

definition same_spec :: "stored option \<Rightarrow> stored option \<Rightarrow> bool" where
  "same_spec x y \<longleftrightarrow> map_option identity x = map_option identity y"

definition status_only :: "string \<times> string \<Rightarrow> store \<Rightarrow> store \<Rightarrow> bool" where
  "status_only k st st' \<longleftrightarrow> (\<forall>k'. k' \<noteq> k \<longrightarrow> st' k' = st k') \<and> same_spec (st k) (st' k)"

lemma same_spec_refl [simp]: "same_spec x x"
  by (simp add: same_spec_def)

lemma identity_fields:
  assumes "identity x = identity y"
  shows "snd x = snd y" "nFinalizers (fst x) = nFinalizers (fst y)" "nDeletionTimestamp (fst x) = nDeletionTimestamp (fst y)"
    "key_of (fst x) = key_of (fst y)"
proof -
  note eq = arg_cong [OF assms]
  show "snd x = snd y" "nFinalizers (fst x) = nFinalizers (fst y)" "nDeletionTimestamp (fst x) = nDeletionTimestamp (fst y)"
    "key_of (fst x) = key_of (fst y)"
    using eq [of snd] eq [of "\<lambda>x. nFinalizers (fst x)"] eq [of "\<lambda>x. nDeletionTimestamp (fst x)"] eq [of "\<lambda>x. key_of (fst x)"]
    by (simp_all add: identity_def key_of_def)
qed

lemma after_status_identity [simp]: "identity (after_status V n x) = identity x"
  by (simp add: identity_def after_status_def)

lemma status_only_refl [simp]: "status_only k st st"
  by (simp add: status_only_def)

lemma status_only_trans: "status_only k st st1 \<Longrightarrow> status_only k st1 st2 \<Longrightarrow> status_only k st st2"
  by (simp add: status_only_def same_spec_def)

lemma status_only_wf: "status_only k st st' \<Longrightarrow> wf_store st \<Longrightarrow> wf_store st'"
  unfolding wf_store_def status_only_def same_spec_def
  by (metis (no_types, lifting) identity_fields(4) map_option_eq_Some)

section \<open>What the operations do to the store\<close>

text \<open>
  The effect of a piece of the reconciler on every store that serves it, as a frame: in a store with the
  resources under their names it leaves all but the status of one resource alone.
\<close>

definition effect :: "server \<Rightarrow> string \<times> string \<Rightarrow> ('w, 'z) host_scheme \<Rightarrow> ('w, 'z) host_scheme \<Rightarrow> bool" where
  "effect V k s s' \<longleftrightarrow> (\<exists>as. trace s' = trace s @ as \<and>
     (\<forall>st st'. wf_store st \<longrightarrow> serve V as st = Some st' \<longrightarrow> status_only k st st'))"

lemma effect_trans: "effect V k s t \<Longrightarrow> effect V k t u \<Longrightarrow> effect V k s u"
proof -
  assume "effect V k s t" "effect V k t u"
  then obtain as bs where t: "trace u = trace s @ as @ bs"
    and as: "\<And>st st'. wf_store st \<Longrightarrow> serve V as st = Some st' \<Longrightarrow> status_only k st st'"
    and bs: "\<And>st st'. wf_store st \<Longrightarrow> serve V bs st = Some st' \<Longrightarrow> status_only k st st'"
    unfolding effect_def by auto
  have "status_only k st st'" if wf: "wf_store st" and all: "serve V (as @ bs) st = Some st'" for st st'
    using all
  proof (rule serve_appendE)
    fix st1 assume 1: "serve V as st = Some st1" "serve V bs st1 = Some st'"
    have "status_only k st st1" by (rule as [OF wf 1(1)])
    moreover from this have "status_only k st1 st'" by (rule bs [OF status_only_wf 1(2)]) (rule wf)
    ultimately show ?thesis by (rule status_only_trans)
  qed
  with t show ?thesis unfolding effect_def by blast
qed

lemma effect_none: "trace s' = trace s \<Longrightarrow> effect V k s s'"
  unfolding effect_def by (rule exI [of _ "[]"]) auto

text \<open>A call that is not an accepted write has no effect.\<close>

fun no_write :: "action \<Rightarrow> bool" where
  "no_write (AUpdateNATS n None) = False"
| "no_write (AUpdateStatus n None) = False"
| "no_write _ = True"

lemma serve1_no_write: "no_write a \<Longrightarrow> serve1 V a st = Some st' \<Longrightarrow> st' = st"
  by (induction V a st rule: serve1.induct) (auto split: if_splits)

lemma serve_no_write: "list_all no_write as \<Longrightarrow> serve V as st = Some st' \<Longrightarrow> st' = st"
  by (induction as arbitrary: st) (auto split: option.splits dest: serve1_no_write)

lemma serve_skip: "list_all no_write as \<Longrightarrow> serve V (as @ bs) st = Some st' \<Longrightarrow> serve V bs st = Some st'"
  by (erule serve_appendE) (auto dest: serve_no_write)

text \<open>A call that every store serves and that changes none.\<close>

fun uncontested :: "action \<Rightarrow> bool" where
  "uncontested (AGetNATS name ns (Inr n)) = False"
| "uncontested a = no_write a"

lemma uncontested_no_write: "uncontested a \<Longrightarrow> no_write a"
  by (cases a rule: uncontested.cases) simp_all

lemma serve_uncontested: "list_all uncontested as \<Longrightarrow> serve V (as @ bs) st = serve V bs st"
proof (induction as)
  case (Cons a as)
  moreover from Cons.prems have "serve1 V a st = Some st" by (cases "(V, a, st)" rule: serve1.cases) auto
  ultimately show ?case by simp
qed simp

lemma effect_call: "no_write a \<Longrightarrow> trace s' = trace s @ [a] \<Longrightarrow> effect V k s s'"
  unfolding effect_def
  by (rule exI [of _ "[a]"]) (auto dest: serve1_no_write split: option.splits)

text \<open>Syncing the status writes it to the resource that was read, which is the one asked for.\<close>

lemma sync_serve:
  assumes wf: "wf_store st" and k: "key_of n = k"
    and serve: "serve V [AGetNATS (nName n) (nNamespace n) (Inr actual), AUpdateStatus (actual\<lparr>nStatus := x\<rparr>) e] st = Some st'"
  shows "status_only k st st'"
proof -
  obtain y where y: "st k = Some y" "actual = seen y"
    using serve k by (auto simp: key_of_def split: if_splits)
  then have key: "key_of (actual\<lparr>nStatus := x\<rparr>) = k"
    by (simp add: wf_key [OF wf])
  show ?thesis
  proof (cases e)
    case None
    with serve y key show ?thesis
      by (auto simp: status_only_def same_spec_def split: if_splits)
  next
    case (Some e')
    with serve show ?thesis by (auto split: if_splits)
  qed
qed

lemma sync_effect:
  assumes "key_of nats = k"
  shows "state_io_rel (effect V k) (syncNATSStatus L nats :: (('w, 'z) host_scheme, _) state)"
proof (rule state_io_relI)
  fix s s' :: "('w, 'z) host_scheme" and r
  assume run: "run_state (syncNATSStatus L nats) s = (r, s')"
  obtain x w where get: "api_get_nats (kapi L) (nName nats) (nNamespace nats) (world s) = (x, w)" by force
  let ?read = "AGetNATS (nName nats) (nNamespace nats) x"
  show "effect V k s s'"
  proof (cases "\<exists>actual. x = Inr actual \<and> \<not> IsEqual (nStatus actual) (nStatus nats)")
    case True
    then obtain actual where x: "x = Inr actual" and ne: "\<not> IsEqual (nStatus actual) (nStatus nats)" by blast
    obtain e where "trace s' = trace s @ [?read, AUpdateStatus (actual\<lparr>nStatus := nStatus nats\<rparr>) e]"
      using run ne x get by (auto simp: syncNATSStatus_def updateStatus_def clientGetNATS_def
          clientUpdateStatus_def Let_def split: prod.splits option.splits)
    then show ?thesis
      using sync_serve [OF _ assms] unfolding effect_def x by blast
  next
    case False
    then have "trace s' = trace s @ [?read]"
      using run get by (cases x) (auto simp: syncNATSStatus_def updateStatus_def clientGetNATS_def Let_def)
    then show ?thesis by (rule effect_call [rotated]) simp
  qed
qed

interpretation served: rec_frame "effect V k :: ('w, 'z) reconciler_scheme \<Rightarrow> _" L no_write "\<lambda>n. key_of n = k" True
  for V k and L :: "'w libs"
proof
  show "effect V k s s" for s :: "('w, 'z) reconciler_scheme" by (rule effect_none) simp
  show "effect V k s u" if "effect V k s t" "effect V k t u" for s t u :: "('w, 'z) reconciler_scheme"
    using that by (rule effect_trans)
  show "state_io_rel (effect V k) (syncNATSStatus L nats :: ('w, 'z, _) rec_m)" if "key_of nats = k" for nats
    using that by (rule sync_effect)
  show "effect V k s (s\<lparr>world := w, trace := trace s @ [a]\<rparr>)" if "no_write a" for s :: "('w, 'z) reconciler_scheme" and w a
    by (rule effect_call [OF that]) simp
  show "effect V k s (s\<lparr>world := w, trace := trace s @
      [AWatch DestinationRuleKind DestinationRuleAPIVersion managed_by_selector None], destinationRuleWatchStarted := True\<rparr>)"
    for s :: "('w, 'z) reconciler_scheme" and w
    by (rule effect_call [where a = "AWatch DestinationRuleKind DestinationRuleAPIVersion managed_by_selector None"]) simp_all
qed (simp_all add: effect_none)


lemma effect_served:
  assumes "state_io_rel (effect V k) m" "wf_store st" "serve V (new_actions m s) st = Some st'"
  shows "status_only k st st'"
proof -
  obtain r s' where run: "run_state m s = (r, s')" by force
  from state_io_relD [OF assms(1) this] show ?thesis
    using assms(2,3) run by (auto simp: effect_def new_actions_def)
qed

section \<open>The paths of a reconciliation\<close>

text \<open>An action on the data of the cluster: the objects of the release and the volume claims.\<close>

fun touches_data :: "action \<Rightarrow> bool" where
  "touches_data (APatchApply object force manager e) = True"
| "touches_data (ADeletePVC pvc e) = True"
| "touches_data (ADeleteObject object e) = True"
| "touches_data _ = False"

lemma managed_effect:
  assumes "containsFinalizer (meta L) nats" "key_of nats = k"
  shows "state_io_rel (effect V k) (handleNATSReconcile L C nats :: ('w, 'z, _) rec_m)"
proof -
  have "key_of (nats\<lparr>nStatus := x\<rparr>) = k" for x using assms(2) by simp
  then show ?thesis
    unfolding reconcile_split [OF assms(1)] provision_head_def
    by (intro served.fr served.metric_ops served.cloud_provider served.status_ops served.event_ops served.init_instance
        served.deploy served.start_watch served.fail_provisioning served.handle_state)
      (auto elim: status_action.elims observe_action.elims render_action.elims)
qed

lemma forbidden_effect:
  assumes "key_of nats = k"
  shows "state_io_rel (effect V k) (handleNATSCRAllowedCheck L allowed nats :: ('w, 'z, _) rec_m)"
proof -
  have "key_of (nats\<lparr>nStatus := x\<rparr>) = k" for x using assms by simp
  then show ?thesis
    unfolding handleNATSCRAllowedCheck_def bind_left_identity
    by (intro served.fr served.status_ops served.event_ops served.sync_status; simp)
qed

lemma block_effect:
  assumes "key_of nats = k"
  shows "state_io_rel (effect V k) (block_deletion L nats msg :: ('w, 'z, _) rec_m)"
proof -
  have "key_of (nats\<lparr>nStatus := x\<rparr>) = k" for x using assms by simp
  then show ?thesis by (intro served.block) (auto elim: status_action.elims)
qed

text \<open>Adding the finalizer is the only write of a run without it.\<close>

definition finalized :: "'w libs \<Rightarrow> NATS \<Rightarrow> NATS" where
  "finalized L nats = nats\<lparr>nFinalizers := add_finalizer_to (meta L) (nFinalizers nats) NATSFinalizerName\<rparr>"

lemma fresh_run:
  fixes s :: "('w, 'z) reconciler_scheme"
  assumes "\<not> containsFinalizer (meta L) nats"
  shows "\<exists>pre x e. new_actions (handleNATSReconcile L C nats) s = pre @ [AUpdateNATS (finalized L (nats\<lparr>nStatus := x\<rparr>)) e] \<and>
    list_all (\<lambda>a. uncontested a \<and> \<not> touches_data a) pre \<and>
    fst (run_state (handleNATSReconcile L C nats) s) = Returned (emptyResult, e) \<and>
    (\<exists>n w. fst (api_update_nats (kapi L) n w) = e)"
proof -
  let ?P = "\<lambda>a. uncontested a \<and> \<not> touches_data a"
  obtain x t where head: "run_state (provision_head L nats) s = (x, t)" by force
  have "state_io_rel (emits ?P) (provision_head L nats :: ('w, 'z, _) rec_m)"
    unfolding provision_head_def
    by (intro emit_rec.fr emit_rec.metric_ops emit_rec.cloud_provider emit_rec.status_ops emit_rec.event_ops) simp_all
  then obtain pre where pre: "trace t = trace s @ pre" "list_all ?P pre"
    using head by (fastforce dest: state_io_relD simp: emits_def)
  have "handleNATSReconcile L C nats = provision_head L nats \<bind>
      (\<lambda>x. addFinalizer L (nats\<lparr>nStatus := x\<rparr>) \<bind> (\<lambda>r. ret (Returned r)))"
    using assms by (simp add: handleNATSReconcile_def provision_head_def containsFinalizer_def)
  note run = arg_cong [OF this, of "\<lambda>m. run_state m s", unfolded run_bind [OF head]]
  obtain e w where e: "api_update_nats (kapi L) (finalized L (nats\<lparr>nStatus := x\<rparr>)) (world t) = (e, w)" by force
  have "\<exists>n w. fst (api_update_nats (kapi L) n w) = e" using e by (metis fst_conv)
  then show ?thesis
    by (intro exI [of _ pre] exI [of _ x] exI [of _ e])
      (use pre e in \<open>cases e; simp add: new_actions_def run addFinalizer_def clientUpdateNATS_def finalized_def\<close>)
qed

text \<open>A reconciliation reads the resource and goes one of three ways.\<close>

lemma reconcile_paths:
  fixes s :: "('w, 'z) reconciler_scheme"
  obtains (unread) e where "new_actions (Reconcile L C name ns) s = [AGetNATS name ns (Inl e)]"
    | (deletion) nats as and s1 :: "('w, 'z) reconciler_scheme" where "IsInDeletion (meta L) nats" "as = new_actions (handleNATSDeletion L nats) s1"
        "new_actions (Reconcile L C name ns) s = AGetNATS name ns (Inr nats) # as"
    | (forbidden) nats a as and s1 :: "('w, 'z) reconciler_scheme" where "\<not> IsInDeletion (meta L) nats"
        "as = new_actions (handleNATSCRAllowedCheck L a nats) s1" "list_all status_action as"
        "new_actions (Reconcile L C name ns) s = AGetNATS name ns (Inr nats) # as"
    | (provision) nats as and s1 :: "('w, 'z) reconciler_scheme" where "\<not> IsInDeletion (meta L) nats" "as = new_actions (handleNATSReconcile L C nats) s1"
        "new_actions (Reconcile L C name ns) s = AGetNATS name ns (Inr nats) # as"
proof -
  obtain out s' where run: "run_state (Reconcile L C name ns) s = (out, s')" by force
  then show thesis
  proof (cases rule: Reconcile_run)
    case (absent err)
    then show thesis using unread by blast
  next
    case (found nats w s1)
    have t1: "trace s1 = trace s @ [AGetNATS name ns (Inr nats)]" using found(2) by simp
    have any: "state_io_rel (emits (\<lambda>_. True)) (handleNATSDeletion L nats :: ('w, 'z, _) rec_m)"
      "state_io_rel (emits (\<lambda>_. True)) (handleNATSReconcile L C nats :: ('w, 'z, _) rec_m)"
      by (rule emit_rec.handle_deletion emit_rec.handle_reconcile; simp)+
    have same: "as = new_actions m s1" if "run_state m s1 = (r, s')" "trace s' = trace s1 @ as" for m r as
      using new_actions_eq [OF that] by simp
    consider (1) "IsInDeletion (meta L) nats" "run_state (handleNATSDeletion L nats) s1 = (out, s')"
      | (2) a x where "\<not> IsInDeletion (meta L) nats" "emits status_action s1 s'"
          "run_state (handleNATSCRAllowedCheck L a nats) s1 = (x, s')"
      | (3) "\<not> IsInDeletion (meta L) nats" "run_state (handleNATSReconcile L C nats) s1 = (out, s')"
      using found(3) by (auto split: if_splits)
    then show thesis
    proof cases
      case 1
      from run t1 state_io_relD [OF any(1) 1(2)] show thesis by (rule new_after) (rule deletion [OF 1(1) same [OF 1(2)]])
    next
      case 2
      from run t1 2(2) show thesis by (rule new_after) (rule forbidden [OF 2(1) same [OF 2(3)]])
    next
      case 3
      from run t1 state_io_relD [OF any(2) 3(2)] show thesis by (rule new_after) (rule provision [OF 3(1) same [OF 3(2)]])
    qed
  qed
qed


section \<open>The life of a resource\<close>

text \<open>
  The abstract view of the controller: a resource is adopted by the finalizer before anything is done for
  it, then managed, and once it is in deletion released, when its data may go and has gone.
\<close>

datatype phase = Absent | Fresh | Managed | Terminating

definition phase_of :: "meta_lib \<Rightarrow> stored option \<Rightarrow> phase" where
  "phase_of M x = (case x of None \<Rightarrow> Absent
     | Some z \<Rightarrow> if IsInDeletion M (fst z) then Terminating
         else if containsFinalizer M (fst z) then Managed else Fresh)"

definition adopted :: "server \<Rightarrow> 'w libs \<Rightarrow> stored \<Rightarrow> stored option" where
  "adopted V L z = after_update V (finalized L (seen z)) z"

definition released :: "server \<Rightarrow> 'w libs \<Rightarrow> stored \<Rightarrow> stored option" where
  "released V L z = after_update V (unfinalized L (seen z)) z"

definition harmless_verdict :: "action list \<Rightarrow> bool" where
  "harmless_verdict as \<longleftrightarrow> (\<exists>k v held. inquiry k (probes as) = Some (v, held) \<and>
     v \<in> {ServerUnreachable, StreamsUnreadable, NothingToLose})"

text \<open>The claims of the resource were listed and deleted, and the update was the last call.\<close>

definition claims_gone :: "NATS \<Rightarrow> action list \<Rightarrow> bool" where
  "claims_gone nats as \<longleftrightarrow> (\<exists>pre items cl n. as = pre @
     AListPVCs (nNamespace nats) (ParsedSelector (pvcSelector nats)) (Inr items) #
     map (\<lambda>p. ADeletePVC p None) (own_claims nats items) @ cl @ [AUpdateNATS n None])"

fun applies :: "action \<Rightarrow> bool" where
  "applies (APatchApply object force manager e) = True"
| "applies _ = False"

inductive lifecycle_step :: "server \<Rightarrow> 'w libs \<Rightarrow> action list \<Rightarrow> stored option \<Rightarrow> stored option \<Rightarrow> bool"
  for V :: server and L :: "'w libs" where
  unread: "lifecycle_step V L [AGetNATS name ns (Inl e)] x x"
| wait: "phase_of (meta L) (Some z) = Fresh \<Longrightarrow> list_all (\<lambda>a. \<not> touches_data a) as \<Longrightarrow> same_spec (Some z) y \<Longrightarrow>
    lifecycle_step V L as (Some z) y"
| adopt: "phase_of (meta L) (Some z) = Fresh \<Longrightarrow> list_all (\<lambda>a. \<not> touches_data a) as \<Longrightarrow>
    survives (svCanonical V) (svNonzero V) (snd z) \<Longrightarrow> lifecycle_step V L as (Some z) (adopted V L z)"
| manage: "phase_of (meta L) (Some z) = Managed \<Longrightarrow> list_all (\<lambda>a. \<not> destructive a) as \<Longrightarrow> same_spec (Some z) y \<Longrightarrow>
    lifecycle_step V L as (Some z) y"
| terminate: "phase_of (meta L) (Some z) = Terminating \<Longrightarrow> list_all (\<lambda>a. \<not> applies a) as \<Longrightarrow>
    (list_ex destructive as \<longrightarrow> harmless_verdict as) \<Longrightarrow> same_spec (Some z) y \<Longrightarrow> lifecycle_step V L as (Some z) y"
| release: "phase_of (meta L) (Some z) = Terminating \<Longrightarrow> list_all (\<lambda>a. \<not> applies a) as \<Longrightarrow>
    harmless_verdict as \<Longrightarrow> claims_gone (fst z) as \<Longrightarrow> lifecycle_step V L as (Some z) (released V L z)"

text \<open>The server only holds specifications that it admitted.\<close>

definition admitted_store :: "server \<Rightarrow> store \<Rightarrow> bool" where
  "admitted_store V st \<longleftrightarrow> wf_store st \<and>
     (\<forall>k z. st k = Some z \<longrightarrow> (\<exists>d0. spec_history (svNonzero V) d0 (snd z)))"

lemma after_update_ignores [simp]:
  "after_update V (n\<lparr>nStatus := x\<rparr>) z = after_update V n z"
  "accepts V (n\<lparr>nStatus := x\<rparr>) z = accepts V n z"
  by (simp_all add: after_update_def accepts_def)

lemma delete_claims_no_write:
  "state_io_rel (emits no_write) (DeletePVCsWithLabel L l p ns :: (('w, 'z) host_scheme, _) state)"
  unfolding DeletePVCsWithLabel_def clientListPVCs_def clientDeletePVC_def
  by (intro emit_frame.f_rules(1-10) emits_call; simp)

text \<open>What carrying out a verdict does to the store.\<close>

lemma carry_out_store:
  fixes t :: "('w, 'z) reconciler_scheme"
  assumes "run_state (carry_out L (deleting nats) v) t = (x, s')" and as: "trace s' = trace t @ as" and k: "key_of nats = k"
  obtains (blocked) "list_all (\<lambda>a. \<not> destructive a) as"
      "\<And>V st st'. wf_store st \<Longrightarrow> serve V as st = Some st' \<Longrightarrow> status_only k st st'"
    | (kept) "v \<in> {ServerUnreachable, StreamsUnreadable, NothingToLose}" "list_all no_write as"
    | (gone) items cl where "v \<in> {ServerUnreachable, StreamsUnreadable, NothingToLose}"
      "as = AListPVCs (nNamespace nats) (ParsedSelector (pvcSelector nats)) (Inr items) #
        map (\<lambda>p. ADeletePVC p None) (own_claims nats items) @ cl @ [AUpdateNATS (unfinalized L (deleting nats)) None]"
      "list_all (\<lambda>a. \<exists>c. a = AConnClose c) cl"
proof (cases "v = CustomerStreamFound \<or> v = SapConsumerFound")
  case True
  have key: "key_of (deleting nats) = k" using k by (simp add: deleting_def)
  have "state_io_rel (effect V k) (carry_out L (deleting nats) v :: ('w, 'z, _) rec_m)" for V
    using True block_effect [OF key] by (auto simp: carry_out_def)
  from effect_served [OF this] show thesis
    using blocked [OF blocked_not_destructive [OF True assms(1,2)]] new_actions_eq [OF assms(1,2)] by metis
next
  case False
  then have v: "v \<in> {ServerUnreachable, StreamsUnreadable, NothingToLose}" by (cases v) auto
  then have "run_state (deletePVCsAndRemoveFinalizer L (deleting nats)) t = (x, s')"
    using assms(1) by (auto simp: carry_out_def)
  from remove_run [OF this] show thesis
  proof (elim disjE exE conjE)
    let ?cl = "case Option.bind (client_of t (deleting nats)) ncConn of None \<Rightarrow> [] | Some c \<Rightarrow> [AConnClose c]"
    fix items e assume "trace s' = trace t @ AListPVCs (nNamespace (deleting nats)) (ParsedSelector (pvcSelector (deleting nats))) (Inr items) #
        map (\<lambda>p. ADeletePVC p None) (own_claims (deleting nats) items) @ ?cl @ [AUpdateNATS (unfinalized L (deleting nats)) e]"
    moreover have cl: "list_all (\<lambda>a. \<exists>c. a = AConnClose c) ?cl" by (simp split: option.split)
    ultimately have eq: "as = AListPVCs (nNamespace nats) (ParsedSelector (pvcSelector nats)) (Inr items) #
        map (\<lambda>p. ADeletePVC p None) (own_claims nats items) @ ?cl @ [AUpdateNATS (unfinalized L (deleting nats)) e]"
      using as by simp
    show thesis
    proof (cases e)
      case None
      with eq cl v show thesis by (intro gone [of items ?cl]) simp_all
    next
      case (Some e')
      have "list_all no_write ?cl" using cl by (auto elim!: list.pred_mono_strong)
      with Some eq show thesis by (intro kept [OF v]) (auto simp: list_all_iff)
    qed
  next
    fix err
    assume "run_state (DeletePVCsWithLabel L (pvcSelector (deleting nats)) (nName (deleting nats)) (nNamespace (deleting nats))) t = (Some err, s')"
    from state_io_relD [OF delete_claims_no_write this] show thesis using as by (intro kept [OF v]) (simp add: emits_def)
  qed
qed

lemma deletion_step:
  fixes s1 :: "('w, 'z) reconciler_scheme"
  assumes wf: "wf_store st" and z: "st k = Some z" and del: "IsInDeletion (meta L) (fst z)"
    and serve: "serve V (new_actions (handleNATSDeletion L (seen z)) s1) st = Some st'"
  shows "(\<forall>k'. k' \<noteq> k \<longrightarrow> st' k' = st k') \<and>
    lifecycle_step V L (AGetNATS name ns (Inr (seen z)) # new_actions (handleNATSDeletion L (seen z)) s1) (Some z) (st' k)"
    (is "_ \<and> lifecycle_step V L (?get # ?acts) _ _")
proof -
  have phase: "phase_of (meta L) (Some z) = Terminating" using del by (simp add: phase_of_def)
  have key: "key_of (seen z) = k" using wf_key [OF wf z] by simp
  show ?thesis
  proof (cases "containsFinalizer (meta L) (seen z)")
    case False
    note acts = no_finalizer_run(2) [OF False, of s1]
    then have "st' = st" using serve_no_write [OF _ serve] by simp
    moreover have "lifecycle_step V L (?get # ?acts) (Some z) (Some z)"
      by (rule lifecycle_step.terminate [OF phase]) (simp_all add: acts)
    ultimately show ?thesis using z by simp
  next
    case True
    obtain out s' where run: "run_state (handleNATSDeletion L (seen z)) s1 = (out, s')" by force
    from True run show ?thesis
    proof (rule deletion_run)
      fix reads v held kc t x as
      assume r: "list_all probe_action reads" and c: "run_state (carry_out L (deleting (seen z)) v) t = (x, s')"
        and i: "inquiry (client_for s1 (seen z)) reads = Some (v, held)"
        and as: "trace s' = trace t @ as" and sr: "list_all (\<lambda>a. status_action a \<or> remove_action L (seen z) a) as"
        and pr: "probes ?acts = reads"
        and acts: "?acts = deletion_prelude @ reads @ as"
      have pre: "list_all no_write (deletion_prelude @ reads)" "list_all (\<lambda>a. \<not> applies a) (deletion_prelude @ reads)"
        using r by (auto simp: deletion_prelude_def elim!: list.pred_mono_strong elim: probe_action.elims)
      have serve: "serve V as st = Some st'"
        using serve unfolding acts append_assoc [symmetric] by (rule serve_skip [OF pre(1)])
      have quiet: "list_all (\<lambda>a. \<not> applies a) (?get # ?acts)"
        using pre(2) sr by (auto simp: acts remove_action_def elim!: list.pred_mono_strong elim: status_action.elims)
      have safe: "harmless_verdict (?get # ?acts)"
        if "v \<in> {ServerUnreachable, StreamsUnreadable, NothingToLose}"
      proof -
        have "probes (?get # ?acts) = reads" using pr by (simp add: probes_def)
        then show ?thesis unfolding harmless_verdict_def using that i by blast
      qed
      from c as key show ?thesis
      proof (cases rule: carry_out_store)
        case blocked
        have "status_only k st st'" by (rule blocked(2) [OF wf serve])
        moreover have "list_all (\<lambda>a. \<not> destructive a) ?acts"
          using blocked(1) probes_not_destructive [OF r] by (simp add: acts deletion_prelude_def)
        then have "\<not> list_ex destructive (?get # ?acts)" by (simp add: list_ex_iff list_all_iff)
        ultimately show ?thesis
          using lifecycle_step.terminate [OF phase quiet] z by (simp add: status_only_def)
      next
        case kept
        then show ?thesis
          using lifecycle_step.terminate [OF phase quiet _ same_spec_refl] safe z serve_no_write [OF _ serve] by simp
      next
        case (gone items cl)
        have "list_all no_write (AListPVCs (nNamespace (seen z)) (ParsedSelector (pvcSelector (seen z))) (Inr items) #
            map (\<lambda>p. ADeletePVC p None) (own_claims (seen z) items) @ cl)"
          using gone(3) by (auto simp: list_all_iff)
        then have "serve V [AUpdateNATS (unfinalized L (deleting (seen z))) None] st = Some st'"
          by (rule serve_skip) (use serve gone(2) in simp)
        moreover have "key_of (unfinalized L (deleting (seen z))) = k"
          using key by (simp add: unfinalized_def deleting_def)
        moreover have "after_update V (unfinalized L (deleting (seen z))) z = released V L z"
          by (simp add: released_def unfinalized_def deleting_def after_update_def)
        ultimately have "st' = st(k := released V L z)"
          using z serve1_update [of V _ st st' z] unfolding serve_last by metis
        moreover have "claims_gone (fst z) (?get # ?acts)"
          unfolding claims_gone_def acts gone(2)
          by (rule exI [of _ "?get # deletion_prelude @ reads"], rule exI [of _ items], rule exI [of _ cl])
            (simp add: pvcSelector_def own_claims_def)
        ultimately show ?thesis
          using lifecycle_step.release [OF phase quiet safe [OF gone(1)]] by simp
      qed
    qed
  qed
qed

text \<open>Accepted writes keep the store admitted.\<close>

lemma after_update_key: "after_update V n z = Some y \<Longrightarrow> key_of (fst y) = key_of (fst z)"
  by (auto simp: after_update_def key_of_def split: if_splits)

lemma serve1_admitted:
  assumes "admitted_store V st" "serve1 V a st = Some st'"
  shows "admitted_store V st'"
proof (cases "no_write a")
  case True
  with assms serve1_no_write show ?thesis by blast
next
  case False
  then consider n where "a = AUpdateNATS n None" | n where "a = AUpdateStatus n None"
    by (cases a rule: no_write.cases) auto
  then show ?thesis
  proof cases
    case 1
    with assms(2) obtain z where z: "st (key_of n) = Some z" by (auto split: option.splits)
    with serve1_update assms(2) 1 have n: "accepts V n z" "st' = st(key_of n := after_update V n z)" by blast+
    obtain d0 where "spec_history (svNonzero V) d0 (snd z)" using assms(1) z unfolding admitted_store_def by blast
    then have "spec_history (svNonzero V) d0 (as_stored (svCanonical V) (nSpec n))"
      by (rule spec_history.updated [OF _ as_stored_def]) (use n(1) in \<open>simp add: accepts_def\<close>)
    moreover have "snd y = as_stored (svCanonical V) (nSpec n)" "key_of (fst y) = key_of n" if "after_update V n z = Some y" for y
      using that wf_key [of st "key_of n" z] z assms(1) after_update_key [OF that]
      by (auto simp: admitted_store_def after_update_def split: if_splits)
    ultimately show ?thesis
      using assms(1) unfolding n(2) admitted_store_def wf_store_def by (metis fun_upd_apply)
  next
    case 2
    with assms(2) obtain z where z: "st (key_of n) = Some z" "st' = st(key_of n \<mapsto> after_status V n z)"
      by (auto split: option.splits if_splits)
    have "snd (after_status V n z) = snd z" "key_of (fst (after_status V n z)) = key_of (fst z)"
      by (simp_all add: after_status_def key_of_def)
    with assms(1) z(1) show ?thesis
      unfolding z(2) admitted_store_def wf_store_def by (metis fun_upd_apply option.sel)
  qed
qed

lemma serve_admitted: "admitted_store V st \<Longrightarrow> serve V as st = Some st' \<Longrightarrow> admitted_store V st'"
  by (induction as arbitrary: st) (auto split: option.splits intro: serve1_admitted)

text \<open>A run with the finalizer deletes nothing and writes no resource.\<close>

lemma managed_keeps:
  fixes s :: "('w, 'z) reconciler_scheme"
  assumes "containsFinalizer (meta L) nats"
  shows "list_all (\<lambda>a. \<not> destructive a) (new_actions (handleNATSReconcile L C nats) s)"
  unfolding reconcile_split [OF assms] provision_head_def
  by (rule emits_new_actions, intro emit_rec.fr emit_rec.metric_ops emit_rec.cloud_provider emit_rec.status_ops
      emit_rec.event_ops emit_rec.init_instance emit_rec.deploy emit_rec.start_watch emit_rec.fail_provisioning
      emit_rec.handle_state)
    (auto elim: status_action.elims observe_action.elims render_action.elims)

lemma status_not_destructive: "status_action a \<Longrightarrow> \<not> destructive a \<and> \<not> touches_data a \<and> \<not> applies a"
  by (cases a) simp_all

text \<open>The update that adds the finalizer, when the server takes it.\<close>

lemma adopt_write:
  assumes st: "admitted_store V st" and z: "st k = Some z"
    and serve: "serve1 V (AUpdateNATS (finalized L ((seen z)\<lparr>nStatus := x\<rparr>)) None) st = Some st'"
  shows "survives (svCanonical V) (svNonzero V) (snd z) \<and> st' = st(k := adopted V L z)"
proof -
  have key: "key_of (finalized L ((seen z)\<lparr>nStatus := x\<rparr>)) = k"
    using wf_key [of st k z] st z by (simp add: admitted_store_def finalized_def key_of_def)
  have eqs: "after_update V (finalized L ((seen z)\<lparr>nStatus := x\<rparr>)) z = adopted V L z"
    "accepts V (finalized L ((seen z)\<lparr>nStatus := x\<rparr>)) z \<longleftrightarrow>
      update_valid (svNonzero V) (snd z) (as_stored (svCanonical V) (unmarshal_spec (snd z)))"
    by (simp_all add: adopted_def finalized_def after_update_def accepts_def)
  from serve1_update [OF serve, unfolded key, OF z] have "accepts V (finalized L ((seen z)\<lparr>nStatus := x\<rparr>)) z"
    "st' = st(k := adopted V L z)" by (simp_all add: eqs(1))
  moreover obtain d0 where "spec_history (svNonzero V) d0 (snd z)" using st z unfolding admitted_store_def by blast
  ultimately show ?thesis using stored_valid eqs(2) by blast
qed

lemma provision_step:
  fixes s1 :: "('w, 'z) reconciler_scheme"
  assumes st: "admitted_store V st" and z: "st k = Some z" and alive: "\<not> IsInDeletion (meta L) (fst z)"
    and serve: "serve V (new_actions (handleNATSReconcile L C (seen z)) s1) st = Some st'"
  shows "(\<forall>k'. k' \<noteq> k \<longrightarrow> st' k' = st k') \<and>
    lifecycle_step V L (AGetNATS name ns (Inr (seen z)) # new_actions (handleNATSReconcile L C (seen z)) s1) (Some z) (st' k)"
    (is "_ \<and> lifecycle_step V L (?get # ?acts) _ _")
proof -
  have wf: "wf_store st" using st by (simp add: admitted_store_def)
  have key: "key_of (seen z) = k" using wf_key [OF wf z] by simp
  have fin: "containsFinalizer (meta L) (seen z) = containsFinalizer (meta L) (fst z)" by (simp add: containsFinalizer_def)
  show ?thesis
  proof (cases "containsFinalizer (meta L) (seen z)")
    case True
    then have phase: "phase_of (meta L) (Some z) = Managed" using alive fin by (simp add: phase_of_def)
    have "status_only k st st'" by (rule effect_served [OF managed_effect [OF True key] wf serve])
    moreover have "list_all (\<lambda>a. \<not> destructive a) ?acts" by (rule managed_keeps [OF True])
    ultimately show ?thesis
      using lifecycle_step.manage [OF phase, of "?get # ?acts"] z by (simp add: status_only_def)
  next
    case False
    then have phase: "phase_of (meta L) (Some z) = Fresh" using alive fin by (simp add: phase_of_def)
    from fresh_run [OF False, of C s1] obtain pre x e where
      acts: "?acts = pre @ [AUpdateNATS (finalized L ((seen z)\<lparr>nStatus := x\<rparr>)) e]"
      and pre: "list_all (\<lambda>a. uncontested a \<and> \<not> touches_data a) pre" by blast
    have quiet: "list_all (\<lambda>a. \<not> touches_data a) (?get # ?acts)"
      using pre by (auto simp: acts list_all_iff)
    have "list_all uncontested pre" using pre by (simp add: list_all_iff)
    then have "serve V [AUpdateNATS (finalized L ((seen z)\<lparr>nStatus := x\<rparr>)) e] st = Some st'"
      using serve by (simp add: acts serve_uncontested)
    then have last: "serve1 V (AUpdateNATS (finalized L ((seen z)\<lparr>nStatus := x\<rparr>)) e) st = Some st'"
      unfolding serve_last .
    show ?thesis
    proof (cases e)
      case (Some e')
      then have "st' = st" using serve1_no_write [OF _ last] by simp
      then show ?thesis using lifecycle_step.wait [OF phase quiet] z by simp
    next
      case None
      from adopt_write [OF st z last [unfolded None]] show ?thesis
        using lifecycle_step.adopt [OF phase quiet] by simp
    qed
  qed
qed

text \<open>A resource that is not allowed only gets a status.\<close>

lemma forbidden_step:
  assumes "\<not> IsInDeletion (meta L) (fst z)" "list_all status_action as" "same_spec (Some z) y"
  shows "lifecycle_step V L (AGetNATS name ns r # as) (Some z) y"
proof -
  have "list_all (\<lambda>a. \<not> destructive a) (AGetNATS name ns r # as)" "list_all (\<lambda>a. \<not> touches_data a) (AGetNATS name ns r # as)"
    using assms(2) status_not_destructive by (auto simp: list_all_iff)
  moreover have "phase_of (meta L) (Some z) = (if containsFinalizer (meta L) (fst z) then Managed else Fresh)"
    using assms(1) by (simp add: phase_of_def)
  ultimately show ?thesis
    using lifecycle_step.wait [OF _ _ assms(3)] lifecycle_step.manage [OF _ _ assms(3)] by metis
qed

lemma lifecycle_sound:
  fixes s :: "('w, 'z) reconciler_scheme"
  assumes st: "admitted_store V st" and serve: "serve V (new_actions (Reconcile L C name ns) s) st = Some st'"
  shows "admitted_store V st' \<and> (\<forall>k. k \<noteq> (ns, name) \<longrightarrow> st' k = st k) \<and>
    lifecycle_step V L (new_actions (Reconcile L C name ns) s) (st (ns, name)) (st' (ns, name))"
proof -
  have wf: "wf_store st" using st by (simp add: admitted_store_def)
  have read: "\<exists>z. st (ns, name) = Some z \<and> nats = seen z \<and> serve V as st = Some st'"
    if "new_actions (Reconcile L C name ns) s = AGetNATS name ns (Inr nats) # as" for nats as
    using serve unfolding that by (auto split: if_splits)
  have "(\<forall>k. k \<noteq> (ns, name) \<longrightarrow> st' k = st k) \<and>
    lifecycle_step V L (new_actions (Reconcile L C name ns) s) (st (ns, name)) (st' (ns, name))"
  proof (cases rule: reconcile_paths [of L C name ns s])
    case (unread e)
    with serve show ?thesis by (simp add: lifecycle_step.unread)
  next
    case (deletion nats as s1)
    from read [OF deletion(3)] obtain z where z: "st (ns, name) = Some z" "nats = seen z" "serve V as st = Some st'" by blast
    show ?thesis
      unfolding deletion(2,3) z(1,2)
      by (rule deletion_step [OF wf z(1)]) (use deletion(1,2) z in \<open>simp_all add: IsInDeletion_def\<close>)
  next
    case (forbidden nats a as s1)
    from read [OF forbidden(4)] obtain z where z: "st (ns, name) = Some z" "nats = seen z" "serve V as st = Some st'" by blast
    have "key_of nats = (ns, name)" using wf_key [OF wf z(1)] z(2) by simp
    from effect_served [OF forbidden_effect [OF this] wf] z(3) forbidden(2)
    have only: "status_only (ns, name) st st'" by blast
    have "lifecycle_step V L (AGetNATS name ns (Inr nats) # as) (Some z) (st' (ns, name))"
    proof (rule forbidden_step)
      show "\<not> IsInDeletion (meta L) (fst z)" using forbidden(1) z(2) by (simp add: IsInDeletion_def)
    qed (use forbidden(3) only z(1) in \<open>simp_all add: status_only_def\<close>)
    with only z(1) show ?thesis unfolding forbidden(4) by (simp add: status_only_def)
  next
    case (provision nats as s1)
    from read [OF provision(3)] obtain z where z: "st (ns, name) = Some z" "nats = seen z" "serve V as st = Some st'" by blast
    show ?thesis
      unfolding provision(2,3) z(1,2)
      by (rule provision_step [OF st z(1)]) (use provision(1,2) z in \<open>simp_all add: IsInDeletion_def\<close>)
  qed
  with serve_admitted [OF st serve] show ?thesis by blast
qed

end
