(* ===== verification/StoreRuns.thy ===== *)
theory StoreRuns
  imports ApiServer
begin

text \<open>
  What comes of runs that a store serves: one reconciliation is one step of the life of its resource; a
  resource whose specification the server refuses is never provisioned; and one that it takes is
  provisioned and published by two reconciliations whose calls succeed.
\<close>

section \<open>One reconciliation\<close>

text \<open>
  C2. The reconciliation of a resource, with a store that gives its calls the answers of an API server,
  refines the life of a resource: it leaves every other resource and every specification but its own
  alone, keeps the store within what the server admits, and is one step of its resource. A resource without
  the finalizer is adopted or waits, and no object or claim is touched for it; a managed one keeps its
  specification and finalizers, whatever the run; one in deletion is either kept as it is or
  released, and it is released only when no server or no stream is left that could lose data, after its
  claims were listed and deleted.
\<close>

theorem store_lifecycle:
  fixes s :: "('w, 'z) reconciler_scheme"
  assumes "admitted_store V st" "serve V (new_actions (Reconcile L C name ns) s) st = Some st'"
  shows "admitted_store V st' \<and> (\<forall>k. k \<noteq> (ns, name) \<longrightarrow> st' k = st k) \<and>
    lifecycle_step V L (new_actions (Reconcile L C name ns) s) (st (ns, name)) (st' (ns, name))"
  by (rule lifecycle_sound [OF assms])

section \<open>A specification that the server refuses\<close>

text \<open>A reconciliation that adopts a resource, or fails to.\<close>

lemma fresh_reconcile:
  fixes s :: "('w, 'z) reconciler_scheme"
  assumes get: "api_get_nats (kapi L) name ns (world s) = (Inr nats, w)"
    and alive: "\<not> IsInDeletion (meta L) nats" and fin: "\<not> containsFinalizer (meta L) nats"
    and allowed: "\<And>a. allowedNATSCR C = Some a \<Longrightarrow> nName nats = nName a \<and> nNamespace nats = nNamespace a"
  shows "\<exists>pre x e. new_actions (Reconcile L C name ns) s =
      AGetNATS name ns (Inr nats) # pre @ [AUpdateNATS (finalized L (nats\<lparr>nStatus := x\<rparr>)) e] \<and>
    list_all uncontested pre \<and> fst (run_state (Reconcile L C name ns) s) = Returned (emptyResult, e) \<and>
    (\<exists>n w. fst (api_update_nats (kapi L) n w) = e)"
proof -
  obtain out s' where run: "run_state (Reconcile L C name ns) s = (out, s')" by force
  then show ?thesis
  proof (cases rule: Reconcile_run)
    case (absent err)
    with get show ?thesis by simp
  next
    case (found n w' s1)
    then have n: "n = nats" and go: "run_state (handleNATSReconcile L C nats) s1 = (out, s')"
      using get alive allowed by (auto split: if_splits)
    have t1: "trace s1 = trace s @ [AGetNATS name ns (Inr nats)]" using found(2) n by simp
    from fresh_run [OF fin, of C s1] obtain pre x e where
      acts: "new_actions (handleNATSReconcile L C nats) s1 = pre @ [AUpdateNATS (finalized L (nats\<lparr>nStatus := x\<rparr>)) e]"
      and pre: "list_all (\<lambda>a. uncontested a \<and> \<not> touches_data a) pre"
      and out: "fst (run_state (handleNATSReconcile L C nats) s1) = Returned (emptyResult, e)"
      and e: "\<exists>n w. fst (api_update_nats (kapi L) n w) = e" by blast
    have pre: "list_all uncontested pre" using pre by (simp add: list_all_iff)
    have "state_io_rel (emits (\<lambda>_. True)) (handleNATSReconcile L C nats :: ('w, 'z, _) rec_m)"
      by (rule emit_rec.handle_reconcile; simp)
    from run t1 state_io_relD [OF this go] show ?thesis
      by (rule new_after) (use acts pre out e run go in \<open>auto simp: new_actions_def\<close>)
  qed
qed

text \<open>
  The reconciler and the store over time: reconciliations of any resource, and the changes that others make
  to the world and the store, which leave the specification, the finalizers and the deletion of one
  resource alone.
\<close>

inductive store_step :: "server \<Rightarrow> 'w libs \<Rightarrow> reconciler_config \<Rightarrow> string \<times> string \<Rightarrow>
    'w reconciler \<times> store \<Rightarrow> 'w reconciler \<times> store \<Rightarrow> bool"
  for V :: server and L :: "'w libs" and C :: reconciler_config and k where
  others: "admitted_store V st' \<Longrightarrow> same_spec (st k) (st' k) \<Longrightarrow> store_step V L C k (s, st) (s\<lparr>world := w\<rparr>, st')"
| served: "run_state (Reconcile L C name ns) s = (out, s') \<Longrightarrow>
    serve V (new_actions (Reconcile L C name ns) s) st = Some st' \<Longrightarrow> store_step V L C k (s, st) (s', st')"

inductive_cases store_stepE: "store_step V L C k (s, st) (s', st')"

lemma phase_of_same: "same_spec x y \<Longrightarrow> phase_of M x = phase_of M y"
  by (cases x; cases y)
    (auto simp: same_spec_def phase_of_def IsInDeletion_def containsFinalizer_def dest: identity_fields)

lemma refused_step:
  assumes "lifecycle_step V L as x y" "phase_of (meta L) x = Fresh" "x = Some z"
    and "\<not> survives (svCanonical V) (svNonzero V) (snd z)"
  shows "same_spec x y \<and> list_all (\<lambda>a. \<not> touches_data a) as"
  using assms by (cases rule: lifecycle_step.cases) auto

lemma refused_invariant:
  assumes "(store_step V L C (ns, name))\<^sup>*\<^sup>* (s0, st0) (s, st)" and "admitted_store V st0"
    and "st0 (ns, name) = Some z" "phase_of (meta L) (Some z) = Fresh"
    and no: "\<not> survives (svCanonical V) (svNonzero V) (snd z)"
  shows "admitted_store V st \<and> same_spec (Some z) (st (ns, name))"
  using assms(1)
proof (induction rule: rtranclp_induct2)
  case refl
  then show ?case using assms(2,3) by simp
next
  case (step s st s' st')
  from step.hyps(2) show ?case
  proof (rule store_stepE)
    assume "admitted_store V st'" "same_spec (st (ns, name)) (st' (ns, name))"
    with step.IH show ?thesis by (simp add: same_spec_def)
  next
    fix n' ns' out assume "serve V (new_actions (Reconcile L C n' ns') s) st = Some st'"
    from lifecycle_sound [OF _ this] step.IH have st': "admitted_store V st'"
      "(ns', n') \<noteq> (ns, name) \<Longrightarrow> st' (ns, name) = st (ns, name)"
      "lifecycle_step V L (new_actions (Reconcile L C n' ns') s) (st (ns', n')) (st' (ns', n'))" by auto
    show ?thesis
    proof (cases "(ns', n') = (ns, name)")
      case True
      obtain z' where z': "st (ns, name) = Some z'" "snd z' = snd z"
        using step.IH by (cases "st (ns, name)") (auto simp: same_spec_def dest: identity_fields)
      have "phase_of (meta L) (st (ns, name)) = Fresh" using step.IH assms(4) phase_of_same by metis
      with refused_step [OF st'(3) _ , of z'] True z' no have "same_spec (st (ns, name)) (st' (ns, name))" by auto
      with step.IH st'(1) show ?thesis by (simp add: same_spec_def)
    next
      case False
      with step.IH st' show ?thesis by simp
    qed
  qed
qed

text \<open>
  C10. When the server would not take the specification of a resource back as the controller encodes it,
  the resource is never provisioned: whatever other clients do short of changing the specification, the
  finalizer or the deletion of the resource, it stays without the finalizer, with the specification it
  had, and no reconciliation of it touches an object of the cluster.
\<close>

theorem refused_never_deployed:
  assumes "(store_step V L C (ns, name))\<^sup>*\<^sup>* (s0, st0) (s, st)" and "admitted_store V st0"
    and "st0 (ns, name) = Some z" "phase_of (meta L) (Some z) = Fresh"
    and "\<not> survives (svCanonical V) (svNonzero V) (snd z)"
  shows "(\<exists>z'. st (ns, name) = Some z' \<and> snd z' = snd z) \<and> phase_of (meta L) (st (ns, name)) = Fresh \<and>
    (serve V (new_actions (Reconcile L C name ns) s) st \<noteq> None \<longrightarrow>
      list_all (\<lambda>a. \<not> touches_data a) (new_actions (Reconcile L C name ns) s))"
proof -
  note inv = refused_invariant [OF assms]
  then obtain z' where z': "st (ns, name) = Some z'" "snd z' = snd z"
    by (cases "st (ns, name)") (auto simp: same_spec_def dest: identity_fields)
  moreover have fresh: "phase_of (meta L) (st (ns, name)) = Fresh" using inv assms(4) phase_of_same by metis
  moreover have "list_all (\<lambda>a. \<not> touches_data a) (new_actions (Reconcile L C name ns) s)"
    if "serve V (new_actions (Reconcile L C name ns) s) st = Some st'" for st'
    using lifecycle_sound [OF conjunct1 [OF inv] that] refused_step [OF _ fresh z'(1)] assms(5) z'(2) by metis
  ultimately show ?thesis by blast
qed

section \<open>A new resource becomes ready\<close>

text \<open>The first reconciliation adopts the resource.\<close>

lemma adoption:
  fixes s :: "('w, 'z) reconciler_scheme"
  assumes st: "admitted_store V st" "st (ns, name) = Some z" and fresh: "phase_of (meta L) (Some z) = Fresh"
    and allowed: "\<And>a. allowedNATSCR C = Some a \<Longrightarrow> nName a = name \<and> nNamespace a = ns"
    and read: "fst (api_get_nats (kapi L) name ns (world s)) = Inr (seen z)"
    and serve: "serve V (new_actions (Reconcile L C name ns) s) st = Some st'"
    and ok: "fst (run_state (Reconcile L C name ns) s) = Returned (emptyResult, None)"
  shows "survives (svCanonical V) (svNonzero V) (snd z) \<and> st' = st((ns, name) := adopted V L z)"
proof -
  obtain w where get: "api_get_nats (kapi L) name ns (world s) = (Inr (seen z), w)" using read by (metis prod.collapse)
  have "key_of (seen z) = (ns, name)" using wf_key [of st "(ns, name)" z] st by (simp add: admitted_store_def)
  then have key: "nName (seen z) = name \<and> nNamespace (seen z) = ns" by (simp add: key_of_def)
  have alive: "\<not> IsInDeletion (meta L) (seen z)" "\<not> containsFinalizer (meta L) (seen z)"
    using fresh by (auto simp: phase_of_def IsInDeletion_def containsFinalizer_def split: if_splits)
  from fresh_reconcile [OF get alive, of C] allowed key obtain pre x where
    acts: "new_actions (Reconcile L C name ns) s =
      AGetNATS name ns (Inr (seen z)) # pre @ [AUpdateNATS (finalized L ((seen z)\<lparr>nStatus := x\<rparr>)) None]"
    and pre: "list_all uncontested pre" using ok by auto
  have "serve V (pre @ [AUpdateNATS (finalized L ((seen z)\<lparr>nStatus := x\<rparr>)) None]) st = Some st'"
    using serve st(2) by (simp add: acts)
  then show ?thesis unfolding serve_uncontested [OF pre] serve_last by (rule adopt_write [OF st])
qed

text \<open>What the client then reads.\<close>

lemma adopted_resource:
  assumes st: "admitted_store V st" "st k = Some z" and fresh: "phase_of (meta L) (Some z) = Fresh"
    and ok: "survives (svCanonical V) (svNonzero V) (snd z)" and y: "adopted V L z = Some y"
    and law: "\<And>fs f. contains_finalizer_in (meta L) (add_finalizer_to (meta L) fs f) f"
  shows "phase_of (meta L) (Some y) = Managed" "nStatus (fst y) = nStatus (fst z)"
    "unmarshal_spec (snd y) = memory_on (canonical (svCanonical V) (unmarshal_spec (snd z)))"
proof -
  obtain d0 where "spec_history (svNonzero V) d0 (snd z)" using st unfolding admitted_store_def by blast
  from stored_on [OF this refl ok] have
    stored: "unmarshal_spec (as_stored (svCanonical V) (unmarshal_spec (snd z))) = memory_on (canonical (svCanonical V) (unmarshal_spec (snd z)))" .
  have y: "y = ((fst z)\<lparr>nFinalizers := add_finalizer_to (meta L) (nFinalizers (fst z)) NATSFinalizerName,
      nResourceVersion := next_version V (fst z)\<rparr>, as_stored (svCanonical V) (unmarshal_spec (snd z)))"
    using y by (auto simp: adopted_def after_update_def finalized_def split: if_splits)
  show "phase_of (meta L) (Some y) = Managed" "nStatus (fst y) = nStatus (fst z)"
    "unmarshal_spec (snd y) = memory_on (canonical (svCanonical V) (unmarshal_spec (snd z)))"
    using fresh law unfolding y
    by (auto simp: stored phase_of_def IsInDeletion_def containsFinalizer_def split: if_splits)
qed

text \<open>A published status is the one in the store.\<close>

lemma drop_prefix: "tr @ g # as = pre @ [x] \<Longrightarrow> \<exists>pre'. g # as = pre' @ [x]"
  by (metis append_butlast_last_id last_appendR last_snoc list.distinct(1))

lemma published_new:
  assumes "published name ns a (tr @ AGetNATS n m r # as)"
  shows "published name ns a (AGetNATS n m r # as)"
proof -
  obtain pre actual x where x: "wf_status x" "abs_status x = a"
    and cs: "tr @ AGetNATS n m r # as = pre @ [AGetNATS name ns (Inr actual)] \<and> IsEqual (nStatus actual) x \<or>
      tr @ AGetNATS n m r # as = pre @ [AGetNATS name ns (Inr actual), AUpdateStatus (actual\<lparr>nStatus := x\<rparr>) None]"
    using assms unfolding published_def by blast
  from cs show ?thesis
  proof (elim disjE conjE)
    assume "tr @ AGetNATS n m r # as = pre @ [AGetNATS name ns (Inr actual)]" and eq: "IsEqual (nStatus actual) x"
    from drop_prefix [OF this(1)] show ?thesis using x eq unfolding published_def by blast
  next
    assume eq: "tr @ AGetNATS n m r # as = pre @ [AGetNATS name ns (Inr actual), AUpdateStatus (actual\<lparr>nStatus := x\<rparr>) None]"
    show ?thesis
    proof (cases as rule: rev_cases)
      case Nil
      with arg_cong [OF eq, of last] show ?thesis by simp
    next
      case (snoc as0 u)
      with eq have u: "u = AUpdateStatus (actual\<lparr>nStatus := x\<rparr>) None"
        and "tr @ AGetNATS n m r # as0 = pre @ [AGetNATS name ns (Inr actual)]"
        using append1_eq_conv [of "tr @ AGetNATS n m r # as0" u "pre @ [AGetNATS name ns (Inr actual)]"] by auto
      from drop_prefix [OF this(2)] obtain pre' where "AGetNATS n m r # as0 = pre' @ [AGetNATS name ns (Inr actual)]" by blast
      then have "AGetNATS n m r # as = pre' @ [AGetNATS name ns (Inr actual), AUpdateStatus (actual\<lparr>nStatus := x\<rparr>) None]"
        using snoc u by (metis append_Cons append_assoc append_Nil)
      with x show ?thesis unfolding published_def by blast
    qed
  qed
qed

definition shows_status :: "abs_status \<Rightarrow> NATSStatus \<Rightarrow> bool" where
  "shows_status a x \<longleftrightarrow> stState x = aState a \<and> stURL x = aURL a \<and> stAvailabilityZonesUsed x = aZones a"

lemma published_stored:
  assumes st: "admitted_store V st" and p: "published name ns a as" and serve: "serve V as st = Some st'"
  shows "\<exists>z. st' (ns, name) = Some z \<and> shows_status a (nStatus (fst z))"
proof -
  obtain pre actual x where x: "wf_status x" "abs_status x = a"
    and cs: "as = pre @ [AGetNATS name ns (Inr actual)] \<and> IsEqual (nStatus actual) x \<or>
      as = pre @ [AGetNATS name ns (Inr actual), AUpdateStatus (actual\<lparr>nStatus := x\<rparr>) None]"
    using p unfolding published_def by blast
  have shown: "shows_status a x" by (simp add: shows_status_def x(2) [symmetric])
  from cs show ?thesis
  proof (elim disjE conjE)
    assume as: "as = pre @ [AGetNATS name ns (Inr actual)]" and eq: "IsEqual (nStatus actual) x"
    then have "map_option seen (st' (ns, name)) = Some actual"
      using serve by (auto elim!: serve_appendE split: if_splits)
    then obtain z where "st' (ns, name) = Some z" "nStatus (fst z) = nStatus actual" by auto
    moreover have "shows_status a (nStatus actual)"
      using eq shown by (auto simp: IsEqual_def Let_def shows_status_def dest: arg_cong [of _ _ stState] arg_cong [of _ _ stURL]
          arg_cong [of _ _ stAvailabilityZonesUsed])
    ultimately show ?thesis by metis
  next
    assume as: "as = pre @ [AGetNATS name ns (Inr actual), AUpdateStatus (actual\<lparr>nStatus := x\<rparr>) None]"
    obtain st1 where 1: "serve V pre st = Some st1"
      "serve V [AGetNATS name ns (Inr actual), AUpdateStatus (actual\<lparr>nStatus := x\<rparr>) None] st1 = Some st'"
      using serve unfolding as by (rule serve_appendE)
    then obtain y where y: "st1 (ns, name) = Some y" "actual = seen y" by (auto split: if_splits)
    have "admitted_store V st1" by (rule serve_admitted [OF st 1(1)])
    then have "key_of (actual\<lparr>nStatus := x\<rparr>) = (ns, name)"
      using wf_key [of st1 "(ns, name)" y] y by (simp add: admitted_store_def)
    with 1(2) y have "st' (ns, name) = Some (after_status V (actual\<lparr>nStatus := x\<rparr>) y)" by (auto split: if_splits)
    then show ?thesis using shown by (simp add: after_status_def)
  qed
qed

text \<open>A further reconciliation publishes the status of the deployed cluster.\<close>

lemma deployed_url: "aURL (deployed_spec nats zones a) = Format (nName nats) (nNamespace nats)"
  by (simp add: deployed_spec_def zones_spec_def split: sum.splits)

lemma managed_ready:
  fixes s :: "('w, 'z) reconciler_scheme"
  assumes law: "ssc_law (meta L)" and wf: "wf_status (nStatus (fst y))"
    and st: "admitted_store V st" "st (ns, name) = Some y" and managed: "phase_of (meta L) (Some y) = Managed"
    and allowed: "\<And>a. allowedNATSCR C = Some a \<Longrightarrow> nName a = name \<and> nNamespace a = ns"
    and read: "api_get_nats (kapi L) name ns (world s) = (Inr (seen y), w)"
    and prov: "provisioned L C (seen y) (s\<lparr>world := w, trace := trace s @ [AGetNATS name ns (Inr (seen y))]\<rparr>) x i t"
    and ready: "run_state (IsNATSStatefulSetReady L i) t = (Returned (Inr True), u)"
    and serve: "serve V (new_actions (Reconcile L C name ns) s) st = Some st'"
    and ok: "fst (run_state (Reconcile L C name ns) s) = Returned (emptyResult, None)"
  shows "\<exists>y'. st' (ns, name) = Some y' \<and> same_spec (Some y) (Some y') \<and>
    (\<forall>n. count_zones L ((seen y)\<lparr>nStatus := x\<rparr>) u = Inr n \<and> (n = clusterSize (spCluster (nSpec (seen y))) \<or> clusterSize (spCluster (nSpec (seen y))) < 3) \<longrightarrow>
      stState (nStatus (fst y')) = StateReady \<and> stURL (nStatus (fst y')) = Format name ns)"
proof -
  have "key_of (seen y) = (ns, name)" using wf_key [of st "(ns, name)" y] st by (simp add: admitted_store_def)
  then have key: "nName (seen y) = name" "nNamespace (seen y) = ns" by (simp_all add: key_of_def)
  have alive: "\<not> IsInDeletion (meta L) (seen y)" and fin: "containsFinalizer (meta L) (seen y)"
    using managed by (auto simp: phase_of_def IsInDeletion_def containsFinalizer_def split: if_splits)
  let ?size = "clusterSize (spCluster (nSpec (seen y)))"
  let ?s1 = "s\<lparr>world := w, trace := trace s @ [AGetNATS name ns (Inr (seen y))]\<rparr>"
  obtain out s' where run: "run_state (Reconcile L C name ns) s = (out, s')" by force
  then have go: "run_state (handleNATSReconcile L C (seen y)) ?s1 = (out, s')"
  proof (cases rule: Reconcile_run)
    case (absent e)
    with read show ?thesis by simp
  next
    case (found nats w' s1)
    with read alive allowed key show ?thesis by (auto split: if_splits)
  qed
  have any: "state_io_rel (emits (\<lambda>_. True)) (handleNATSReconcile L C (seen y) :: ('w, 'z, _) rec_m)"
    by (rule emit_rec.handle_reconcile; simp)
  from state_io_relD [OF any go] obtain as where as: "trace s' = trace s @ AGetNATS name ns (Inr (seen y)) # as"
    by (auto simp: emits_def)
  let ?zones = "count_zones L ((seen y)\<lparr>nStatus := x\<rparr>) u"
  from deployed_outcome [OF law _ fin prov ready] wf go have
    p: "published name ns (deployed_spec (seen y) ?zones ((spec_initialize (abs_status (nStatus (seen y))))\<lparr>aURL := []\<rparr>)) (trace s')"
    and r: "\<forall>n. ?zones = Inr n \<and> (n = ?size \<or> ?size < 3) \<longrightarrow>
      aState (deployed_spec (seen y) ?zones ((spec_initialize (abs_status (nStatus (seen y))))\<lparr>aURL := []\<rparr>)) = StateReady"
    using ok run key by (auto simp: Let_def)
  note new = new_actions_eq [OF run as]
  from published_stored [OF st(1) published_new [OF p [unfolded as]] serve [unfolded new]] obtain y' where
    y': "st' (ns, name) = Some y'"
    "shows_status (deployed_spec (seen y) ?zones ((spec_initialize (abs_status (nStatus (seen y))))\<lparr>aURL := []\<rparr>)) (nStatus (fst y'))"
    by blast
  have "lifecycle_step V L (new_actions (Reconcile L C name ns) s) (Some y) (Some y')"
    using lifecycle_sound [OF st(1) serve] st(2) y'(1) by simp
  then have "same_spec (Some y) (Some y')"
    by (cases rule: lifecycle_step.cases) (use managed in simp_all)
  with y' r show ?thesis
    by (intro exI [of _ y']) (simp add: shows_status_def deployed_url key [simplified])
qed

text \<open>
  C8. A new resource becomes ready in two reconciliations whose calls succeed. The first, served by a
  store that holds the resource without a finalizer, adopts it: the resource keeps its status and is
  managed from then on, with its specification in canonical form and the memory storage switched on. The
  second, when the chart is installed and the StatefulSets are ready, leaves the store with the state
  \<^verbatim>\<open>Ready\<close> and the address of the server in the status, provided that the count of the pods' zones succeeds
  and gives the number of the cluster's nodes, or any number when the cluster has fewer than three. The answers of the collaborators may change in
  between; only the pure helpers are the same.
\<close>

theorem new_resource_gets_ready:
  fixes s1 s2 :: "('w, 'z) reconciler_scheme"
  assumes law: "ssc_law M" "\<And>fs f. contains_finalizer_in M (add_finalizer_to M fs f) f"
    and libs: "meta L1 = M" "meta L2 = M"
    and allowed: "\<And>a. allowedNATSCR C = Some a \<Longrightarrow> nName a = name \<and> nNamespace a = ns"
    and st: "admitted_store V st" "st (ns, name) = Some z" "phase_of M (Some z) = Fresh" "wf_status (nStatus (fst z))"
    and read1: "fst (api_get_nats (kapi L1) name ns (world s1)) = Inr (seen z)"
    and first: "serve V (new_actions (Reconcile L1 C name ns) s1) st = Some st1"
      "fst (run_state (Reconcile L1 C name ns) s1) = Returned (emptyResult, None)" "st1 (ns, name) = Some y"
    and read2: "api_get_nats (kapi L2) name ns (world s2) = (Inr (seen y), w)"
    and prov: "provisioned L2 C (seen y) (s2\<lparr>world := w, trace := trace s2 @ [AGetNATS name ns (Inr (seen y))]\<rparr>) x i t"
    and ready: "run_state (IsNATSStatefulSetReady L2 i) t = (Returned (Inr True), u)"
    and second: "serve V (new_actions (Reconcile L2 C name ns) s2) st1 = Some st2"
      "fst (run_state (Reconcile L2 C name ns) s2) = Returned (emptyResult, None)"
  shows "phase_of M (Some y) = Managed \<and> nStatus (fst y) = nStatus (fst z) \<and>
    nSpec (seen y) = memory_on (canonical (svCanonical V) (nSpec (seen z))) \<and>
    (\<exists>y'. st2 (ns, name) = Some y' \<and> same_spec (Some y) (Some y') \<and>
      (\<forall>n. count_zones L2 ((seen y)\<lparr>nStatus := x\<rparr>) u = Inr n \<and> (n = clusterSize (spCluster (nSpec (seen z))) \<or> clusterSize (spCluster (nSpec (seen z))) < 3) \<longrightarrow>
        stState (nStatus (fst y')) = StateReady \<and> stURL (nStatus (fst y')) = Format name ns))"
proof -
  note fresh = st(3) [folded libs(1)]
  from adoption [OF st(1,2) fresh allowed read1 first(1,2)] first(3) have
    y: "survives (svCanonical V) (svNonzero V) (snd z)" "adopted V L1 z = Some y" by auto
  note facts = adopted_resource [OF st(1,2) fresh y law(2) [folded libs(1)]]
  have st1: "admitted_store V st1" by (rule serve_admitted [OF st(1) first(1)])
  have size: "clusterSize (spCluster (nSpec (seen y))) = clusterSize (spCluster (nSpec (seen z)))"
    by (simp add: facts(3) memory_on_def)
  have "wf_status (nStatus (fst y))" using st(4) facts(2) by simp
  from managed_ready [OF law(1) [folded libs(2)] this st1 first(3) _ allowed read2 prov ready second]
  have "\<exists>y'. st2 (ns, name) = Some y' \<and> same_spec (Some y) (Some y') \<and>
      (\<forall>n. count_zones L2 ((seen y)\<lparr>nStatus := x\<rparr>) u = Inr n \<and> (n = clusterSize (spCluster (nSpec (seen z))) \<or> clusterSize (spCluster (nSpec (seen z))) < 3) \<longrightarrow>
        stState (nStatus (fst y')) = StateReady \<and> stURL (nStatus (fst y')) = Format name ns)"
    using facts(1) unfolding size libs by blast
  then show ?thesis using facts libs by simp
qed

section \<open>Examples\<close>

text \<open>
  A server on which \<^verbatim>\<open>1Gi\<close> is the canonical form of \<^verbatim>\<open>1024Mi\<close>, and the production sample of the repository with
  three nodes and another size of the file storage, or none.
\<close>

definition demo_server :: server where
  "demo_server = \<lparr>svCanonical = (\<lambda>q. if q = QuantityOf ''1024Mi'' then QuantityOf ''1Gi'' else q),
     svNonzero = (\<lambda>q. q \<noteq> QuantityZero), svNextVersion = (\<lambda>v. v @ ''1'')\<rparr>"

definition demo_raw :: "string option \<Rightarrow> raw_spec" where
  "demo_raw q = kyma_prod_spec\<lparr>rsCluster := Some (Some 3), rsJetStream := Some \<lparr>rjMem = Some \<lparr>rmEnabled = Some False, rmSize = Some (QuantityOf ''20Mi'')\<rparr>,
     rjFile = Some \<lparr>rfClass = Some ''default'', rfSize = map_option QuantityOf q\<rparr>\<rparr>\<rparr>"

abbreviation demo_key :: "string \<times> string" where
  "demo_key \<equiv> (''kyma-system'', ''eventing-nats'')"

definition demo_store :: "string option \<Rightarrow> store" where
  "demo_store q = [demo_key \<mapsto> (demo_nats, demo_raw q)]"

definition demo_reader :: "string option \<Rightarrow> demo_world reconciler" where
  "demo_reader q = demo_rec\<lparr>world := demo_start\<lparr>dNATS := Some (seen (demo_nats, demo_raw q))\<rparr>\<rparr>"

text \<open>The same world with a server that refuses the update.\<close>

definition demo_refusing :: "demo_world libs" where
  "demo_refusing = (demo_libs [])\<lparr>kapi := demo_api\<lparr>api_update_nats := (\<lambda>n w. (Some not_found, w))\<rparr>\<rparr>"

lemma demo_raw_history: "spec_history (svNonzero demo_server) (demo_raw q) (demo_raw q)"
proof (rule spec_history.created)
  show "demo_raw q = default_nats (Some (demo_raw q))"
    by (simp add: demo_raw_def kyma_prod_spec_def default_nats_def default_spec_def default_jetstream_def default_mem_def
        default_file_def default_logging_def)
qed (simp_all add: demo_raw_def kyma_prod_spec_def raw_cluster_def raw_mem_of_def raw_file_of_def size_valid_def
    mem_valid_def demo_server_def)

lemma demo_store_admitted: "admitted_store demo_server (demo_store q)"
  using demo_raw_history
  by (auto simp: admitted_store_def wf_store_def demo_store_def key_of_def demo_nats_def split: if_splits)

lemma demo_survives: "survives (svCanonical demo_server) (svNonzero demo_server) (demo_raw q) \<longleftrightarrow> q \<noteq> Some ''1024Mi''"
  by (simp add: survives_def demo_raw_def kyma_prod_spec_def raw_mem_of_def raw_file_of_def demo_server_def)

lemma demo_fresh:
  assumes "L = demo_libs [] \<or> L = demo_refusing"
  shows "phase_of (meta L) (Some (demo_nats, d)) = Fresh" "\<not> IsInDeletion (meta L) (seen (demo_nats, d))"
    "\<not> containsFinalizer (meta L) (seen (demo_nats, d))"
    "api_get_nats (kapi L) ''eventing-nats'' ''kyma-system'' (world (demo_reader q)) =
      (Inr (seen (demo_nats, demo_raw q)), world (demo_reader q))"
  using assms
  by (auto simp: phase_of_def IsInDeletion_def containsFinalizer_def demo_refusing_def demo_libs_def ref_meta_def demo_nats_def
      demo_api_def demo_get_nats_def demo_reader_def)

lemma demo_fresh_run:
  assumes "L = demo_libs [] \<or> L = demo_refusing"
  shows "\<exists>pre x e. new_actions (Reconcile L (demo_config None) ''eventing-nats'' ''kyma-system'') (demo_reader q) =
      AGetNATS ''eventing-nats'' ''kyma-system'' (Inr (seen (demo_nats, demo_raw q))) #
        pre @ [AUpdateNATS (finalized L ((seen (demo_nats, demo_raw q))\<lparr>nStatus := x\<rparr>)) e] \<and> list_all uncontested pre \<and>
      fst (run_state (Reconcile L (demo_config None) ''eventing-nats'' ''kyma-system'') (demo_reader q)) = Returned (emptyResult, e) \<and>
      (L = demo_refusing \<longrightarrow> e \<noteq> None) \<and> (L = demo_libs [] \<longrightarrow> e = None)"
proof -
  have none: "allowedNATSCR (demo_config None) = None" by (simp add: demo_config_def)
  have "L = demo_refusing \<Longrightarrow> fst (api_update_nats (kapi L) n w) \<noteq> None"
    "L = demo_libs [] \<Longrightarrow> fst (api_update_nats (kapi L) n w) = None" for n w
    by (simp_all add: demo_refusing_def demo_libs_def demo_api_def)
  with fresh_reconcile [OF demo_fresh(4) [OF assms] demo_fresh(2,3) [OF assms], of "demo_config None" q]
  show ?thesis unfolding none by blast
qed

lemma demo_read_served:
  "serve1 V (AGetNATS ''eventing-nats'' ''kyma-system'' (Inr (seen (demo_nats, demo_raw q)))) (demo_store q) = Some (demo_store q)"
  by (simp add: demo_store_def)

lemma demo_first:
  assumes "q \<noteq> Some ''1024Mi''"
  shows "\<exists>st'. serve demo_server (new_actions (Reconcile (demo_libs []) (demo_config None) ''eventing-nats'' ''kyma-system'')
      (demo_reader q)) (demo_store q) = Some st'"
    and "fst (run_state (Reconcile (demo_libs []) (demo_config None) ''eventing-nats'' ''kyma-system'') (demo_reader q)) =
      Returned (emptyResult, None)"
proof -
  from demo_fresh_run [of "demo_libs []" q] obtain pre x where
    acts: "new_actions (Reconcile (demo_libs []) (demo_config None) ''eventing-nats'' ''kyma-system'') (demo_reader q) =
      AGetNATS ''eventing-nats'' ''kyma-system'' (Inr (seen (demo_nats, demo_raw q))) #
        pre @ [AUpdateNATS (finalized (demo_libs []) ((seen (demo_nats, demo_raw q))\<lparr>nStatus := x\<rparr>)) None]"
    and pre: "list_all uncontested pre"
    and ok: "fst (run_state (Reconcile (demo_libs []) (demo_config None) ''eventing-nats'' ''kyma-system'') (demo_reader q)) =
      Returned (emptyResult, None)" by blast
  let ?n = "finalized (demo_libs []) ((seen (demo_nats, demo_raw q))\<lparr>nStatus := x\<rparr>)"
  have "update_valid (svNonzero demo_server) (demo_raw q) (as_stored (svCanonical demo_server) (unmarshal_spec (demo_raw q)))"
    using stored_valid [OF demo_raw_history refl] demo_survives assms by simp
  moreover have "key_of ?n = demo_key" by (simp add: finalized_def key_of_def demo_nats_def)
  ultimately have "\<exists>st'. serve1 demo_server (AUpdateNATS ?n None) (demo_store q) = Some st'"
    by (simp add: demo_store_def accepts_def finalized_def)
  then show "\<exists>st'. serve demo_server (new_actions (Reconcile (demo_libs []) (demo_config None) ''eventing-nats'' ''kyma-system'')
      (demo_reader q)) (demo_store q) = Some st'"
    unfolding acts serve.simps(2) demo_read_served option.case serve_uncontested [OF pre] by (auto split: option.splits)
  show "fst (run_state (Reconcile (demo_libs []) (demo_config None) ''eventing-nats'' ''kyma-system'') (demo_reader q)) =
      Returned (emptyResult, None)" by (rule ok)
qed

theorem store_lifecycle_witness:
  "\<exists>st'. serve demo_server (new_actions (Reconcile (demo_libs []) (demo_config None) ''eventing-nats'' ''kyma-system'')
      (demo_reader None)) (demo_store None) = Some st' \<and>
    lifecycle_step demo_server (demo_libs [])
      (new_actions (Reconcile (demo_libs []) (demo_config None) ''eventing-nats'' ''kyma-system'') (demo_reader None))
      (demo_store None demo_key) (st' demo_key)"
  using demo_first(1) [of None] store_lifecycle [OF demo_store_admitted] by blast

theorem refused_never_deployed_witness:
  "list_all (\<lambda>a. \<not> touches_data a)
     (new_actions (Reconcile demo_refusing (demo_config None) ''eventing-nats'' ''kyma-system'') (demo_reader (Some ''1024Mi'')))"
proof -
  from demo_fresh_run [of demo_refusing "Some ''1024Mi''"] obtain pre x e where
    acts: "new_actions (Reconcile demo_refusing (demo_config None) ''eventing-nats'' ''kyma-system'') (demo_reader (Some ''1024Mi'')) =
      AGetNATS ''eventing-nats'' ''kyma-system'' (Inr (seen (demo_nats, demo_raw (Some ''1024Mi'')))) #
        pre @ [AUpdateNATS (finalized demo_refusing ((seen (demo_nats, demo_raw (Some ''1024Mi'')))\<lparr>nStatus := x\<rparr>)) e]"
    and pre: "list_all uncontested pre" and e: "e \<noteq> None" by blast
  have "serve demo_server (new_actions (Reconcile demo_refusing (demo_config None) ''eventing-nats'' ''kyma-system'')
      (demo_reader (Some ''1024Mi''))) (demo_store (Some ''1024Mi'')) \<noteq> None"
    unfolding acts serve.simps(2) demo_read_served option.case serve_uncontested [OF pre] using e by auto
  moreover have "demo_store (Some ''1024Mi'') (''kyma-system'', ''eventing-nats'') = Some (demo_nats, demo_raw (Some ''1024Mi''))"
    by (simp add: demo_store_def)
  ultimately show ?thesis
    using refused_never_deployed [OF rtranclp.rtrancl_refl demo_store_admitted _ demo_fresh(1)] demo_survives by auto
qed

text \<open>The world after the adoption, with a chart that holds one StatefulSet, which is ready.\<close>

definition demo_adopted :: stored where
  "demo_adopted = (demo_nats\<lparr>nFinalizers := [NATSFinalizerName], nResourceVersion := ''11''\<rparr>,
     as_stored (svCanonical demo_server) (unmarshal_spec (demo_raw None)))"

lemma demo_adopted: "adopted demo_server (demo_libs []) (demo_nats, demo_raw None) = Some demo_adopted"
  by (simp add: adopted_def after_update_def finalized_def next_version_def demo_adopted_def demo_nats_def demo_libs_def
      ref_meta_def demo_server_def)

lemma counted_status: "snd (fst (run_state (zones_status L nats st None) s)) = None"
  by (simp add: zones_status_def split: prod.splits)

lemma uncontested_kinds: "observe_action a \<Longrightarrow> uncontested a" "render_action a \<Longrightarrow> uncontested a"
  by (auto elim: observe_action.elims render_action.elims)

text \<open>With the StatefulSet ready, all that is left of a run is to sync the status.\<close>

lemma lit_state:
  fixes x :: "demo_world reconciler"
  assumes ready: "run_state (IsNATSStatefulSetReady (demo_lit res) i) x = (Returned (Inr True), y)"
    and zones: "process_grows s0 y" "nodesZoneCache s0 = demo_zones"
  shows "\<exists>pre st t e s'. run_state (handleNATSState (demo_lit res) n i) x = (Returned (emptyResult, e), s') \<and>
    trace t = trace x @ pre \<and> list_all uncontested pre \<and> run_state (syncNATSStatus (demo_lit res) (n\<lparr>nStatus := st\<rparr>)) t = (e, s')"
proof -
  let ?L = "demo_lit res"
  obtain st1 t1 where 1: "run_state (SetStateReady ?L (ClearURL (nStatus n))) y = (st1, t1)" by force
  obtain u2 t2 where 2: "run_state (eventNormal ?L ConditionReasonDeployed ''StatefulSet is ready and NATS is deployed.'' []) t1 = (u2, t2)"
    by (rule prod.exhaust)
  obtain t3 where 3: "run_state (GetNumberOfAvailabilityZonesUsedByPods ?L (nNamespace n) getNATSPodsMatchLabels) t2 = (Inr 3, t3)"
  proof -
    have "process_grows y t1" "process_grows t1 t2"
      using state_io_relD [OF process_rec.status_ops(5) 1] state_io_relD [OF process_rec.event_ops(2) 2] by simp_all
    then have "process_grows s0 t2" using zones(1) process_rec.frame_trans by blast
    then show thesis using that lit_zones [OF _ zones(2)] by (metis prod.collapse)
  qed
  obtain u4 t4 where 4: "run_state (RecordAvailabilityZonesUsedMetric ?L 3) t3 = (u4, t4)"
    by (rule prod.exhaust)
  let ?st = "(SetURL st1 (Format (nName n) (nNamespace n)))\<lparr>stAvailabilityZonesUsed := 3\<rparr>"
  obtain st5 t5 where 5: "run_state (zones_status ?L (n\<lparr>nStatus := ClearURL (nStatus n)\<rparr>) ?st None) t4 = ((st5, None), t5)"
    using counted_status by (metis prod.collapse)
  obtain e s' where 6: "run_state (syncNATSStatus ?L (n\<lparr>nStatus := st5\<rparr>)) t5 = (e, s')" by force
  have "state_io_rel (emits uncontested) (SetStateReady ?L st :: (demo_world, unit, _) rec_m)"
    "state_io_rel (emits uncontested) (eventNormal ?L a b c :: (demo_world, unit, _) rec_m)"
    "state_io_rel (emits uncontested) (GetNumberOfAvailabilityZonesUsedByPods ?L m ls :: (demo_world, unit, _) rec_m)"
    "state_io_rel (emits uncontested) (RecordAvailabilityZonesUsedMetric ?L k :: (demo_world, unit, _) rec_m)"
    "state_io_rel (emits uncontested) (zones_status ?L m' st None :: (demo_world, unit, _) rec_m)"
    "state_io_rel (emits uncontested) (IsNATSStatefulSetReady ?L i :: (demo_world, unit, _) rec_m)" for st a b c m m' ls k
    unfolding zones_status_def option.case
    by (intro emit_rec.fr emit_rec.status_ops emit_rec.event_ops emit_rec.metric_ops emit_rec.zones_count
        emit_rec.statefulset_ready; simp add: uncontested_kinds)+
  note emits = this [THEN state_io_relD]
  have "emits uncontested x t5"
    by (rule emits_trans [OF emits(6) [OF ready] emits_trans [OF emits(1) [OF 1] emits_trans [OF emits(2) [OF 2]
        emits_trans [OF emits(3) [OF 3] emits_trans [OF emits(4) [OF 4] emits(5) [OF 5]]]]]])
  then obtain pre where pre: "trace t5 = trace x @ pre" "list_all uncontested pre" by (auto simp: emits_def)
  have "run_state (handleNATSState ?L n i) x = (Returned (emptyResult, e), s')"
    unfolding handleNATSState_def bind_left_identity report_zones_def Let_def
    by (simp add: ready 1 2 3 4 5 6)
  with pre 6 show ?thesis by blast
qed

text \<open>The status is synced without an error, and the store takes it.\<close>

lemma lit_sync:
  assumes run: "run_state (syncNATSStatus (demo_lit (seen y)) n) t = (e, s')"
    and key: "nName n = nName (fst y)" "nNamespace n = nNamespace (fst y)" and st: "st (key_of (fst y)) = Some y"
  shows "e = None \<and> (\<exists>as. trace s' = trace t @ as \<and> serve V as st \<noteq> None)"
proof -
  let ?L = "demo_lit (seen y)" and ?get = "AGetNATS (nName n) (nNamespace n) (Inr (seen y))"
  have api: "api_get_nats (kapi ?L) a b w = (Inr (seen y), w)" "fst (api_update_status (kapi ?L) m w) = None" for a b m w
    by (simp_all add: demo_lit_def demo_api_def)
  obtain w where upd: "api_update_status (kapi ?L) ((seen y)\<lparr>nStatus := nStatus n\<rparr>) (world t) = (None, w)"
    using api(2) by (metis prod.collapse)
  have "e = None \<and> (trace s' = trace t @ [?get] \<or> trace s' = trace t @ [?get, AUpdateStatus ((seen y)\<lparr>nStatus := nStatus n\<rparr>) None])"
    using run by (auto simp: syncNATSStatus_def clientGetNATS_def updateStatus_def clientUpdateStatus_def api upd
        split: if_splits)
  moreover have "serve V [?get] st \<noteq> None" "serve V [?get, AUpdateStatus ((seen y)\<lparr>nStatus := nStatus n\<rparr>) None] st \<noteq> None"
    using st key by (simp_all add: key_of_def)
  ultimately show ?thesis by blast
qed

lemma provisioned_uncontested:
  fixes s :: "('w, 'z) reconciler_scheme"
  assumes "provisioned L C nats s st i x"
  shows "emits uncontested s x"
proof -
  have "state_io_rel (emits uncontested) (provision_head L n :: ('w, 'z, _) rec_m)"
    "state_io_rel (emits uncontested) (initNATSInstance L C n :: ('w, 'z, _) rec_m)"
    "state_io_rel (emits uncontested) (DeployInstance L fm i :: ('w, 'z, _) rec_m)"
    "state_io_rel (emits uncontested) (startDestinationRuleWatch L i :: ('w, 'z, _) rec_m)" for n fm i
    unfolding provision_head_def
    by (intro emit_rec.fr emit_rec.metric_ops emit_rec.cloud_provider emit_rec.status_ops emit_rec.event_ops
        emit_rec.init_instance emit_rec.deploy emit_rec.start_watch; simp add: uncontested_kinds)+
  note emits = this [THEN state_io_relD]
  show ?thesis
    using assms unfolding provisioned_def by (blast dest: emits intro: emits_trans)
qed

text \<open>A whole run, from a store that holds what the API server answers.\<close>

lemma lit_served:
  fixes s :: "demo_world reconciler"
  assumes fin: "containsFinalizer (meta (demo_lit (seen y))) (seen y)" and alive: "\<not> IsInDeletion (meta (demo_lit (seen y))) (seen y)"
    and st: "st (key_of (fst y)) = Some y" and key: "key_of (fst y) = (ns, name)"
    and prov: "provisioned (demo_lit (seen y)) C (seen y) (s\<lparr>trace := trace s @ [AGetNATS name ns (Inr (seen y))]\<rparr>) x i t"
    and ready: "run_state (IsNATSStatefulSetReady (demo_lit (seen y)) i) t = (Returned (Inr True), u)"
    and none: "allowedNATSCR C = None" and zones: "nodesZoneCache s = demo_zones"
  shows "serve V (new_actions (Reconcile (demo_lit (seen y)) C name ns) s) st \<noteq> None"
    and "fst (run_state (Reconcile (demo_lit (seen y)) C name ns) s) = Returned (emptyResult, None)"
proof -
  let ?L = "demo_lit (seen y)" and ?s1 = "s\<lparr>trace := trace s @ [AGetNATS name ns (Inr (seen y))]\<rparr>"
  have "api_get_nats (kapi ?L) a b w = (Inr (seen y), w)" for a b w by (simp add: demo_lit_def)
  then have run1: "run_state (Reconcile ?L C name ns) s = run_state (handleNATSReconcile ?L C (seen y)) ?s1"
    by (simp add: Reconcile_def clientGetNATS_def alive none)
  have "nodesZoneCache ?s1 = demo_zones" using zones by simp
  from lit_state [OF ready provisioned_grows [OF prov ready] this, of "(seen y)\<lparr>nStatus := x\<rparr>"] obtain pre z v e s' where
    run: "run_state (handleNATSState ?L ((seen y)\<lparr>nStatus := x\<rparr>) i) t = (Returned (emptyResult, e), s')"
    and v: "trace v = trace t @ pre" "list_all uncontested pre"
    and sync: "run_state (syncNATSStatus ?L ((seen y)\<lparr>nStatus := x\<rparr>\<lparr>nStatus := z\<rparr>)) v = (e, s')" by blast
  have run: "run_state (Reconcile ?L C name ns) s = (Returned (emptyResult, e), s')"
    unfolding run1 provisioned_run [OF fin prov] by (rule run)
  from lit_sync [where st = st and V = V, OF sync _ _ st] obtain as where e: "e = None" and as: "trace s' = trace v @ as" "serve V as st \<noteq> None" by auto
  obtain ps where ps: "trace t = trace ?s1 @ ps" "list_all uncontested ps"
    using provisioned_uncontested [OF prov] by (auto simp: emits_def)
  have "new_actions (Reconcile ?L C name ns) s = AGetNATS name ns (Inr (seen y)) # (ps @ pre) @ as"
    using run v(1) as(1) ps(1) by (simp add: new_actions_def)
  moreover have "serve1 V (AGetNATS name ns (Inr (seen y))) st = Some st" using st key by simp
  moreover have "serve V ((ps @ pre) @ as) st = serve V as st" by (rule serve_uncontested) (simp add: ps v)
  ultimately show "serve V (new_actions (Reconcile ?L C name ns) s) st \<noteq> None"
    using as(2) by (simp del: serve1.simps)
  show "fst (run_state (Reconcile ?L C name ns) s) = Returned (emptyResult, None)" using run e by simp
qed

lemma demo_adopted_facts:
  "containsFinalizer (meta (demo_lit n)) (seen demo_adopted)" "\<not> IsInDeletion (meta (demo_lit n)) (seen demo_adopted)"
  "key_of (fst demo_adopted) = demo_key" "meta (demo_lit n) = ref_meta" "meta (demo_libs docs) = ref_meta"
  by (simp_all add: containsFinalizer_def IsInDeletion_def demo_adopted_def demo_lit_def demo_libs_def ref_meta_def key_of_def
      demo_nats_def)

lemma demo_adopted_size: "fsSize (jsFileStorage (spJetStream (nSpec (seen demo_adopted)))) = QuantityZero"
proof -
  have "nSpec (seen demo_adopted) = with_defaults (canonical (svCanonical demo_server) (unmarshal_spec (demo_raw None)))"
    by (simp add: demo_adopted_def read_stored)
  moreover have "fsSize (jsFileStorage (spJetStream (unmarshal_spec (demo_raw None)))) = QuantityZero"
    by (simp add: unmarshal_spec_def unmarshal_file_def demo_raw_def raw_file_of_def)
  ultimately show ?thesis by (simp add: with_defaults_def canonical_def demo_server_def Let_def)
qed

lemma demo_adopted_configurable: "\<exists>ov. GenerateOverrides (meta (demo_lit n)) im (nSpec (seen demo_adopted)) istio rp cp = Inr ov"
  using demo_adopted_size by (simp add: GenerateOverrides_def resolveFileStorageSize_def Let_def demo_adopted_facts ref_meta_def)

text \<open>A controller that knows the nodes.\<close>

definition demo_looked :: "demo_world reconciler" where
  "demo_looked = demo_rec\<lparr>nodesZoneCache := demo_zones\<rparr>"

theorem new_resource_gets_ready_witness:
  "\<exists>st1 st2 y'. serve demo_server (new_actions (Reconcile (demo_libs []) (demo_config None) ''eventing-nats'' ''kyma-system'')
      (demo_reader None)) (demo_store None) = Some st1 \<and>
    serve demo_server (new_actions (Reconcile (demo_lit (seen demo_adopted)) (demo_config None) ''eventing-nats'' ''kyma-system'')
      demo_looked) st1 = Some st2 \<and> st2 demo_key = Some y' \<and> stState (nStatus (fst y')) = StateReady \<and>
    clusterSize (spCluster (nSpec (seen (demo_nats, demo_raw None)))) = 3"
proof -
  let ?L1 = "demo_libs []" and ?L2 = "demo_lit (seen demo_adopted)" and ?C = "demo_config None"
  let ?s1 = "demo_looked\<lparr>trace := trace demo_looked @ [AGetNATS ''eventing-nats'' ''kyma-system'' (Inr (seen demo_adopted))]\<rparr>"
  have none: "allowedNATSCR ?C = None" by (simp add: demo_config_def)
  obtain st1 where first: "serve demo_server (new_actions (Reconcile ?L1 ?C ''eventing-nats'' ''kyma-system'')
      (demo_reader None)) (demo_store None) = Some st1" using demo_first(1) [of None] by auto
  have store: "demo_store None demo_key = Some (demo_nats, demo_raw None)" by (simp add: demo_store_def)
  have fresh: "phase_of ref_meta (Some (demo_nats, demo_raw None)) = Fresh"
    using demo_fresh(1) [of ?L1 "demo_raw None"] by (simp add: demo_adopted_facts)
  have read: "fst (api_get_nats (kapi ?L1) ''eventing-nats'' ''kyma-system'' (world (demo_reader None))) =
      Inr (seen (demo_nats, demo_raw None))" using demo_fresh(4) by simp
  from adoption [OF demo_store_admitted store _ _ read first demo_first(2)]
  have st1: "st1 demo_key = Some demo_adopted" using fresh none by (simp add: demo_adopted demo_adopted_facts)
  obtain x i t u where prov: "provisioned ?L2 ?C (seen demo_adopted) ?s1 x i t"
    and ready: "run_state (IsNATSStatefulSetReady ?L2 i) t = (Returned (Inr True), u)"
    using light_provisioned [OF demo_adopted_configurable] by blast
  have st1': "st1 (key_of (fst demo_adopted)) = Some demo_adopted" using st1 by (simp add: demo_adopted_facts)
  have looked: "nodesZoneCache demo_looked = demo_zones" by (simp add: demo_looked_def)
  note run2 = lit_served [where st = st1, OF demo_adopted_facts(1,2) st1' demo_adopted_facts(3) prov ready none looked]
  obtain st2 where second: "serve demo_server (new_actions (Reconcile ?L2 ?C ''eventing-nats'' ''kyma-system'') demo_looked) st1 = Some st2"
    using run2(1) [of demo_server] by auto
  have read2: "api_get_nats (kapi ?L2) ''eventing-nats'' ''kyma-system'' (world demo_looked) = (Inr (seen demo_adopted), world demo_looked)"
    by (simp add: demo_lit_def)
  have prov': "provisioned ?L2 ?C (seen demo_adopted) (demo_looked\<lparr>world := world demo_looked,
      trace := trace demo_looked @ [AGetNATS ''eventing-nats'' ''kyma-system'' (Inr (seen demo_adopted))]\<rparr>) x i t"
    using prov by simp
  have law: "ssc_law ref_meta" "contains_finalizer_in ref_meta (add_finalizer_to ref_meta fs f) f" for fs f
    by (simp_all add: ref_ssc_law) (simp add: ref_meta_def)
  have wf: "wf_status (nStatus (fst (demo_nats, demo_raw None)))" by (simp add: wf_status_def demo_nats_def zeroStatus_def)
  have size: "clusterSize (spCluster (nSpec (seen (demo_nats, demo_raw None)))) = 3"
    by (simp add: unmarshal_spec_def raw_cluster_def demo_raw_def)
  have allowed: "nName a = ''eventing-nats'' \<and> nNamespace a = ''kyma-system''" if "allowedNATSCR ?C = Some a" for a
    using that none by simp
  have ok1: "fst (run_state (Reconcile ?L1 ?C ''eventing-nats'' ''kyma-system'') (demo_reader None)) =
      Returned (emptyResult, None)" by (rule demo_first(2)) simp
  from new_resource_gets_ready [OF law demo_adopted_facts(5,4) allowed demo_store_admitted store fresh wf read first
      ok1 st1 read2 prov' ready second run2(2)]
  obtain y' where "st2 demo_key = Some y'"
    "\<forall>n. count_zones ?L2 ((seen demo_adopted)\<lparr>nStatus := x\<rparr>) u = Inr n \<and> (n = 3 \<or> (3 :: int) < 3) \<longrightarrow>
      stState (nStatus (fst y')) = StateReady" unfolding size by blast
  moreover have "count_zones ?L2 ((seen demo_adopted)\<lparr>nStatus := x\<rparr>) u = Inr 3"
    by (rule lit_counted [OF provisioned_grows [OF prov ready]]) (simp add: demo_looked_def)
  ultimately show ?thesis using first second size by blast
qed

end
