(* ===== verification/Spec2Isabelle.thy ===== *)
theory Spec2Isabelle
  imports TestEnv DeepCopy E2ECommon StoreRuns
begin

text \<open>
  A verification development for nats-manager, the Kubernetes controller that provisions a NATS cluster
  for a resource of kind NATS and removes it again. All paths below are relative to the root of the
  repository.

  \<^bold>\<open>The program.\<close> \<^verbatim>\<open>cmd/main.go\<close> reads the environment and the command line, creates controller-runtime's
  manager and the collaborators, and registers one reconciler. For each request the reconciler
  (\<^verbatim>\<open>internal/controller/nats\<close>) reads the resource. One that is being deleted goes to
  \<^verbatim>\<open>handleNATSDeletion\<close>: it asks the NATS server (\<^verbatim>\<open>pkg/nats\<close>) for streams and consumers, and either blocks
  the deletion or deletes the volume claims and then the finalizer. Only the one allowed resource is
  provisioned, by \<^verbatim>\<open>handleNATSReconcile\<close>: the finalizer first; then the chart is rendered
  (\<^verbatim>\<open>pkg/k8s/chart\<close>) with values computed from the spec (\<^verbatim>\<open>pkg/manager\<close>), the objects are applied through
  the client wrapper (\<^verbatim>\<open>pkg/k8s\<close>), and the status (\<^verbatim>\<open>api/v1alpha1\<close>) follows the state of the StatefulSet and
  the zones its pods run in. Two gauges (\<^verbatim>\<open>pkg/metrics\<close>) record the size and the zones.

  \<^bold>\<open>Theories, in the order of their imports.\<close>

  \<^item> \<^theory_text>\<open>NatsPrelude\<close>: Go errors, strings and numbers, the state monad with its weakest preconditions, the
    locale \<open>frame_rel\<close> (relations that every step of a program preserves), and \<open>logged_body\<close> (loops that
    stop at the first error).
  \<^item> \<^theory_text>\<open>ApiTypes\<close>: the types and constants of \<^verbatim>\<open>nats_types.go\<close> as records, the comparison of statuses.
    \<^theory_text>\<open>Admission\<close>: the \<^verbatim>\<open>kubebuilder\<close> markers, that is the default values (locale \<open>defaulting\<close>, one
    interpretation per level) and the rules on a write, as histories of admitted specifications. \<^theory_text>\<open>Wire\<close>: the
    \<^verbatim>\<open>json\<close> tags, and what becomes of a specification that the controller writes back.
    \<^theory_text>\<open>DeepCopy\<close>: \<^verbatim>\<open>zz_generated.deepcopy.go\<close> on an explicit memory (locales \<open>footprint\<close>, \<open>deep_copier\<close> and
    \<open>two_copiers\<close>), which justifies that the other theories treat resources as values.
  \<^item> \<^theory_text>\<open>World\<close>: the third-party code as records of parameters, the state of the outside world, and the
    trace of the calls made. \<^theory_text>\<open>Demo\<close>: a concrete world, used by the examples only.
  \<^item> \<^theory_text>\<open>Config\<close>, \<^theory_text>\<open>NatsStatusOps\<close>, \<^theory_text>\<open>KubeClient\<close>, \<^theory_text>\<open>Chart\<close>, \<^theory_text>\<open>NatsManager\<close>, \<^theory_text>\<open>NatsClient\<close>, \<^theory_text>\<open>Metrics\<close>: one theory
    per package, each with its state as a record that extends the one before, its operations under the
    names of the source, and the lemmas about them (locales \<open>status_method\<close>, \<open>zone_source\<close>,
    \<open>nats_session\<close>, \<open>metric\<close>).
  \<^item> \<^theory_text>\<open>Reconciler\<close>: every handler. \<^theory_text>\<open>ReconcilerFrames\<close>: the locale \<open>rec_frame\<close>, which follows the text of all
    handlers once and yields, by interpretation, what each path can do and what it preserves.
  \<^item> \<^theory_text>\<open>Deprovisioning\<close> and \<^theory_text>\<open>Safety\<close>: the inquiry put to the NATS server, read off the calls with their answers
    (\<open>inquiry\<close> has a verdict only when every question was put), the refinement of the abstract deletion policy,
    and when data and the finalizer may go. \<^theory_text>\<open>Provisioning\<close>: the status that a run writes, against an
    abstract status that follows the zones it counts (\<open>count_zones\<close>). \<^theory_text>\<open>Startup\<close>: \<^verbatim>\<open>main\<close>. \<^theory_text>\<open>Lifecycle\<close>: a process as an inductive
    step relation, its invariants, and that it never panics. \<^theory_text>\<open>Convergence\<close>: completed deletions, published
    statuses, and quiescence. \<^theory_text>\<open>StatusTypes\<close>: the typing of every written status.
  \<^item> \<^theory_text>\<open>ApiServer\<close>: the controller together with a store of resources. A run is served by a store when the
    recorded calls have the answers of an API server (reads, accepted updates, updates of the status); the
    effects of the handlers on the store are a further instance of \<open>rec_frame\<close>, and a run is one step of the
    abstract life of its resource. \<^theory_text>\<open>StoreRuns\<close>: the properties of served runs over time.
  \<^item> \<^theory_text>\<open>Testutils\<close>, \<^theory_text>\<open>Matchers\<close>, \<^theory_text>\<open>TestEnv\<close>: the helpers of the repository's tests (\<^verbatim>\<open>testutils\<close>), and that the
    runs of the reconciler satisfy the matchers. \<^theory_text>\<open>E2ECommon\<close>: the helpers of the end-to-end tests
    (\<^verbatim>\<open>e2e/common\<close>) and the registration of the API group.

  \<^bold>\<open>How the code is represented.\<close> A Go function that has effects is a value of the state monad over a
  record; the state of a component is the record of its fields, extended from component to component
  (\<^verbatim>\<open>host\<close>, \<^verbatim>\<open>kube\<close>, \<^verbatim>\<open>rend\<close>, \<^verbatim>\<open>reconciler\<close>), so that one definition serves every later state. A pair of a
  value and an error is a sum; a panic is the outcome \<open>Panicked\<close>. Go's \<^verbatim>\<open>int\<close> is \<open>int\<close>: the sizes and counts
  of the source are far below the bounds of 64 bits, and the one conversion that loses values, to
  \<^verbatim>\<open>float64\<close> in the metrics, is written out. String maps are association lists; where the order of
  iterating over a Go map could matter it is an argument. Third-party code is a parameter about which
  nothing is assumed except in the named laws (\<open>ssc_law\<close>, \<open>wrap_law\<close>, \<open>gauge_law\<close>, \<open>gomega_law\<close>,
  \<open>copy_law\<close>, \<open>eventually_law\<close> and those stated with a theorem); every law is shown to hold of a concrete
  function where it is used. The trace is a ghost list of calls with their answers: no operation reads it.

  \<^bold>\<open>Termination.\<close> All loops of the source run over finite slices or maps and are structural recursions, so
  no fuel is needed; the numeric recursions (printing a number, the conversion to \<^verbatim>\<open>float64\<close>, the retry loops)
  have termination proofs. That a reconciliation returns is a theorem about panics (\<open>process_never_panics\<close>).

  \<^bold>\<open>What the groups of lemmas show.\<close> Safety of deletion: data and the finalizer go only after a complete
  inquiry whose answers showed no customer data (or failed), and the finalizer last. Provisioning: the table of statuses, exact rules
  for writing a status, exact readiness of the StatefulSets, the values that reach the chart, and the
  marks on every object. Process: the watch is started once, clients and caches fit their keys, only the
  allowed resource is provisioned, no run panics. Liveness: an unblocked deletion completes, a ready
  cluster is published, a published one is left alone. With a store: a resource is adopted before anything
  is done for it, keeps its specification while it is managed, and is released only when its data may go
  and has gone; one that the server takes becomes ready in two runs, one that it refuses is never deployed.
  Error behaviour: the cases in which the code loses an error or keeps a stale value are theorems too.

  \<^bold>\<open>Not modelled.\<close> Logging, since no behaviour depends on it. The internals of controller-runtime, Helm, nats.go,
  Prometheus, envtest, gomega and testify: they are parameters. Reconciliations do not overlap, as with
  one worker. The scheme registration in \<^verbatim>\<open>main\<close> only fills tables of controller-runtime. The mocks are
  generated; the tests under \<^verbatim>\<open>e2e\<close> and the YAML under \<^verbatim>\<open>resources\<close> and \<^verbatim>\<open>config\<close> run against, or are data
  for, code outside the repository. The store of \<^theory_text>\<open>ApiServer\<close> is a specification of what the API server
  documents about one kind of resource, not a model of its code: garbage collection, watches and the
  storage of other kinds are left out.
\<close>

end
